(* ===== verification/FAAR_Prelude.thy ===== *)
theory FAAR_Prelude
  imports Complex_Main
begin

text \<open>
  Shared foundations of the FAAR development.

  \<^item> The operations of the program that read and write the store are state
    transformers that either return a value or raise an exception:
    \<open>('s, 'a) op\<close> is \<open>'s \<Rightarrow> (exn + 'a) \<times> 's\<close>, with \<open>Inl\<close> for the raised
    exception. \<open>ret\<close>, \<open>raise_exn\<close>, \<open>bindE\<close>, \<open>seqE\<close> and \<open>catch\<close> are return,
    raise, sequencing and try/except of the source language.
  \<^item> Every exception class of the program is a constructor of \<open>exn\<close>; the message
    texts are dropped.
  \<^item> A database table is the list of its rows in rowid order: SELECT is \<open>find\<close>,
    \<open>filter\<close> or a fold, INSERT appends, UPDATE \dots WHERE is \<open>upd\<close>.
    \<open>grows R xs ys\<close> says that a table only gained rows at its end and that every
    old row evolved along \<open>R\<close>.
  \<^item> \<open>guarantees R m\<close> says that whatever \<open>m\<close> does, returning or raising, relates the
    state before and after by \<open>R\<close>; for a preorder \<open>R\<close> it composes along the control
    flow (locale \<open>step_preorder\<close>).
\<close>

section \<open>Named collections\<close>

named_theorems op_simps \<open>unfolding of the control-flow combinators\<close>
named_theorems wp_simps \<open>weakest preconditions of the control-flow combinators and operations\<close>
named_theorems guar_intros \<open>rules that establish \<open>guarantees\<close> for an operation\<close>

section \<open>Exceptions\<close>

text \<open>
  The exception classes raised or caught by the modelled code. \<open>PermitIssuanceError\<close>
  carries its reason codes, which the runtime reads. \<open>OutOfFuel\<close> is the one
  constructor with no counterpart: it is the result of a fuel-bounded recursion that
  ran out of fuel.
\<close>

datatype exn =
    ValueError
  | KeyError
  | TypeError
  | UnknownIntent
  | IntentConflict
  | IntentBusy
  | InvalidTransition
  | GrantConflict
  | EffectConflict
  | UnknownGrant
  | MigrationError
  | AuthorityAnchorRequired
  | PermitConflict
  | StoreUnavailable
  | LeaseOwnerAlive
  | UnknownPrincipal
  | EvidenceIntegrityError
  | EvidenceRecordTooLarge
  | IntegrityError
  | AuthorityRegression
  | AnchorUnavailable
  | AnchorUnavailableAfterCommit
  | AnchorMismatch
  | PermissionError
  | PermitIssuanceError "string list"
  | OtherError
  | OutOfFuel

section \<open>Operations: state, value or exception\<close>

type_synonym ('s, 'a) op = "'s \<Rightarrow> (exn + 'a) \<times> 's"

definition ret :: "'a \<Rightarrow> ('s, 'a) op" where
  "ret a s = (Inr a, s)"

definition raise_exn :: "exn \<Rightarrow> ('s, 'a) op" where
  "raise_exn e s = (Inl e, s)"

definition bindE :: "('s, 'a) op \<Rightarrow> ('a \<Rightarrow> ('s, 'b) op) \<Rightarrow> ('s, 'b) op" where
  "bindE m f s = (case m s of (Inl e, s') \<Rightarrow> (Inl e, s') | (Inr a, s') \<Rightarrow> f a s')"

definition seqE :: "('s, 'a) op \<Rightarrow> ('s, 'b) op \<Rightarrow> ('s, 'b) op" where
  "seqE m n = bindE m (\<lambda>_. n)"

definition gets :: "('s \<Rightarrow> 'a) \<Rightarrow> ('s, 'a) op" where
  "gets f s = (Inr (f s), s)"

definition modify :: "('s \<Rightarrow> 's) \<Rightarrow> ('s, unit) op" where
  "modify f s = (Inr (), f s)"

definition catch :: "('s, 'a) op \<Rightarrow> (exn \<Rightarrow> ('s, 'a) op) \<Rightarrow> ('s, 'a) op" where
  "catch m h s = (case m s of (Inl e, s') \<Rightarrow> h e s' | (Inr a, s') \<Rightarrow> (Inr a, s'))"

definition lift_sum :: "exn + 'a \<Rightarrow> ('s, 'a) op" where
  "lift_sum r s = (r, s)"

text \<open>The value and the state an operation produces.\<close>

definition result :: "('s, 'a) op \<Rightarrow> 's \<Rightarrow> exn + 'a" where
  "result m s = fst (m s)"

definition exec :: "('s, 'a) op \<Rightarrow> 's \<Rightarrow> 's" where
  "exec m s = snd (m s)"

lemmas [op_simps] = ret_def raise_exn_def bindE_def seqE_def gets_def modify_def catch_def lift_sum_def

lemma bindE_Inr: "m s = (Inr a, s') \<Longrightarrow> bindE m f s = f a s'"
  by (simp add: bindE_def)

lemma bindE_Inl: "m s = (Inl e, s') \<Longrightarrow> bindE m f s = (Inl e, s')"
  by (simp add: bindE_def)

lemma bindE_InrD:
  assumes "bindE m f s = (Inr b, t)"
  obtains a s' where "m s = (Inr a, s')" and "f a s' = (Inr b, t)"
  using assms by (auto simp: bindE_def split: prod.splits sum.splits)

lemma bindE_ret [simp]: "bindE (ret a) f = f a"
  by (rule ext) (simp add: op_simps)

lemma bindE_raise [simp]: "bindE (raise_exn e) f = raise_exn e"
  by (rule ext) (simp add: op_simps)

lemma bindE_assoc: "bindE (bindE m f) g = bindE m (\<lambda>x. bindE (f x) g)"
  by (rule ext) (auto simp: bindE_def split: prod.splits sum.splits)

lemma bindE_gets: "bindE (gets f) g s = g (f s) s"
  by (simp add: op_simps)

lemma seqE_modify: "seqE (modify f) m s = m (f s)"
  by (simp add: op_simps)

section \<open>Two-state guarantees\<close>

definition guarantees :: "('s \<Rightarrow> 's \<Rightarrow> bool) \<Rightarrow> ('s, 'a) op \<Rightarrow> bool" where
  "guarantees R m \<longleftrightarrow> (\<forall>s. R s (snd (m s)))"

lemma guaranteesI: "(\<And>s. R s (snd (m s))) \<Longrightarrow> guarantees R m"
  by (simp add: guarantees_def)

lemma guaranteesD: "guarantees R m \<Longrightarrow> m s = (r, t) \<Longrightarrow> R s t"
  unfolding guarantees_def by (metis snd_conv)

lemma guarantees_mono: "guarantees R m \<Longrightarrow> (\<And>s t. R s t \<Longrightarrow> Q s t) \<Longrightarrow> guarantees Q m"
  by (simp add: guarantees_def)

lemma guarantees_conj: "guarantees R m \<Longrightarrow> guarantees Q m \<Longrightarrow> guarantees (\<lambda>s t. R s t \<and> Q s t) m"
  by (simp add: guarantees_def)

locale step_preorder =
  fixes R :: "'s \<Rightarrow> 's \<Rightarrow> bool"
  assumes step_refl: "R s s"
    and step_trans: "R s t \<Longrightarrow> R t u \<Longrightarrow> R s u"
begin

lemma guar_ret: "guarantees R (ret a)"
  by (simp add: guarantees_def ret_def step_refl)

lemma guar_raise: "guarantees R (raise_exn e)"
  by (simp add: guarantees_def raise_exn_def step_refl)

lemma guar_gets: "guarantees R (gets f)"
  by (simp add: guarantees_def gets_def step_refl)

lemma guar_lift_sum: "guarantees R (lift_sum r)"
  by (simp add: guarantees_def lift_sum_def step_refl)

lemma guar_modify: "(\<And>s. R s (f s)) \<Longrightarrow> guarantees R (modify f)"
  by (simp add: guarantees_def modify_def)

lemma guar_bindE: "guarantees R m \<Longrightarrow> (\<And>a. guarantees R (f a)) \<Longrightarrow> guarantees R (bindE m f)"
  unfolding guarantees_def bindE_def
  by (auto split: prod.splits sum.splits) (metis snd_conv step_trans)+

lemma guar_seqE: "guarantees R m \<Longrightarrow> guarantees R n \<Longrightarrow> guarantees R (seqE m n)"
  unfolding seqE_def by (rule guar_bindE)

lemma guar_catch: "guarantees R m \<Longrightarrow> (\<And>e. guarantees R (h e)) \<Longrightarrow> guarantees R (catch m h)"
  unfolding guarantees_def catch_def
  by (auto split: prod.splits sum.splits) (metis snd_conv step_trans)+

lemma guar_if: "(b \<Longrightarrow> guarantees R m) \<Longrightarrow> (\<not> b \<Longrightarrow> guarantees R n) \<Longrightarrow> guarantees R (if b then m else n)"
  by simp

lemma guar_option:
  "guarantees R m \<Longrightarrow> (\<And>x. guarantees R (f x)) \<Longrightarrow> guarantees R (case v of None \<Rightarrow> m | Some x \<Rightarrow> f x)"
  by (cases v) simp_all

lemma guar_let: "(\<And>x. guarantees R (f x)) \<Longrightarrow> guarantees R (let x = v in f x)"
  by (simp add: Let_def)

lemma guar_prod: "(\<And>x y. guarantees R (f x y)) \<Longrightarrow> guarantees R (case p of (x, y) \<Rightarrow> f x y)"
  by (cases p) simp

lemmas guar_rules =
  guar_ret guar_raise guar_gets guar_lift_sum guar_bindE guar_seqE guar_catch guar_if guar_option
  guar_let guar_prod

end

section \<open>Weakest preconditions\<close>

text \<open>
  \<open>wp m Q s\<close>: running \<open>m\<close> from \<open>s\<close> ends in a result and a state that satisfy \<open>Q\<close>. The
  rules are equations, so the simplifier reduces a statement about an operation to one
  about its guards and updates.
\<close>

definition wp :: "('s, 'a) op \<Rightarrow> (exn + 'a \<Rightarrow> 's \<Rightarrow> bool) \<Rightarrow> 's \<Rightarrow> bool" where
  "wp m Q s = (case m s of (r, t) \<Rightarrow> Q r t)"

lemma wpD: "wp m Q s \<Longrightarrow> m s = (r, t) \<Longrightarrow> Q r t"
  by (simp add: wp_def)

lemma wpI: "(\<And>r t. m s = (r, t) \<Longrightarrow> Q r t) \<Longrightarrow> wp m Q s"
  by (cases "m s") (simp add: wp_def)

lemma wp_mono: "wp m Q s \<Longrightarrow> (\<And>r t. m s = (r, t) \<Longrightarrow> Q r t \<Longrightarrow> P r t) \<Longrightarrow> wp m P s"
  by (auto simp: wp_def split: prod.splits)

lemma wp_ret [wp_simps]: "wp (ret a) Q s = Q (Inr a) s"
  by (simp add: wp_def ret_def)

lemma wp_raise [wp_simps]: "wp (raise_exn e) Q s = Q (Inl e) s"
  by (simp add: wp_def raise_exn_def)

lemma wp_gets [wp_simps]: "wp (gets f) Q s = Q (Inr (f s)) s"
  by (simp add: wp_def gets_def)

lemma wp_modify [wp_simps]: "wp (modify f) Q s = Q (Inr ()) (f s)"
  by (simp add: wp_def modify_def)

lemma wp_lift_sum [wp_simps]: "wp (lift_sum r) Q s = Q r s"
  by (simp add: wp_def lift_sum_def)

lemma wp_bindE [wp_simps]:
  "wp (bindE m f) Q s = wp m (\<lambda>r t. case r of Inl e \<Rightarrow> Q (Inl e) t | Inr a \<Rightarrow> wp (f a) Q t) s"
  by (auto simp: wp_def bindE_def split: prod.splits sum.splits)

lemma wp_seqE [wp_simps]:
  "wp (seqE m n) Q s = wp m (\<lambda>r t. case r of Inl e \<Rightarrow> Q (Inl e) t | Inr a \<Rightarrow> wp n Q t) s"
  by (simp add: seqE_def wp_bindE)

lemma wp_catch [wp_simps]:
  "wp (catch m h) Q s = wp m (\<lambda>r t. case r of Inl e \<Rightarrow> wp (h e) Q t | Inr a \<Rightarrow> Q (Inr a) t) s"
  by (auto simp: wp_def catch_def split: prod.splits sum.splits)

lemma wp_if [wp_simps]: "wp (if b then m else n) Q s = (if b then wp m Q s else wp n Q s)"
  by simp

lemma wp_option [wp_simps]:
  "wp (case v of None \<Rightarrow> m | Some x \<Rightarrow> f x) Q s = (case v of None \<Rightarrow> wp m Q s | Some x \<Rightarrow> wp (f x) Q s)"
  by (cases v) simp_all

lemma wp_prod [wp_simps]: "wp (case p of (x, y) \<Rightarrow> f x y) Q s = (case p of (x, y) \<Rightarrow> wp (f x y) Q s)"
  by (cases p) simp

lemma guarantees_wp: "guarantees R m \<longleftrightarrow> (\<forall>s. wp m (\<lambda>r t. R s t) s)"
  by (auto simp: guarantees_def wp_def split: prod.splits) (metis snd_conv surj_pair)+

section \<open>Tables\<close>

definition upd :: "('r \<Rightarrow> bool) \<Rightarrow> ('r \<Rightarrow> 'r) \<Rightarrow> 'r list \<Rightarrow> 'r list" where
  "upd P f rows = map (\<lambda>r. if P r then f r else r) rows"

lemma upd_simps [simp]:
  "upd P f [] = []"
  "upd P f (r # rs) = (if P r then f r else r) # upd P f rs"
  "upd P f (rs @ rs') = upd P f rs @ upd P f rs'"
  by (simp_all add: upd_def)

lemma length_upd [simp]: "length (upd P f rows) = length rows"
  by (simp add: upd_def)

lemma nth_upd: "i < length rows \<Longrightarrow> upd P f rows ! i = (if P (rows ! i) then f (rows ! i) else rows ! i)"
  by (simp add: upd_def)

lemma upd_id: "(\<And>r. r \<in> set rows \<Longrightarrow> \<not> P r) \<Longrightarrow> upd P f rows = rows"
  by (induction rows) auto

lemma in_set_updE:
  assumes "r \<in> set (upd P f rows)"
  obtains r0 where "r0 \<in> set rows" and "r = (if P r0 then f r0 else r0)"
  using assms by (auto simp: upd_def)

lemma ball_upd: "(\<forall>q \<in> set (upd P f rows). Q q) \<longleftrightarrow> (\<forall>q \<in> set rows. Q (if P q then f q else q))"
  by (auto simp: upd_def)

lemma map_upd_key: "(\<And>r. k (f r) = k r) \<Longrightarrow> map k (upd P f rows) = map k rows"
  by (simp add: upd_def)

lemma find_upd:
  assumes "\<And>r. Q (f r) = Q r"
  shows "find Q (upd P f rows) = map_option (\<lambda>r. if P r then f r else r) (find Q rows)"
  using assms by (induction rows) auto

lemma find_upd_other:
  assumes "\<And>r. Q (f r) = Q r" and "\<And>r. Q r \<Longrightarrow> \<not> P r"
  shows "find Q (upd P f rows) = find Q rows"
  using assms by (induction rows) auto

lemma find_append: "find P (xs @ ys) = (case find P xs of None \<Rightarrow> find P ys | Some x \<Rightarrow> Some x)"
  by (induction xs) auto

lemma find_SomeD: "find P xs = Some x \<Longrightarrow> x \<in> set xs \<and> P x"
  by (induction xs) (auto split: if_splits)

lemma find_key_unique:
  assumes "distinct (map k rows)" and "r \<in> set rows" and "k r = v"
  shows "find (\<lambda>r. k r = v) rows = Some r"
  using assms by (induction rows) auto

lemma find_None_not_in: "find P xs = None \<longleftrightarrow> (\<forall>x \<in> set xs. \<not> P x)"
  by (auto simp: find_None_iff)

subsection \<open>Tables that only grow\<close>

definition grows :: "('r \<Rightarrow> 'r \<Rightarrow> bool) \<Rightarrow> 'r list \<Rightarrow> 'r list \<Rightarrow> bool" where
  "grows R xs ys \<longleftrightarrow> length xs \<le> length ys \<and> (\<forall>i < length xs. R (xs ! i) (ys ! i))"

lemma grows_refl: "(\<And>r. R r r) \<Longrightarrow> grows R xs xs"
  by (simp add: grows_def)

lemma grows_trans:
  assumes "\<And>a b c. R a b \<Longrightarrow> R b c \<Longrightarrow> R a c" and "grows R xs ys" and "grows R ys zs"
  shows "grows R xs zs"
  using assms unfolding grows_def by (meson le_trans less_le_trans)

lemma grows_append: "(\<And>r. R r r) \<Longrightarrow> grows R xs (xs @ ys)"
  by (simp add: grows_def nth_append)

lemma grows_upd:
  assumes "\<And>r. R r r" and "\<And>r. P r \<Longrightarrow> R r (f r)"
  shows "grows R xs (upd P f xs)"
  using assms by (simp add: grows_def nth_upd)

text \<open>An update of the one row with a given key evolves the table if it evolves that row.\<close>

lemma grows_upd_key:
  assumes "distinct (map k rows)" and "find (\<lambda>r. k r = v) rows = Some r0" and "R r0 (f r0)" and "\<And>r. R r r"
  shows "grows R rows (upd (\<lambda>r. k r = v) f rows)"
proof (unfold grows_def, intro conjI allI impI)
  fix i assume i: "i < length rows"
  have "rows ! i = r0" if "k (rows ! i) = v"
    using find_key_unique [OF assms(1) nth_mem [OF i] that] assms(2) by simp
  then show "R (rows ! i) (upd (\<lambda>r. k r = v) f rows ! i)"
    using i assms(3,4) by (auto simp: nth_upd)
qed simp

lemma grows_inD:
  assumes "grows R xs ys" and "x \<in> set xs"
  obtains y where "y \<in> set ys" and "R x y"
  using assms unfolding grows_def by (metis in_set_conv_nth less_le_trans)

lemma grows_eq_prefix: "grows (=) xs ys \<longleftrightarrow> (\<exists>zs. ys = xs @ zs)"
proof
  assume g: "grows (=) xs ys"
  then have "take (length xs) ys = xs"
    by (auto simp: grows_def intro: nth_equalityI)
  then show "\<exists>zs. ys = xs @ zs" by (metis append_take_drop_id)
qed (auto simp: grows_def nth_append)

section \<open>Time\<close>

text \<open>
  Every datetime the code accepts is timezone-aware; it is modelled by its instant in
  microseconds since the epoch (the resolution of the source language's datetimes).
  \<open>secs n\<close> is \<open>timedelta(seconds=n)\<close> and \<open>epoch_seconds\<close> is \<open>int(t.timestamp())\<close>, which
  truncates towards zero.
\<close>

type_synonym time = int

definition secs :: "int \<Rightarrow> time" where
  "secs n = n * 1000000"

definition epoch_seconds :: "time \<Rightarrow> int" where
  "epoch_seconds t = (if 0 \<le> t then t div 1000000 else - ((- t) div 1000000))"

lemma epoch_seconds_mono: "s \<le> t \<Longrightarrow> epoch_seconds s \<le> epoch_seconds t"
proof (cases "0 \<le> s")
  case False
  assume st: "s \<le> t"
  have "0 \<le> (- s) div 1000000" using False by simp
  moreover have "0 \<le> t \<Longrightarrow> 0 \<le> t div 1000000" by simp
  moreover have "(- t) div 1000000 \<le> (- s) div 1000000" using st by (simp add: zdiv_mono1)
  ultimately show ?thesis using False by (auto simp: epoch_seconds_def)
qed (auto simp: epoch_seconds_def zdiv_mono1)

section \<open>Small list helpers of the source language\<close>

text \<open>Python's \<open>tuple(dict.fromkeys(xs))\<close>: duplicates dropped, first occurrence kept.\<close>

fun dedup :: "'a list \<Rightarrow> 'a list" where
  "dedup [] = []"
| "dedup (x # xs) = x # filter (\<lambda>y. y \<noteq> x) (dedup xs)"

lemma set_dedup [simp]: "set (dedup xs) = set xs"
  by (induction xs) auto

lemma dedup_eq_Nil [simp]: "dedup xs = [] \<longleftrightarrow> xs = []"
  by (cases xs) auto

lemma distinct_dedup: "distinct (dedup xs)"
  by (induction xs) auto

text \<open>\<open>s.startswith(p)\<close> and \<open>s.endswith(p)\<close> on strings.\<close>

definition starts_with :: "string \<Rightarrow> string \<Rightarrow> bool" where
  "starts_with p s \<longleftrightarrow> take (length p) s = p"

definition ends_with :: "string \<Rightarrow> string \<Rightarrow> bool" where
  "ends_with p s \<longleftrightarrow> length p \<le> length s \<and> drop (length s - length p) s = p"

text \<open>Lexicographic order of strings by code point, as the source's string comparison.\<close>

fun string_le :: "string \<Rightarrow> string \<Rightarrow> bool" where
  "string_le [] ys = True"
| "string_le (x # xs) [] = False"
| "string_le (x # xs) (y # ys) =
     ((of_char x :: int) < of_char y \<or> (x = y \<and> string_le xs ys))"

lemma string_le_refl: "string_le xs xs"
  by (induction xs) auto

lemma string_le_total: "string_le xs ys \<or> string_le ys xs"
proof (induction xs ys rule: string_le.induct)
  case (3 x xs y ys)
  show ?case
  proof (cases "(of_char x :: int) = of_char y")
    case True
    with 3 show ?thesis by auto
  next
    case False
    then have "(of_char x :: int) < of_char y \<or> (of_char y :: int) < of_char x" by linarith
    then show ?thesis by auto
  qed
qed auto

lemma string_le_trans: "string_le xs ys \<Longrightarrow> string_le ys zs \<Longrightarrow> string_le xs zs"
proof (induction xs ys arbitrary: zs rule: string_le.induct)
  case (3 x xs y ys)
  then show ?case by (cases zs) auto
qed auto

lemma string_le_antisym: "string_le xs ys \<Longrightarrow> string_le ys xs \<Longrightarrow> xs = ys"
proof (induction xs ys rule: string_le.induct)
  case (1 ys)
  then show ?case by (cases ys) auto
qed auto

text \<open>Insertion sort with a string key: a stable \<open>sorted(xs, key=...)\<close>.\<close>

fun insert_by :: "('a \<Rightarrow> string) \<Rightarrow> 'a \<Rightarrow> 'a list \<Rightarrow> 'a list" where
  "insert_by k x [] = [x]"
| "insert_by k x (y # ys) = (if string_le (k x) (k y) then x # y # ys else y # insert_by k x ys)"

definition sort_by :: "('a \<Rightarrow> string) \<Rightarrow> 'a list \<Rightarrow> 'a list" where
  "sort_by k xs = foldr (insert_by k) xs []"

lemma set_insert_by [simp]: "set (insert_by k x ys) = insert x (set ys)"
  by (induction ys) auto

lemma length_insert_by [simp]: "length (insert_by k x ys) = Suc (length ys)"
  by (induction ys) auto

lemma set_sort_by [simp]: "set (sort_by k xs) = set xs"
  unfolding sort_by_def by (induction xs) auto

lemma length_sort_by [simp]: "length (sort_by k xs) = length xs"
  unfolding sort_by_def by (induction xs) auto

text \<open>Reading a run as its result and its final state.\<close>

lemma run_eqI: "fst p = r \<Longrightarrow> p = (r, snd p)"
  by (cases p) simp

lemma run_neqI: "(\<And>u. p \<noteq> (r, u)) \<Longrightarrow> fst p \<noteq> r"
  by (cases p) auto

end
