(* ===== verification/Py_Decimal.thy ===== *)
theory Py_Decimal
  imports FAAR_Prelude
begin

text \<open>
  The source language's \<open>Decimal\<close> as far as the program uses it, and the bounded
  amount grammar of \<open>faar/canonical.py\<close>.

  A finite decimal is the triple of \<open>Decimal.as_tuple()\<close>: sign, coefficient and
  exponent. Comparison is by value (\<open>dval\<close>); addition rounds to the 28 significant
  digits of the default context, half to even (\<open>dec_add\<close>), and the exactness lemmas
  say when it does not round. The main results are the round trip between the plain
  money grammar and \<open>format(value, "f")\<close>, and exactness of sums of money amounts.
\<close>

section \<open>Decimals\<close>

datatype decimal =
    DFin (dsign: bool) (dcoeff: nat) (dexp: int)
  | DInf bool
  | DNaN

fun is_finite :: "decimal \<Rightarrow> bool" where
  "is_finite (DFin s c e) = True"
| "is_finite (DInf s) = False"
| "is_finite DNaN = False"

definition pow10 :: "int \<Rightarrow> rat" where
  "pow10 e = (if 0 \<le> e then 10 ^ nat e else 1 / 10 ^ nat (- e))"

fun dval :: "decimal \<Rightarrow> rat" where
  "dval (DFin s c e) = (if s then - of_nat c else of_nat c) * pow10 e"
| "dval (DInf s) = 0"
| "dval DNaN = 0"

text \<open>Comparisons of finite decimals; the code tests \<open>is_finite\<close> before comparing.\<close>

definition dlt :: "decimal \<Rightarrow> decimal \<Rightarrow> bool" where
  "dlt x y \<longleftrightarrow> dval x < dval y"

definition dle :: "decimal \<Rightarrow> decimal \<Rightarrow> bool" where
  "dle x y \<longleftrightarrow> dval x \<le> dval y"

definition deq :: "decimal \<Rightarrow> decimal \<Rightarrow> bool" where
  "deq x y \<longleftrightarrow> dval x = dval y"

definition dzero :: decimal where
  "dzero = DFin False 0 0"

lemma dval_dzero [simp]: "dval dzero = 0"
  by (simp add: dzero_def)

lemma is_finite_dzero [simp]: "is_finite dzero"
  by (simp add: dzero_def)

lemma pow10_pos [simp]: "0 < pow10 e"
  by (simp add: pow10_def)

lemma pow10_0 [simp]: "pow10 0 = 1"
  by (simp add: pow10_def)

lemma pow10_add: "pow10 (a + b) = pow10 a * pow10 b"
proof -
  have powi: "pow10 e = 10 powi e" for e
    by (simp add: pow10_def power_int_def inverse_eq_divide power_one_over)
  show ?thesis by (simp add: powi power_int_add)
qed

lemma pow10_of_nat: "pow10 (int n) = 10 ^ n"
  by (simp add: pow10_def)

section \<open>Digits\<close>

fun ndigits :: "nat \<Rightarrow> nat" where
  "ndigits n = (if n < 10 then 1 else Suc (ndigits (n div 10)))"

declare ndigits.simps [simp del]

definition digit_char :: "nat \<Rightarrow> char" where
  "digit_char d = char_of (48 + d)"

definition digit_val :: "char \<Rightarrow> nat" where
  "digit_val c = of_char c - 48"

definition is_digit :: "char \<Rightarrow> bool" where
  "is_digit c \<longleftrightarrow> 48 \<le> (of_char c :: nat) \<and> (of_char c :: nat) \<le> 57"

fun dec_digits :: "nat \<Rightarrow> string" where
  "dec_digits n = (if n < 10 then [digit_char n] else dec_digits (n div 10) @ [digit_char (n mod 10)])"

declare dec_digits.simps [simp del]

definition digits_val :: "string \<Rightarrow> nat" where
  "digits_val s = foldl (\<lambda>a c. 10 * a + digit_val c) 0 s"

lemma digits_val_Nil [simp]: "digits_val [] = 0"
  by (simp add: digits_val_def)

lemma digits_val_snoc [simp]: "digits_val (s @ [c]) = 10 * digits_val s + digit_val c"
  by (simp add: digits_val_def)

lemma digits_val_zero_Cons [simp]: "digits_val (CHR ''0'' # s) = digits_val s"
  by (simp add: digits_val_def digit_val_def)

lemma digit_char_0 [simp]: "digit_char 0 = CHR ''0''"
  unfolding digit_char_def by code_simp

lemma digit_val_less: "is_digit c \<Longrightarrow> digit_val c < 10"
  by (auto simp: is_digit_def digit_val_def)

lemma digit_char_val [simp]: "is_digit c \<Longrightarrow> digit_char (digit_val c) = c"
  by (simp add: is_digit_def digit_val_def digit_char_def)

lemma digit_val_pos: "is_digit c \<Longrightarrow> c \<noteq> CHR ''0'' \<Longrightarrow> 0 < digit_val c"
  using digit_char_val [of c] by (cases "digit_val c") auto

lemma length_dec_digits: "length (dec_digits n) = ndigits n"
  by (induction n rule: dec_digits.induct) (subst dec_digits.simps, subst ndigits.simps, simp)

lemma ndigits_pos [simp]: "0 < ndigits n"
  by (subst ndigits.simps) simp

lemma ndigits_le_iff: "0 < k \<Longrightarrow> ndigits n \<le> k \<longleftrightarrow> n < 10 ^ k"
proof (induction n arbitrary: k rule: ndigits.induct)
  case (1 n)
  show ?case
  proof (cases "n < 10")
    case True
    have "(10::nat) ^ 1 \<le> 10 ^ k" using "1.prems" by (intro power_increasing) auto
    with True "1.prems" show ?thesis by (subst ndigits.simps) auto
  next
    case False
    show ?thesis
    proof (cases "k = 1")
      case True
      with False show ?thesis by (subst ndigits.simps) auto
    next
      case k: False
      with "1.prems" obtain j where j: "k = Suc j" "0 < j" by (cases k) auto
      have "ndigits n \<le> k \<longleftrightarrow> ndigits (n div 10) \<le> j"
        using False j by (subst ndigits.simps) auto
      also have "\<dots> \<longleftrightarrow> n div 10 < 10 ^ j" using "1.IH" [OF False, of j] j by simp
      also have "\<dots> \<longleftrightarrow> n < 10 ^ k" using j by (simp add: div_less_iff_less_mult mult.commute)
      finally show ?thesis .
    qed
  qed
qed

lemma digits_val_bound: "\<forall>c \<in> set s. is_digit c \<Longrightarrow> digits_val s < 10 ^ length s"
proof (induction s rule: rev_induct)
  case (snoc c s)
  then have "digits_val s + 1 \<le> 10 ^ length s" and "digit_val c < 10"
    by (auto simp: digit_val_less)
  then have "10 * digits_val s + digit_val c < 10 * 10 ^ length s" by linarith
  then show ?case by simp
qed simp

text \<open>A digit string without a superfluous leading zero is the rendering of its value.\<close>

lemma dec_digits_val:
  assumes "s \<noteq> []" and "\<forall>c \<in> set s. is_digit c" and "hd s \<noteq> CHR ''0'' \<or> s = ''0''"
  shows "dec_digits (digits_val s) = s"
  using assms
proof (induction s rule: rev_nonempty_induct)
  case (single c)
  then show ?case
    by (subst dec_digits.simps) (simp add: digits_val_def digit_val_less)
next
  case (snoc c s)
  then have hd: "hd s \<noteq> CHR ''0''" by (auto simp: Cons_eq_append_conv)
  with snoc have ih: "dec_digits (digits_val s) = s" by auto
  have "0 < digits_val s"
  proof (rule ccontr)
    assume "\<not> 0 < digits_val s"
    then have "s = [digit_char 0]" using ih by (simp add: dec_digits.simps)
    then show False using hd by simp
  qed
  moreover have "digit_val c < 10" using snoc by (simp add: digit_val_less)
  ultimately show ?case
    using snoc ih by (subst dec_digits.simps) simp
qed

lemma dec_digits_padded:
  assumes "s \<noteq> []" and "\<forall>c \<in> set s. is_digit c"
  shows "length (dec_digits (digits_val s)) \<le> length s
    \<and> replicate (length s - length (dec_digits (digits_val s))) CHR ''0'' @ dec_digits (digits_val s) = s"
  using assms
proof (induction s)
  case (Cons c s)
  show ?case
  proof (cases "c = CHR ''0'' \<and> s \<noteq> []")
    case True
    with Cons show ?thesis by (auto simp: Suc_diff_le)
  next
    case False
    then have "hd (c # s) \<noteq> CHR ''0'' \<or> c # s = ''0''" by auto
    from dec_digits_val [OF _ Cons.prems(2) this] show ?thesis by simp
  qed
qed simp

lemma dec_digits_nonempty [simp]: "dec_digits n \<noteq> []"
  by (subst dec_digits.simps) simp

lemma digit_val_char [simp]: "d < 10 \<Longrightarrow> digit_val (digit_char d) = d"
  by (simp add: digit_val_def digit_char_def)

lemma is_digit_char [simp]: "d < 10 \<Longrightarrow> is_digit (digit_char d)"
  by (simp add: is_digit_def digit_char_def)

lemma is_digit_dec_digits: "c \<in> set (dec_digits n) \<Longrightarrow> is_digit c"
proof (induction n rule: dec_digits.induct)
  case (1 n)
  then show ?case
    by (cases "n < 10") (auto simp: dec_digits.simps [of n])
qed

lemma digits_val_dec_digits [simp]: "digits_val (dec_digits n) = n"
proof (induction n rule: dec_digits.induct)
  case (1 n)
  show ?case
  proof (cases "n < 10")
    case True
    then show ?thesis by (simp add: dec_digits.simps [of n] digits_val_def)
  next
    case False
    with 1 show ?thesis by (simp add: dec_digits.simps [of n])
  qed
qed

lemma hd_dec_digits: "0 < n \<Longrightarrow> hd (dec_digits n) \<noteq> CHR ''0''"
proof (induction n rule: dec_digits.induct)
  case (1 n)
  show ?case
  proof (cases "n < 10")
    case True
    with 1 have "digit_val (digit_char n) = n" by simp
    with 1 True show ?thesis by (auto simp: dec_digits.simps [of n] digit_val_def)
  next
    case False
    then have "0 < n div 10" by auto
    with 1 False show ?thesis by (simp add: dec_digits.simps [of n])
  qed
qed

section \<open>Rendering: format(value, "f")\<close>

definition format_f :: "decimal \<Rightarrow> string" where
  "format_f d = (case d of
     DFin s c e \<Rightarrow>
       (if s then ''-'' else []) @
       (let ds = dec_digits c; place = int (length ds) + e in
        if 0 \<le> e then (if c = 0 then ''0'' else ds @ replicate (nat e) CHR ''0'')
        else if place \<le> 0 then ''0.'' @ replicate (nat (- place)) CHR ''0'' @ ds
        else take (nat place) ds @ ''.'' @ drop (nat place) ds)
   | DInf s \<Rightarrow> (if s then ''-Infinity'' else ''Infinity'')
   | DNaN \<Rightarrow> ''NaN'')"

text \<open>
  The value read back from that text: a positive exponent is spelled out in digits, so
  a stored amount has exponent at most zero.
\<close>

fun reread_f :: "decimal \<Rightarrow> decimal" where
  "reread_f (DFin s c e) = (if 0 \<le> e then DFin s (c * 10 ^ nat e) 0 else DFin s c e)"
| "reread_f d = d"

lemma dval_reread_f [simp]: "dval (reread_f d) = dval d"
  by (cases d) (auto simp: pow10_def)

lemma is_finite_reread_f [simp]: "is_finite (reread_f d) = is_finite d"
  by (cases d) auto

section \<open>faar/canonical.py: bounds and the money grammar\<close>

definition MAX_DECIMAL_DIGITS :: nat where
  "MAX_DECIMAL_DIGITS = 100"

definition MAX_DECIMAL_ABS_EXPONENT :: int where
  "MAX_DECIMAL_ABS_EXPONENT = 100"

text \<open>\<open>value.adjusted()\<close>: the exponent of the most significant digit.\<close>

definition adjusted :: "nat \<Rightarrow> int \<Rightarrow> int" where
  "adjusted c e = e + int (ndigits c) - 1"

definition canonical_decimal :: "decimal \<Rightarrow> exn + string" where
  "canonical_decimal d = (case d of
     DFin s c e \<Rightarrow>
       if ndigits c > MAX_DECIMAL_DIGITS \<or> \<bar>e\<bar> > MAX_DECIMAL_ABS_EXPONENT then Inl ValueError
       else if \<bar>if c \<noteq> 0 then adjusted c e else 0\<bar> > MAX_DECIMAL_ABS_EXPONENT then Inl ValueError
       else Inr (format_f d)
   | DInf s \<Rightarrow> Inl ValueError
   | DNaN \<Rightarrow> Inl ValueError)"

definition canonically_bounded :: "decimal \<Rightarrow> bool" where
  "canonically_bounded d = (case canonical_decimal d of Inl e \<Rightarrow> False | Inr s \<Rightarrow> True)"

lemma canonically_bounded_finite: "canonically_bounded d \<Longrightarrow> is_finite d"
  by (cases d) (auto simp: canonically_bounded_def canonical_decimal_def)

text \<open>
  \<open>MONEY_STRING_PATTERN\<close>: \<open>(0|[1-9][0-9]{0,17})(\.[0-9]{1,8})?\<close> over the whole string.
\<close>

definition money_int_part :: "string \<Rightarrow> bool" where
  "money_int_part s \<longleftrightarrow>
     s = ''0'' \<or> (s \<noteq> [] \<and> list_all is_digit s \<and> hd s \<noteq> CHR ''0'' \<and> length s \<le> 18)"

definition money_frac_part :: "string \<Rightarrow> bool" where
  "money_frac_part s \<longleftrightarrow> list_all is_digit s \<and> 1 \<le> length s \<and> length s \<le> 8"

definition before_dot :: "string \<Rightarrow> string" where
  "before_dot s = takeWhile (\<lambda>c. c \<noteq> CHR ''.'') s"

definition after_dot :: "string \<Rightarrow> string" where
  "after_dot s = tl (dropWhile (\<lambda>c. c \<noteq> CHR ''.'') s)"

definition money_string :: "string \<Rightarrow> bool" where
  "money_string s \<longleftrightarrow>
     money_int_part (before_dot s) \<and>
     (CHR ''.'' \<in> set s \<longrightarrow> money_frac_part (after_dot s))"

text \<open>\<open>Decimal(text)\<close> for a text of that grammar, with an optional minus sign in front.\<close>

definition dec_of_money :: "bool \<Rightarrow> string \<Rightarrow> decimal" where
  "dec_of_money neg s = DFin neg (digits_val (before_dot s @ after_dot s)) (- int (length (after_dot s)))"

lemma after_dot_no_dot: "CHR ''.'' \<notin> set s \<Longrightarrow> after_dot s = []"
proof -
  assume "CHR ''.'' \<notin> set s"
  then have "dropWhile (\<lambda>c. c \<noteq> CHR ''.'') s = []" by (auto simp: dropWhile_eq_Nil_conv)
  then show ?thesis by (simp only: after_dot_def list.sel)
qed

lemma before_after_dot: "CHR ''.'' \<in> set s \<Longrightarrow> s = before_dot s @ ''.'' @ after_dot s"
proof -
  assume "CHR ''.'' \<in> set s"
  then have "dropWhile (\<lambda>c. c \<noteq> CHR ''.'') s \<noteq> []" by (auto simp: dropWhile_eq_Nil_conv)
  moreover from this have "hd (dropWhile (\<lambda>c. c \<noteq> CHR ''.'') s) = CHR ''.''"
    using hd_dropWhile by blast
  ultimately have "dropWhile (\<lambda>c. c \<noteq> CHR ''.'') s = CHR ''.'' # after_dot s"
    unfolding after_dot_def by (metis list.collapse)
  then show ?thesis unfolding before_dot_def by (metis append_Cons append_Nil takeWhile_dropWhile_id)
qed

lemma before_dot_no_dot: "CHR ''.'' \<notin> set s \<Longrightarrow> before_dot s = s"
  unfolding before_dot_def takeWhile_eq_all_conv by auto

lemma money_int_part_digits: "money_int_part s \<Longrightarrow> \<forall>c \<in> set s. is_digit c"
  by (auto simp: money_int_part_def list_all_iff is_digit_def)

lemma money_int_part_length: "money_int_part s \<Longrightarrow> 1 \<le> length s \<and> length s \<le> 18"
  by (cases s) (auto simp: money_int_part_def)

lemma money_string_parts:
  assumes "money_string s"
  shows "money_int_part (before_dot s)" and "\<forall>c \<in> set (after_dot s). is_digit c"
    and "length (after_dot s) \<le> 8"
  using assms after_dot_no_dot [of s]
  by (auto simp: money_string_def money_frac_part_def list_all_iff)

lemma dec_digits_int_part: "money_int_part s \<Longrightarrow> dec_digits (digits_val s) = s"
  using dec_digits_val [of s] by (auto simp: money_int_part_def list_all_iff is_digit_def)

lemma money_coeff_bound:
  assumes "money_string s"
  shows "digits_val (before_dot s @ after_dot s) < 10 ^ 26"
proof -
  have "digits_val (before_dot s @ after_dot s) < 10 ^ length (before_dot s @ after_dot s)"
    using money_string_parts [OF assms] money_int_part_digits by (intro digits_val_bound) auto
  also have "\<dots> \<le> 10 ^ 26"
    using money_string_parts [OF assms] money_int_part_length [of "before_dot s"]
    by (intro power_increasing) auto
  finally show ?thesis .
qed

text \<open>The grammar is exactly what \<open>format(value, "f")\<close> prints for the parsed value.\<close>

lemma format_dec_of_money:
  assumes "money_string s"
  shows "format_f (dec_of_money False s) = s"
proof (cases "CHR ''.'' \<in> set s")
  case False
  then have i: "money_int_part s" and d: "dec_of_money False s = DFin False (digits_val s) 0"
    using money_string_parts(1) [OF assms] by (simp_all add: before_dot_no_dot after_dot_no_dot dec_of_money_def)
  have "s = ''0''" if "digits_val s = 0"
    using dec_digits_int_part [OF i] that by (simp add: dec_digits.simps)
  then show ?thesis using dec_digits_int_part [OF i] by (auto simp: d format_f_def Let_def)
next
  case True
  let ?i = "before_dot s" and ?f = "after_dot s"
  have f: "\<forall>c \<in> set ?f. is_digit c" "1 \<le> length ?f"
    using assms True by (auto simp: money_string_def money_frac_part_def list_all_iff)
  then have f0: "?f \<noteq> []" by auto
  have s: "?i @ ''.'' @ ?f = s" using before_after_dot [OF True] by simp
  show ?thesis
  proof (cases "?i = ''0''")
    case zero: True
    let ?d = "dec_digits (digits_val ?f)"
    have pad: "length ?d \<le> length ?f" "replicate (length ?f - length ?d) CHR ''0'' @ ?d = ?f"
      using dec_digits_padded [OF f0 f(1)] by auto
    have "format_f (dec_of_money False s) = ''0.'' @ replicate (length ?f - length ?d) CHR ''0'' @ ?d"
      using pad(1) f0 zero by (simp add: format_f_def dec_of_money_def Let_def nat_diff_distrib)
    also have "\<dots> = s" using pad(2) s zero by simp
    finally show ?thesis .
  next
    case nonzero: False
    then have i: "?i \<noteq> []" "hd ?i \<noteq> CHR ''0''" "\<forall>c \<in> set ?i. is_digit c"
      using money_string_parts(1) [OF assms] by (auto simp: money_int_part_def list_all_iff)
    then have "dec_digits (digits_val (?i @ ?f)) = ?i @ ?f"
      using f(1) by (intro dec_digits_val) auto
    then show ?thesis
      using i(1) f0 s by (simp add: format_f_def dec_of_money_def Let_def)
  qed
qed

section \<open>Addition under the default context\<close>

text \<open>
  Addition aligns the exponents and rounds the exact sum to 28 significant digits, half
  to even. \<open>round_coeff\<close> rounds a coefficient; a carry into a 29th digit shifts once
  more.
\<close>

definition DECIMAL_PREC :: nat where
  "DECIMAL_PREC = 28"

definition round_half_even :: "nat \<Rightarrow> nat \<Rightarrow> nat" where
  "round_half_even c k =
     (let q = c div 10 ^ k; r = c mod 10 ^ k in
      if 2 * r > 10 ^ k \<or> (2 * r = 10 ^ k \<and> odd q) then q + 1 else q)"

definition round_coeff :: "nat \<Rightarrow> int \<Rightarrow> nat \<times> int" where
  "round_coeff c e =
     (if ndigits c \<le> DECIMAL_PREC then (c, e)
      else let k = ndigits c - DECIMAL_PREC; q = round_half_even c k in
        if ndigits q \<le> DECIMAL_PREC then (q, e + int k) else (q div 10, e + int k + 1))"

fun dec_add :: "decimal \<Rightarrow> decimal \<Rightarrow> decimal" where
  "dec_add (DFin s c e) (DFin s' c' e') =
     (let m = min e e';
          a = (if s then - int c else int c) * 10 ^ nat (e - m);
          b = (if s' then - int c' else int c') * 10 ^ nat (e' - m);
          (q, f) = round_coeff (nat \<bar>a + b\<bar>) m
      in DFin (a + b < 0) q f)"
| "dec_add (DInf s) (DInf s') = (if s = s' then DInf s else DNaN)"
| "dec_add (DInf s) (DFin _ _ _) = DInf s"
| "dec_add (DFin _ _ _) (DInf s) = DInf s"
| "dec_add DNaN _ = DNaN"
| "dec_add _ DNaN = DNaN"

text \<open>\<open>sum(xs, Decimal("0"))\<close>: additions from the left.\<close>

definition dec_sum :: "decimal list \<Rightarrow> decimal" where
  "dec_sum xs = foldl dec_add dzero xs"

lemma is_finite_dec_add: "is_finite x \<Longrightarrow> is_finite y \<Longrightarrow> is_finite (dec_add x y)"
  by (cases x; cases y) (auto simp: Let_def split: prod.splits)

lemma is_finite_dec_sum: "(\<And>x. x \<in> set xs \<Longrightarrow> is_finite x) \<Longrightarrow> is_finite (dec_sum xs)"
proof -
  have "is_finite a \<Longrightarrow> (\<And>x. x \<in> set xs \<Longrightarrow> is_finite x) \<Longrightarrow> is_finite (foldl dec_add a xs)" for a
    by (induction xs arbitrary: a) (auto simp: is_finite_dec_add)
  then show "(\<And>x. x \<in> set xs \<Longrightarrow> is_finite x) \<Longrightarrow> is_finite (dec_sum xs)"
    by (auto simp: dec_sum_def)
qed

text \<open>
  \<open>cents d\<close> is the value of \<open>d\<close> in units of \<open>10^-8\<close>, the finest step of the money
  grammar; \<open>micro d\<close> says that \<open>d\<close> is a finite multiple of that unit.
\<close>

fun micro :: "decimal \<Rightarrow> bool" where
  "micro (DFin s c e) = (- 8 \<le> e)"
| "micro d = False"

fun cents :: "decimal \<Rightarrow> int" where
  "cents (DFin s c e) = (if s then - int c else int c) * 10 ^ nat (e + 8)"
| "cents d = 0"

lemma micro_finite: "micro d \<Longrightarrow> is_finite d"
  by (cases d) auto

lemma dval_cents: "micro d \<Longrightarrow> dval d * 10 ^ 8 = of_int (cents d)"
proof (cases d)
  case (DFin s c e)
  assume "micro d"
  with DFin have e: "- 8 \<le> e" by simp
  have "pow10 e * 10 ^ 8 = pow10 (e + 8)" using pow10_of_nat [of 8] by (simp add: pow10_add)
  also have "\<dots> = 10 ^ nat (e + 8)" using e by (simp add: pow10_def)
  finally show ?thesis using DFin by (cases s) (simp_all add: mult.assoc)
qed auto

lemma dlt_cents: "micro x \<Longrightarrow> micro y \<Longrightarrow> dlt x y \<longleftrightarrow> cents x < cents y"
  using dval_cents [of x] dval_cents [of y] unfolding dlt_def
  by (metis mult_less_cancel_right_pos of_int_less_iff zero_less_numeral zero_less_power)

lemma micro_dec_of_money: "money_string s \<Longrightarrow> micro (dec_of_money n s)"
  using money_string_parts(3) [of s] by (simp add: dec_of_money_def)

lemma micro_reread_f [simp]: "micro d \<Longrightarrow> micro (reread_f d)"
  by (cases d) auto

lemma cents_reread_f [simp]: "micro d \<Longrightarrow> cents (reread_f d) = cents d"
proof -
  assume m: "micro d"
  then have "(of_int (cents (reread_f d)) :: rat) = of_int (cents d)"
    using dval_cents [of d] dval_cents [of "reread_f d"] by simp
  then show ?thesis by simp
qed

text \<open>Below \<open>10^20\<close> in value a sum of such amounts never rounds.\<close>

lemma dec_add_exact:
  assumes x: "micro x" and y: "micro y" and small: "\<bar>cents x + cents y\<bar> < 10 ^ 28"
  shows "micro (dec_add x y) \<and> cents (dec_add x y) = cents x + cents y"
proof -
  obtain s c e where X: "x = DFin s c e" "- 8 \<le> e" using x by (cases x) auto
  obtain s' c' e' where Y: "y = DFin s' c' e'" "- 8 \<le> e'" using y by (cases y) auto
  define m where "m = min e e'"
  define a where "a = (if s then - int c else int c) * 10 ^ nat (e - m)"
  define b where "b = (if s' then - int c' else int c') * 10 ^ nat (e' - m)"
  have m: "- 8 \<le> m" "m \<le> e" "m \<le> e'" using X Y by (auto simp: m_def)
  have scale: "(10::int) ^ nat (f - m) * 10 ^ nat (m + 8) = 10 ^ nat (f + 8)" if "m \<le> f" for f
    using that m(1) by (simp flip: power_add nat_add_distrib)
  have ab: "(a + b) * 10 ^ nat (m + 8) = cents x + cents y"
    using scale [of e] scale [of e'] m X Y by (simp add: a_def b_def distrib_right mult.assoc)
  have "\<bar>a + b\<bar> \<le> \<bar>a + b\<bar> * 10 ^ nat (m + 8)" by (simp add: mult_le_cancel_left1)
  also have "\<dots> = \<bar>cents x + cents y\<bar>" using ab by (simp flip: ab add: abs_mult)
  finally have "\<bar>a + b\<bar> < 10 ^ 28" using small by linarith
  then have "nat \<bar>a + b\<bar> < 10 ^ 28" by (simp add: nat_less_iff)
  then have nd: "ndigits (nat \<bar>a + b\<bar>) \<le> DECIMAL_PREC"
    unfolding DECIMAL_PREC_def by (subst ndigits_le_iff) auto
  have sum: "dec_add x y = DFin (a + b < 0) (nat \<bar>a + b\<bar>) m"
    using X Y nd by (simp add: Let_def round_coeff_def flip: m_def a_def b_def)
  have "(if a + b < 0 then - int (nat \<bar>a + b\<bar>) else int (nat \<bar>a + b\<bar>)) = a + b" by simp
  then show ?thesis using sum ab m(1) by (simp add: sum)
qed

lemma dec_sum_exact:
  assumes "\<forall>x \<in> set xs. micro x \<and> 0 \<le> cents x" and "sum_list (map cents xs) < 10 ^ 28"
  shows "micro (dec_sum xs) \<and> cents (dec_sum xs) = sum_list (map cents xs)"
proof -
  have "micro a \<Longrightarrow> 0 \<le> cents a \<Longrightarrow> cents a + sum_list (map cents xs) < 10 ^ 28
    \<Longrightarrow> micro (foldl dec_add a xs) \<and> cents (foldl dec_add a xs) = cents a + sum_list (map cents xs)" for a
    using assms(1)
  proof (induction xs arbitrary: a)
    case (Cons x xs)
    have nn: "0 \<le> sum_list (map cents xs)" using Cons.prems(4) by (intro sum_list_nonneg) auto
    have "micro (dec_add a x) \<and> cents (dec_add a x) = cents a + cents x"
      using Cons.prems nn by (intro dec_add_exact) auto
    moreover from this have "0 \<le> cents (dec_add a x)" using Cons.prems by auto
    ultimately show ?case using Cons.IH [of "dec_add a x"] Cons.prems by (simp add: add.assoc)
  qed simp
  from this [of dzero] show ?thesis using assms(2) by (simp add: dec_sum_def dzero_def)
qed

text \<open>
  Above that bound the sum rounds, but never back below it: a limit check against a
  smaller limit still sees the excess.
\<close>

lemma ndigits_gt: "0 < k \<Longrightarrow> k < ndigits n \<Longrightarrow> 10 ^ k \<le> n"
  using ndigits_le_iff [of k n] by linarith

lemma round_coeff_lower:
  assumes "10 ^ 28 \<le> c" and "round_coeff c e = (q, f)"
  shows "e \<le> f \<and> 10 ^ 28 \<le> q * 10 ^ nat (f - e)"
proof -
  have big: "28 < ndigits c"
    using assms(1) ndigits_le_iff [of 28 c] by (meson not_le_imp_less not_less zero_less_numeral)
  define k where "k = ndigits c - 28"
  have k: "0 < k" "27 + k < ndigits c" "0 < 27 + k" using big by (auto simp: k_def)
  define r where "r = round_half_even c k"
  have "10 ^ (27 + k) \<le> c" by (rule ndigits_gt [OF k(3,2)])
  then have "(10::nat) ^ (27 + k) div 10 ^ k \<le> c div 10 ^ k" by (rule div_le_mono)
  moreover have "(10::nat) ^ (27 + k) div 10 ^ k = 10 ^ 27" by (simp add: power_add)
  moreover have "c div 10 ^ k \<le> r" by (simp add: r_def round_half_even_def Let_def)
  ultimately have r: "10 ^ 27 \<le> r" by linarith
  have p: "(10::nat) \<le> 10 ^ k" using k(1) by (metis One_nat_def Suc_leI power_increasing power_one_right one_le_numeral)
  show ?thesis
  proof (cases "ndigits r \<le> 28")
    case True
    then have "q = r" "f = e + int k"
      using assms(2) big by (auto simp: round_coeff_def DECIMAL_PREC_def Let_def k_def r_def)
    moreover have "10 ^ 27 * 10 \<le> r * 10 ^ k" using r p by (intro mult_le_mono) auto
    ultimately show ?thesis by simp
  next
    case False
    then have qf: "q = r div 10" "f = e + int k + 1"
      using assms(2) big by (auto simp: round_coeff_def DECIMAL_PREC_def Let_def k_def r_def)
    have "10 ^ 28 \<le> r" using False by (intro ndigits_gt) auto
    then have "10 ^ 27 \<le> r div 10" using div_le_mono [of "10 ^ 28" r 10] by simp
    then have "10 ^ 27 * 10 \<le> r div 10 * 10 ^ Suc k" using p by (intro mult_le_mono) auto
    moreover have "nat (f - e) = Suc k" using qf by simp
    ultimately show ?thesis using qf by simp
  qed
qed

lemma dec_add_lower:
  assumes x: "micro x" "0 \<le> cents x" and y: "micro y" "0 \<le> cents y"
  shows "micro (dec_add x y) \<and> 0 \<le> cents (dec_add x y) \<and> min (10 ^ 28) (cents x + cents y) \<le> cents (dec_add x y)"
proof (cases "cents x + cents y < 10 ^ 28")
  case True
  then have "\<bar>cents x + cents y\<bar> < 10 ^ 28" using x y by simp
  from dec_add_exact [OF x(1) y(1) this] show ?thesis using x y by simp
next
  case False
  obtain s c e where X: "x = DFin s c e" "- 8 \<le> e" using x by (cases x) auto
  obtain s' c' e' where Y: "y = DFin s' c' e'" "- 8 \<le> e'" using y by (cases y) auto
  define m where "m = min e e'"
  define a where "a = (if s then - int c else int c) * 10 ^ nat (e - m)"
  define b where "b = (if s' then - int c' else int c') * 10 ^ nat (e' - m)"
  have m: "- 8 \<le> m" "m \<le> e" "m \<le> e'" using X Y by (auto simp: m_def)
  have scale: "(10::int) ^ nat (f - m) * 10 ^ nat (m + 8) = 10 ^ nat (f + 8)" if "m \<le> f" for f
    using that m(1) by (simp flip: power_add nat_add_distrib)
  have ab: "(a + b) * 10 ^ nat (m + 8) = cents x + cents y"
    using scale [of e] scale [of e'] m X Y by (simp add: a_def b_def distrib_right mult.assoc)
  have "0 < (a + b) * 10 ^ nat (m + 8)" using ab False by simp
  then have pos: "0 < a + b" by (simp add: zero_less_mult_iff)
  define n where "n = nat (a + b)"
  have n: "a + b = int n" using pos by (simp add: n_def)
  obtain q f where qf: "round_coeff n m = (q, f)" by (cases "round_coeff n m")
  have sum: "dec_add x y = DFin False q f"
    using X Y pos qf by (simp add: Let_def flip: m_def a_def b_def n_def)
  have f: "m \<le> f \<and> 10 ^ 28 \<le> int q * 10 ^ nat (f + 8)"
  proof (cases "ndigits n \<le> 28")
    case True
    then have "q = n" "f = m" using qf by (auto simp: round_coeff_def DECIMAL_PREC_def)
    then show ?thesis using ab n False by simp
  next
    case big: False
    then have "10 ^ 28 \<le> n" using ndigits_gt [of 28 n] by simp
    then have r: "m \<le> f" "10 ^ 28 \<le> q * 10 ^ nat (f - m)" using round_coeff_lower [OF _ qf] by auto
    have "int (10 ^ 28) \<le> int (q * 10 ^ nat (f - m))" using r(2) by (simp only: of_nat_le_iff)
    then have "(10::int) ^ 28 \<le> int q * 10 ^ nat (f - m)" by simp
    also have "\<dots> \<le> int q * 10 ^ nat (f + 8)"
      using m(1) r(1) by (intro mult_left_mono power_increasing) auto
    finally show ?thesis using r(1) by simp
  qed
  then show ?thesis using sum m(1) False by (auto simp: sum)
qed

lemma dec_sum_lower:
  assumes "\<forall>x \<in> set xs. micro x \<and> 0 \<le> cents x"
  shows "micro (dec_sum xs) \<and> 0 \<le> cents (dec_sum xs) \<and> min (10 ^ 28) (sum_list (map cents xs)) \<le> cents (dec_sum xs)"
proof -
  have "micro a \<Longrightarrow> 0 \<le> cents a \<Longrightarrow>
    micro (foldl dec_add a xs) \<and> 0 \<le> cents (foldl dec_add a xs)
      \<and> min (10 ^ 28) (cents a + sum_list (map cents xs)) \<le> cents (foldl dec_add a xs)" for a
    using assms
  proof (induction xs arbitrary: a)
    case (Cons x xs)
    have step: "micro (dec_add a x) \<and> 0 \<le> cents (dec_add a x) \<and> min (10 ^ 28) (cents a + cents x) \<le> cents (dec_add a x)"
      using Cons.prems by (intro dec_add_lower) auto
    have nn: "0 \<le> sum_list (map cents xs)" using Cons.prems by (intro sum_list_nonneg) auto
    have "min (10 ^ 28) (cents (dec_add a x) + sum_list (map cents xs)) \<le> cents (foldl dec_add (dec_add a x) xs)"
      using Cons.IH [of "dec_add a x"] step Cons.prems by auto
    then show ?case using Cons.IH [of "dec_add a x"] step Cons.prems nn by (auto simp: min_def split: if_splits)
  qed simp
  from this [of dzero] show ?thesis by (simp add: dec_sum_def dzero_def)
qed

text \<open>
  The limit check of a reservation: when the rounded sum does not exceed the limit, the
  exact sum does not either.
\<close>

lemma limit_check_exact:
  assumes "\<forall>x \<in> set xs. micro x \<and> 0 \<le> cents x" and "micro a" and "0 \<le> cents a"
    and "micro m" and "cents m < 10 ^ 28" and "\<not> dlt m (dec_add (dec_sum xs) a)"
  shows "sum_list (map cents xs) + cents a \<le> cents m"
proof -
  have s: "micro (dec_sum xs)" "0 \<le> cents (dec_sum xs)"
    "min (10 ^ 28) (sum_list (map cents xs)) \<le> cents (dec_sum xs)"
    using dec_sum_lower [OF assms(1)] by auto
  have t: "micro (dec_add (dec_sum xs) a)"
    "min (10 ^ 28) (cents (dec_sum xs) + cents a) \<le> cents (dec_add (dec_sum xs) a)"
    using dec_add_lower [OF s(1,2) assms(2,3)] by auto
  have "cents (dec_add (dec_sum xs) a) \<le> cents m"
    using assms(6) dlt_cents [OF assms(4) t(1)] by simp
  then show ?thesis using s t assms(3,5) by (auto simp: min_def split: if_splits)
qed

end
