(* ===== verification/Canonical.thy ===== *)
theory Canonical
  imports Py_Decimal
begin

text \<open>
  \<open>faar/canonical.py\<close>: untrusted values, the shared amount parser, canonical JSON and
  the canonical hash.

  \<open>pyval\<close> is a value of an untrusted document: the JSON types plus decimals, aware and
  naive datetimes, enums, sets and values of any other type. A finite float is modelled
  by its shortest round-trip text (\<open>repr\<close>), which determines it. A character is a code
  point below 256. The cryptographic hash and MAC are parameters (\<open>crypto\<close>).
\<close>

section \<open>Untrusted values\<close>

datatype pyfloat = FNaN | FInf bool | FRepr string

datatype pykey = KStr string | KOther

datatype pyval =
    PNone
  | PBool bool
  | PInt int
  | PFloat pyfloat
  | PDec decimal
  | PStr string
  | PTime time
  | PNaive
  | PEnum string
  | PSeq "pyval list"
  | PSet "pyval list"
  | PDict "(pykey \<times> pyval) list"
  | POther

type_synonym payload = "(string \<times> pyval) list"

text \<open>\<open>d.get(k)\<close> and \<open>d.get(k, dflt)\<close> on a mapping with string keys; an absent key reads as None.\<close>

definition pget :: "payload \<Rightarrow> string \<Rightarrow> pyval" where
  "pget p k = (case map_of p k of None \<Rightarrow> PNone | Some v \<Rightarrow> v)"

definition pget_default :: "payload \<Rightarrow> string \<Rightarrow> pyval \<Rightarrow> pyval" where
  "pget_default p k dflt = (case map_of p k of None \<Rightarrow> dflt | Some v \<Rightarrow> v)"

definition has_key :: "payload \<Rightarrow> string \<Rightarrow> bool" where
  "has_key p k \<longleftrightarrow> k \<in> set (map fst p)"

text \<open>\<open>v in (None, "")\<close>.\<close>

definition none_or_empty :: "pyval \<Rightarrow> bool" where
  "none_or_empty v \<longleftrightarrow> v = PNone \<or> v = PStr [] \<or> v = PEnum []"

definition dict_of :: "payload \<Rightarrow> pyval" where
  "dict_of p = PDict (map (\<lambda>(k, v). (KStr k, v)) p)"

section \<open>The amount parser\<close>

text \<open>\<open>str(n)\<close> of an integer.\<close>

definition str_int :: "int \<Rightarrow> string" where
  "str_int n = (if n < 0 then ''-'' @ dec_digits (nat (- n)) else dec_digits (nat n))"

definition lstrip_minus :: "string \<Rightarrow> string" where
  "lstrip_minus s = dropWhile (\<lambda>c. c = CHR ''-'') s"

definition if_bounded :: "decimal \<Rightarrow> decimal option" where
  "if_bounded d = (if is_finite d \<and> canonically_bounded d then Some d else None)"

fun parse_bounded_decimal :: "pyval \<Rightarrow> decimal option" where
  "parse_bounded_decimal PNone = None"
| "parse_bounded_decimal (PBool b) = None"
| "parse_bounded_decimal (PStr s) =
     (if money_string s then if_bounded (dec_of_money False s) else None)"
| "parse_bounded_decimal (PEnum s) =
     (if money_string s then if_bounded (dec_of_money False s) else None)"
| "parse_bounded_decimal (PInt n) =
     (if \<bar>n\<bar> \<ge> 2 ^ 256 then None
      else if money_string (lstrip_minus (str_int n)) then if_bounded (DFin (n < 0) (nat \<bar>n\<bar>) 0)
      else None)"
| "parse_bounded_decimal (PFloat (FRepr t)) =
     (if money_string (lstrip_minus t) then if_bounded (dec_of_money (starts_with ''-'' t) (lstrip_minus t))
      else None)"
| "parse_bounded_decimal (PFloat FNaN) = None"
| "parse_bounded_decimal (PFloat (FInf s)) = None"
| "parse_bounded_decimal (PDec d) = if_bounded d"
| "parse_bounded_decimal v = None"

lemma if_bounded_Some: "if_bounded d = Some d' \<Longrightarrow> d' = d \<and> is_finite d \<and> canonically_bounded d"
  by (auto simp: if_bounded_def split: if_splits)

lemma parse_bounded:
  "parse_bounded_decimal v = Some d \<Longrightarrow> is_finite d \<and> canonically_bounded d"
  by (induction v rule: parse_bounded_decimal.induct) (auto split: if_splits dest!: if_bounded_Some)

lemma money_bounded:
  assumes "money_string s"
  shows "canonically_bounded (dec_of_money n s)"
proof -
  let ?c = "digits_val (before_dot s @ after_dot s)"
  have "ndigits ?c \<le> 26" using money_coeff_bound [OF assms] by (simp add: ndigits_le_iff)
  moreover have "length (after_dot s) \<le> 8" by (rule money_string_parts(3) [OF assms])
  moreover have "0 < ndigits ?c" by simp
  ultimately show ?thesis
    by (auto simp: canonically_bounded_def canonical_decimal_def dec_of_money_def
        MAX_DECIMAL_DIGITS_def MAX_DECIMAL_ABS_EXPONENT_def adjusted_def)
qed

lemma parse_money_string: "parse_bounded_decimal (PStr s) = (if money_string s then Some (dec_of_money False s) else None)"
  by (simp add: if_bounded_def money_bounded) (simp add: dec_of_money_def)

section \<open>Canonical JSON\<close>

datatype json =
    JNull
  | JBool bool
  | JInt int
  | JFloat string
  | JStr string
  | JArr "json list"
  | JObj "(string \<times> json) list"

text \<open>\<open>datetime.isoformat()\<close> of an instant at UTC, by the proleptic Gregorian calendar.\<close>

fun fixed_digits :: "nat \<Rightarrow> int \<Rightarrow> string" where
  "fixed_digits 0 n = []"
| "fixed_digits (Suc w) n = fixed_digits w (n div 10) @ [char_of (48 + n mod 10)]"

definition civil_from_days :: "int \<Rightarrow> int \<times> int \<times> int" where
  "civil_from_days z0 =
     (let z = z0 + 719468; era = z div 146097; doe = z - era * 146097;
          yoe = (doe - doe div 1460 + doe div 36524 - doe div 146096) div 365;
          doy = doe - (365 * yoe + yoe div 4 - yoe div 100);
          mp = (5 * doy + 2) div 153; d = doy - (153 * mp + 2) div 5 + 1;
          m = (if mp < 10 then mp + 3 else mp - 9)
      in (yoe + era * 400 + (if m \<le> 2 then 1 else 0), m, d))"

definition date_isoformat :: "time \<Rightarrow> string" where
  "date_isoformat t =
     (let (y, m, d) = civil_from_days (t div 86400000000)
      in fixed_digits 4 y @ ''-'' @ fixed_digits 2 m @ ''-'' @ fixed_digits 2 d)"

definition isoformat :: "time \<Rightarrow> string" where
  "isoformat t =
     (let us = t mod 86400000000; s = us div 1000000; f = us mod 1000000
      in date_isoformat t @ ''T'' @ fixed_digits 2 (s div 3600) @ '':'' @
         fixed_digits 2 (s div 60 mod 60) @ '':'' @ fixed_digits 2 (s mod 60) @
         (if f = 0 then [] else ''.'' @ fixed_digits 6 f) @ ''+00:00'')"

text \<open>\<open>json.dumps\<close>: string escapes with and without \<open>ensure_ascii\<close>, and the separators.\<close>

definition hex_digit :: "int \<Rightarrow> char" where
  "hex_digit n = (if n < 10 then char_of (48 + n) else char_of (87 + n))"

definition json_char :: "bool \<Rightarrow> char \<Rightarrow> string" where
  "json_char ascii c =
     (let n = of_char c :: int in
      if n = 34 then [CHR 0x5C, CHR 0x22]
      else if n = 92 then [CHR 0x5C, CHR 0x5C]
      else if n = 10 then [CHR 0x5C, CHR ''n'']
      else if n = 13 then [CHR 0x5C, CHR ''r'']
      else if n = 9 then [CHR 0x5C, CHR ''t'']
      else if n = 12 then [CHR 0x5C, CHR ''f'']
      else if n = 8 then [CHR 0x5C, CHR ''b'']
      else if n < 32 \<or> (ascii \<and> 126 < n)
        then [CHR 0x5C, CHR ''u'', CHR ''0'', CHR ''0'', hex_digit (n div 16), hex_digit (n mod 16)]
      else [c])"

definition json_string :: "bool \<Rightarrow> string \<Rightarrow> string" where
  "json_string ascii s = [CHR 0x22] @ concat (map (json_char ascii) s) @ [CHR 0x22]"

definition join_with :: "string \<Rightarrow> string list \<Rightarrow> string" where
  "join_with sep xs = (case xs of [] \<Rightarrow> [] | y # ys \<Rightarrow> y @ concat (map (\<lambda>z. sep @ z) ys))"

fun json_dumps :: "bool \<Rightarrow> string \<Rightarrow> string \<Rightarrow> json \<Rightarrow> string" where
  "json_dumps a is ks JNull = ''null''"
| "json_dumps a is ks (JBool b) = (if b then ''true'' else ''false'')"
| "json_dumps a is ks (JInt n) = str_int n"
| "json_dumps a is ks (JFloat r) = r"
| "json_dumps a is ks (JStr s) = json_string a s"
| "json_dumps a is ks (JArr xs) = ''['' @ join_with is (map (json_dumps a is ks) xs) @ '']''"
| "json_dumps a is ks (JObj kvs) =
     ''{'' @ join_with is (map (\<lambda>(k, t). json_string a k @ ks @ t)
        (sort_by fst (map (\<lambda>(k, v). (k, json_dumps a is ks v)) kvs))) @ ''}''"

text \<open>The sort key of set members: \<open>json.dumps(x, sort_keys=True)\<close> with the default separators.\<close>

definition set_key :: "json \<Rightarrow> string" where
  "set_key j = json_dumps True '', '' '': '' j"

definition all_ok :: "(exn + 'a) list \<Rightarrow> exn + 'a list" where
  "all_ok rs = foldr (\<lambda>r acc. case r of Inl e \<Rightarrow> Inl e | Inr x \<Rightarrow> map_sum id (\<lambda>xs. x # xs) acc) rs (Inr [])"

definition keyed :: "pykey \<Rightarrow> exn + json \<Rightarrow> exn + string \<times> json" where
  "keyed k r = (case k of KOther \<Rightarrow> Inl ValueError | KStr s \<Rightarrow> map_sum id (Pair s) r)"

fun canonicalize :: "pyval \<Rightarrow> exn + json" where
  "canonicalize PNone = Inr JNull"
| "canonicalize (PBool b) = Inr (JBool b)"
| "canonicalize (PInt n) = Inr (JInt n)"
| "canonicalize (PFloat (FRepr r)) = Inr (JFloat r)"
| "canonicalize (PFloat FNaN) = Inl ValueError"
| "canonicalize (PFloat (FInf s)) = Inl ValueError"
| "canonicalize (PDec d) = map_sum id JStr (canonical_decimal d)"
| "canonicalize (PStr s) = Inr (JStr s)"
| "canonicalize (PEnum s) = Inr (JStr s)"
| "canonicalize (PTime t) = Inr (JStr (isoformat t))"
| "canonicalize PNaive = Inl ValueError"
| "canonicalize (PSeq xs) = map_sum id JArr (all_ok (map canonicalize xs))"
| "canonicalize (PSet xs) = map_sum id (\<lambda>js. JArr (sort_by set_key js)) (all_ok (map canonicalize xs))"
| "canonicalize (PDict kvs) =
     (if KOther \<in> set (map fst kvs) then Inl ValueError
      else map_sum id (\<lambda>js. JObj (sort_by fst js)) (all_ok (map (\<lambda>(k, v). keyed k (canonicalize v)) kvs)))"
| "canonicalize POther = Inl TypeError"

definition canonical_json :: "pyval \<Rightarrow> exn + string" where
  "canonical_json v = map_sum id (json_dumps False '','' '':'') (canonicalize v)"

record crypto =
  sha256 :: "string \<Rightarrow> string"
  hmac_sha256 :: "string \<Rightarrow> string \<Rightarrow> string"

definition canonical_hash :: "crypto \<Rightarrow> pyval \<Rightarrow> exn + string" where
  "canonical_hash L v = map_sum id (sha256 L) (canonical_json v)"

end
