(* ===== verification/Models.thy ===== *)
theory Models
  imports Canonical
begin

text \<open>
  \<open>faar/models.py\<close>: the typed domain model and its construction-time validation.

  Enums are datatypes, frozen dataclasses are records (their fields carry a short prefix
  per record), and every \<open>__post_init__\<close> is a function \<open>\<dots>_init\<close> that returns the
  validated object or raises. The type tests of the source (\<open>isinstance\<close>) are the types
  of the fields here; every other check is written out. \<open>pv_\<dots>\<close> is the mapping that
  canonicalization sees for a dataclass: its field names and values.

  The main results: \<open>deep_freeze\<close> copies a value unchanged and only if its depth, node
  count and size are inside the bounds, and a grant that passes its constructor is
  bounded in amount, turnover, velocity, scope and slippage.
\<close>

section \<open>Bounds\<close>

definition MAX_CANONICAL_DEPTH :: int where "MAX_CANONICAL_DEPTH = 24"
definition MAX_CANONICAL_CONTAINER_ITEMS :: nat where "MAX_CANONICAL_CONTAINER_ITEMS = 256"
definition MAX_CANONICAL_STRING_CHARS :: int where "MAX_CANONICAL_STRING_CHARS = 8192"
definition MAX_CANONICAL_TOTAL_NODES :: int where "MAX_CANONICAL_TOTAL_NODES = 10000"
definition MAX_CANONICAL_TOTAL_BYTES :: int where "MAX_CANONICAL_TOTAL_BYTES = 65536"
definition MAX_EVIDENCE_BYTES :: int where "MAX_EVIDENCE_BYTES = 65536"
definition MAX_IDENTIFIER_CHARS :: nat where "MAX_IDENTIFIER_CHARS = 128"
definition MIN_INTENT_ID_CHARS :: nat where "MIN_INTENT_ID_CHARS = 16"
definition MAX_SAFE_INT :: int where "MAX_SAFE_INT = 2 ^ 63 - 1"
definition MAX_REASON_CODES :: nat where "MAX_REASON_CODES = 64"
definition MAX_REASON_CODE_CHARS :: nat where "MAX_REASON_CODE_CHARS = 256"
definition MAX_LIMIT_SECONDS :: int where "MAX_LIMIT_SECONDS = 366 * 86400"
definition MAX_CLOCK_SKEW_SECONDS :: int where "MAX_CLOCK_SKEW_SECONDS = 3600"

definition require :: "bool \<Rightarrow> exn + 'a \<Rightarrow> exn + 'a" where
  "require ok k = (if ok then k else Inl ValueError)"

lemma require_Inr [simp]: "require ok k = Inr x \<longleftrightarrow> ok \<and> k = Inr x"
  by (simp add: require_def)

definition require_identifier :: "nat \<Rightarrow> string \<Rightarrow> bool" where
  "require_identifier minimum v \<longleftrightarrow> minimum \<le> length v \<and> length v \<le> MAX_IDENTIFIER_CHARS"

definition require_int :: "int option \<Rightarrow> int \<Rightarrow> int \<Rightarrow> bool" where
  "require_int minimum maximum v \<longleftrightarrow> (\<forall>m. minimum = Some m \<longrightarrow> m \<le> v) \<and> v \<le> maximum"

lemma require_int_code [code]:
  "require_int minimum maximum v = ((case minimum of None \<Rightarrow> True | Some m \<Rightarrow> m \<le> v) \<and> v \<le> maximum)"
  by (simp add: require_int_def split: option.splits)

definition finite_nonnegative_decimal :: "decimal option \<Rightarrow> bool" where
  "finite_nonnegative_decimal v =
     (case v of None \<Rightarrow> True | Some d \<Rightarrow> is_finite d \<and> \<not> dlt d dzero)"

section \<open>Deep freezing of untrusted data\<close>

definition utf8_bytes :: "string \<Rightarrow> int" where
  "utf8_bytes s = sum_list (map (\<lambda>c. if (of_char c :: int) < 128 then 1 else 2) s)"

type_synonym budget = "int \<times> int"

text \<open>One scalar string: the length bound, then the byte budget.\<close>

definition spend_string :: "string \<Rightarrow> budget \<Rightarrow> exn + budget" where
  "spend_string s bud =
     (if int (length s) > MAX_CANONICAL_STRING_CHARS then Inl ValueError
      else let b = snd bud - utf8_bytes s in if b < 0 then Inl ValueError else Inr (fst bud, b))"

fun deep_freeze :: "int \<Rightarrow> pyval \<Rightarrow> budget \<Rightarrow> exn + pyval \<times> budget"
  and freeze_seq :: "int \<Rightarrow> pyval list \<Rightarrow> budget \<Rightarrow> exn + pyval list \<times> budget"
  and freeze_items :: "int \<Rightarrow> (pykey \<times> pyval) list \<Rightarrow> budget \<Rightarrow> exn + (pykey \<times> pyval) list \<times> budget" where
  "deep_freeze depth v budget =
     (let bud = (fst budget - 1, snd budget) in
      if fst bud < 0 then Inl ValueError
      else if depth > MAX_CANONICAL_DEPTH then Inl ValueError
      else (case v of
        PDict kvs \<Rightarrow>
          if length kvs > MAX_CANONICAL_CONTAINER_ITEMS then Inl ValueError
          else map_sum id (\<lambda>(xs, b). (PDict xs, b)) (freeze_items (depth + 1) kvs bud)
      | PSeq xs \<Rightarrow>
          if length xs > MAX_CANONICAL_CONTAINER_ITEMS then Inl ValueError
          else map_sum id (\<lambda>(ys, b). (PSeq ys, b)) (freeze_seq (depth + 1) xs bud)
      | PSet xs \<Rightarrow>
          if length xs > MAX_CANONICAL_CONTAINER_ITEMS then Inl ValueError
          else map_sum id (\<lambda>(ys, b). (PSet ys, b)) (freeze_seq (depth + 1) xs bud)
      | PDec d \<Rightarrow> if is_finite d then Inr (v, bud) else Inl ValueError
      | PFloat f \<Rightarrow> (case f of FRepr r \<Rightarrow> Inr (v, bud) | FNaN \<Rightarrow> Inl ValueError | FInf s \<Rightarrow> Inl ValueError)
      | PStr s \<Rightarrow> map_sum id (Pair v) (spend_string s bud)
      | PEnum s \<Rightarrow> map_sum id (Pair v) (spend_string s bud)
      | PTime t \<Rightarrow> Inr (v, bud)
      | PNaive \<Rightarrow> Inl ValueError
      | PBool b \<Rightarrow> Inr (v, bud)
      | PNone \<Rightarrow> Inr (v, bud)
      | PInt n \<Rightarrow> if \<bar>n\<bar> \<ge> 2 ^ 256 then Inl ValueError else Inr (v, bud)
      | POther \<Rightarrow> Inl ValueError))"
| "freeze_seq depth [] bud = Inr ([], bud)"
| "freeze_seq depth (x # xs) bud =
     (case deep_freeze depth x bud of Inl e \<Rightarrow> Inl e
      | Inr (y, b) \<Rightarrow> map_sum id (\<lambda>(ys, b'). (y # ys, b')) (freeze_seq depth xs b))"
| "freeze_items depth [] bud = Inr ([], bud)"
| "freeze_items depth (kx # xs) bud =
     (case fst kx of KOther \<Rightarrow> Inl ValueError
      | KStr s \<Rightarrow>
        (case spend_string s bud of Inl e \<Rightarrow> Inl e
         | Inr b0 \<Rightarrow>
           (case deep_freeze depth (snd kx) b0 of Inl e \<Rightarrow> Inl e
            | Inr (y, b) \<Rightarrow> map_sum id (\<lambda>(ys, b'). ((KStr s, y) # ys, b')) (freeze_items depth xs b))))"

declare deep_freeze.simps [simp del]

definition freeze :: "pyval \<Rightarrow> exn + pyval" where
  "freeze v = map_sum id fst (deep_freeze 0 v (MAX_CANONICAL_TOTAL_NODES, MAX_CANONICAL_TOTAL_BYTES))"

text \<open>A mapping argument of a constructor: it must be a mapping, and its frozen copy is kept.\<close>

definition string_items :: "(pykey \<times> pyval) list \<Rightarrow> payload" where
  "string_items kvs = List.map_filter (\<lambda>(k, v). case k of KStr s \<Rightarrow> Some (s, v) | KOther \<Rightarrow> None) kvs"

definition freeze_mapping :: "pyval \<Rightarrow> exn + payload" where
  "freeze_mapping v = (case v of
     PDict kvs \<Rightarrow> (case freeze v of Inl e \<Rightarrow> Inl e | Inr (PDict xs) \<Rightarrow> Inr (string_items xs) | Inr _ \<Rightarrow> Inl ValueError)
   | _ \<Rightarrow> Inl ValueError)"

section \<open>Enums\<close>

datatype authority_posture = P_ADVISE | P_EXECUTE | P_DEFER | P_STOP

datatype authority_primitive =
    EXECUTE_ACTION | GIVE_FACT | GIVE_RECOMMENDATION | ASK_CLARIFYING_QUESTION | STATE_BLOCKER
  | RECOMMEND_NEAREST_SAFE_ALTERNATIVE | COMPARE_OPTIONS | MAKE_PLAN | REFUSE_AND_REDIRECT | SUMMARIZE

datatype economic_primitive = PAY | SWAP | BUY | SELL | PLACE_ORDER | CANCEL_ORDER

datatype grant_status = GS_ACTIVE | GS_PAUSED | GS_REVOKED

datatype verdict = V_ALLOW | V_DENY | V_DEFER | V_STOP

datatype intent_state =
    S_PROPOSED | S_DENIED | S_DEFERRED | S_STOPPED | S_AUTHORIZED | S_RESERVED | S_SUBMITTED
  | S_UNKNOWN | S_RECONCILING | S_CONFIRMED | S_FINALIZED | S_FAILED_SAFE

datatype settlement_status =
    ST_NONE | ST_UNKNOWN | ST_CONFIRMED | ST_PARTIALLY_FILLED | ST_FINALIZED | ST_CANCELLED
  | ST_CONTRADICTORY

datatype attestation_kind = K_AUTHORITY | K_RISK | K_TASK

datatype signature_algorithm = HMAC_SHA256 | ED25519

datatype outcome_verdict = O_MET | O_NOT_MET | O_UNKNOWN

definition slippage_bound_primitives :: "economic_primitive list" where
  "slippage_bound_primitives = [SWAP, BUY, SELL, PLACE_ORDER]"

definition monetary_primitives :: "economic_primitive list" where
  "monetary_primitives = [PAY, SWAP, BUY, SELL, PLACE_ORDER]"

definition target_bound_primitives :: "economic_primitive list" where
  "target_bound_primitives = [PAY, SWAP]"

definition is_monetary :: "economic_primitive \<Rightarrow> bool" where
  "is_monetary p \<longleftrightarrow> p \<in> set monetary_primitives"

lemma is_monetary_iff: "is_monetary p \<longleftrightarrow> p \<noteq> CANCEL_ORDER"
  by (cases p) (simp_all add: is_monetary_def monetary_primitives_def)

text \<open>The string values of the enums.\<close>

fun posture_str :: "authority_posture \<Rightarrow> string" where
  "posture_str P_ADVISE = ''ADVISE''"
| "posture_str P_EXECUTE = ''EXECUTE''"
| "posture_str P_DEFER = ''DEFER''"
| "posture_str P_STOP = ''STOP''"

fun authority_primitive_str :: "authority_primitive \<Rightarrow> string" where
  "authority_primitive_str EXECUTE_ACTION = ''EXECUTE_ACTION''"
| "authority_primitive_str GIVE_FACT = ''GIVE_FACT''"
| "authority_primitive_str GIVE_RECOMMENDATION = ''GIVE_RECOMMENDATION''"
| "authority_primitive_str ASK_CLARIFYING_QUESTION = ''ASK_CLARIFYING_QUESTION''"
| "authority_primitive_str STATE_BLOCKER = ''STATE_BLOCKER''"
| "authority_primitive_str RECOMMEND_NEAREST_SAFE_ALTERNATIVE = ''RECOMMEND_NEAREST_SAFE_ALTERNATIVE''"
| "authority_primitive_str COMPARE_OPTIONS = ''COMPARE_OPTIONS''"
| "authority_primitive_str MAKE_PLAN = ''MAKE_PLAN''"
| "authority_primitive_str REFUSE_AND_REDIRECT = ''REFUSE_AND_REDIRECT''"
| "authority_primitive_str SUMMARIZE = ''SUMMARIZE''"

fun primitive_str :: "economic_primitive \<Rightarrow> string" where
  "primitive_str PAY = ''PAY''"
| "primitive_str SWAP = ''SWAP''"
| "primitive_str BUY = ''BUY''"
| "primitive_str SELL = ''SELL''"
| "primitive_str PLACE_ORDER = ''PLACE_ORDER''"
| "primitive_str CANCEL_ORDER = ''CANCEL_ORDER''"

fun grant_status_str :: "grant_status \<Rightarrow> string" where
  "grant_status_str GS_ACTIVE = ''ACTIVE''"
| "grant_status_str GS_PAUSED = ''PAUSED''"
| "grant_status_str GS_REVOKED = ''REVOKED''"

fun verdict_str :: "verdict \<Rightarrow> string" where
  "verdict_str V_ALLOW = ''ALLOW''"
| "verdict_str V_DENY = ''DENY''"
| "verdict_str V_DEFER = ''DEFER''"
| "verdict_str V_STOP = ''STOP''"

fun state_str :: "intent_state \<Rightarrow> string" where
  "state_str S_PROPOSED = ''PROPOSED''"
| "state_str S_DENIED = ''DENIED''"
| "state_str S_DEFERRED = ''DEFERRED''"
| "state_str S_STOPPED = ''STOPPED''"
| "state_str S_AUTHORIZED = ''AUTHORIZED''"
| "state_str S_RESERVED = ''RESERVED''"
| "state_str S_SUBMITTED = ''SUBMITTED''"
| "state_str S_UNKNOWN = ''UNKNOWN''"
| "state_str S_RECONCILING = ''RECONCILING''"
| "state_str S_CONFIRMED = ''CONFIRMED''"
| "state_str S_FINALIZED = ''FINALIZED''"
| "state_str S_FAILED_SAFE = ''FAILED_SAFE''"

fun settlement_str :: "settlement_status \<Rightarrow> string" where
  "settlement_str ST_NONE = ''NONE''"
| "settlement_str ST_UNKNOWN = ''UNKNOWN''"
| "settlement_str ST_CONFIRMED = ''CONFIRMED''"
| "settlement_str ST_PARTIALLY_FILLED = ''PARTIALLY_FILLED''"
| "settlement_str ST_FINALIZED = ''FINALIZED''"
| "settlement_str ST_CANCELLED = ''CANCELLED''"
| "settlement_str ST_CONTRADICTORY = ''CONTRADICTORY''"

fun kind_str :: "attestation_kind \<Rightarrow> string" where
  "kind_str K_AUTHORITY = ''AUTHORITY''"
| "kind_str K_RISK = ''RISK''"
| "kind_str K_TASK = ''TASK''"

fun algorithm_str :: "signature_algorithm \<Rightarrow> string" where
  "algorithm_str HMAC_SHA256 = ''HMAC_SHA256''"
| "algorithm_str ED25519 = ''ED25519''"

section \<open>Authority decision, limits and grant\<close>

record authority_decision =
  ad_posture :: authority_posture
  ad_primitive :: authority_primitive
  ad_reason_codes :: "string list"
  ad_source :: string

definition authority_decision_init :: "authority_decision \<Rightarrow> exn + authority_decision" where
  "authority_decision_init a =
     require (length (ad_reason_codes a) \<le> MAX_REASON_CODES)
     (require (\<forall>c \<in> set (ad_reason_codes a). length c \<le> MAX_REASON_CODE_CHARS) (Inr a))"

record capability_limits =
  max_order_usd :: "decimal option"
  max_position_usd :: "decimal option"
  max_daily_turnover_usd :: "decimal option"
  max_daily_loss_usd :: "decimal option"
  max_slippage_bps :: "int option"
  max_price_impact_bps :: "int option"
  max_market_data_age_seconds :: "int option"
  max_risk_snapshot_age_seconds :: "int option"
  max_intent_ttl_seconds :: "int option"
  max_clock_skew_seconds :: int
  max_actions_per_window :: "int option"
  action_window_seconds :: "int option"
  max_submission_attempts :: int

definition opt_int :: "int option \<Rightarrow> int option \<Rightarrow> int \<Rightarrow> bool" where
  "opt_int v minimum maximum = (case v of None \<Rightarrow> True | Some n \<Rightarrow> require_int minimum maximum n)"

definition capability_limits_init :: "capability_limits \<Rightarrow> exn + capability_limits" where
  "capability_limits_init l =
     require (list_all finite_nonnegative_decimal
       [max_order_usd l, max_position_usd l, max_daily_turnover_usd l, max_daily_loss_usd l])
     (require (list_all (\<lambda>v. opt_int v (Some 0) MAX_SAFE_INT)
       [max_slippage_bps l, max_price_impact_bps l, max_actions_per_window l])
     (require (list_all (\<lambda>v. opt_int v (Some 0) MAX_LIMIT_SECONDS)
       [max_market_data_age_seconds l, max_risk_snapshot_age_seconds l, max_intent_ttl_seconds l])
     (require (require_int (Some 0) MAX_CLOCK_SKEW_SECONDS (max_clock_skew_seconds l))
     (require (opt_int (action_window_seconds l) (Some 1) MAX_LIMIT_SECONDS)
     (require (\<not> (max_actions_per_window l \<noteq> None \<and> action_window_seconds l = None))
     (require (require_int (Some 1) MAX_SAFE_INT (max_submission_attempts l))
     (Inr l)))))))"

record capability_grant =
  g_principal_id :: string
  g_grant_id :: string
  g_version :: int
  g_actor_id :: string
  g_status :: grant_status
  g_allowed_primitives :: "economic_primitive list"
  g_allowed_venues :: "string list"
  g_allowed_assets :: "string list"
  g_allowed_targets :: "string list"
  g_denied_targets :: "string list"
  g_valid_until :: "time option"
  g_limits :: capability_limits

text \<open>\<open>limit is None or limit <= 0\<close> on a decimal limit.\<close>

definition not_positive :: "decimal option \<Rightarrow> bool" where
  "not_positive v = (case v of None \<Rightarrow> True | Some d \<Rightarrow> dle d dzero)"

definition capability_grant_init :: "capability_grant \<Rightarrow> exn + capability_grant" where
  "capability_grant_init g =
     (let l = g_limits g; ps = set (g_allowed_primitives g);
          monetary = ps \<inter> set monetary_primitives \<noteq> {} in
     require (list_all (require_identifier 1) [g_principal_id g, g_grant_id g, g_actor_id g])
     (require (require_int (Some 1) MAX_SAFE_INT (g_version g))
     (require (g_allowed_primitives g \<noteq> [])
     (require (g_allowed_venues g \<noteq> [])
     (require (\<not> (monetary \<and> not_positive (max_order_usd l)))
     (require (\<not> (monetary \<and> not_positive (max_daily_turnover_usd l)))
     (require (\<not> (monetary \<and> g_allowed_assets g = []))
     (require (\<not> (ps \<inter> set target_bound_primitives \<noteq> {} \<and> g_allowed_targets g = []))
     (require (\<not> (max_actions_per_window l = None \<or> action_window_seconds l = None))
     (require (\<not> (case max_actions_per_window l of None \<Rightarrow> True | Some n \<Rightarrow> n \<le> 0))
     (require (\<not> (ps \<inter> set slippage_bound_primitives \<noteq> {} \<and> max_slippage_bps l = None))
     (require (set (g_allowed_targets g) \<inter> set (g_denied_targets g) = {})
     (Inr g)))))))))))))"

section \<open>Intent and execution request\<close>

record intent =
  i_principal_id :: string
  i_intent_id :: string
  i_actor_id :: string
  i_grant_id :: string
  i_grant_version :: int
  i_primitive :: economic_primitive
  i_venue :: string
  i_created_at :: time
  i_expires_at :: time
  i_payload :: payload
  i_metadata :: payload
  i_schema_version :: string

text \<open>
  The constructor receives the raw payload and metadata; the record keeps their frozen
  copies.
\<close>

definition intent_init :: "intent \<Rightarrow> pyval \<Rightarrow> pyval \<Rightarrow> exn + intent" where
  "intent_init i payload metadata =
     (case freeze_mapping payload of Inl e \<Rightarrow> Inl e | Inr p \<Rightarrow>
      (case freeze_mapping metadata of Inl e \<Rightarrow> Inl e | Inr m \<Rightarrow>
        require (list_all (require_identifier 1) [i_principal_id i, i_actor_id i, i_grant_id i, i_venue i])
        (require (require_identifier MIN_INTENT_ID_CHARS (i_intent_id i))
        (require (i_schema_version i = ''0.3'')
        (require (require_int (Some 1) MAX_SAFE_INT (i_grant_version i))
        (require (\<not> i_expires_at i \<le> i_created_at i)
        (Inr (i\<lparr>i_payload := p, i_metadata := m\<rparr>))))))))"

record execution_request =
  rq_principal_id :: string
  rq_intent_id :: string
  rq_primitive :: economic_primitive
  rq_venue :: string
  rq_payload :: payload

text \<open>
  \<open>ExecutionRequest.from_intent\<close>: the projection handed to an adapter. The constructor
  checks it repeats are those the intent already passed.
\<close>

definition from_intent :: "intent \<Rightarrow> execution_request" where
  "from_intent i =
     \<lparr>rq_principal_id = i_principal_id i, rq_intent_id = i_intent_id i, rq_primitive = i_primitive i,
      rq_venue = i_venue i, rq_payload = i_payload i\<rparr>"

text \<open>\<open>payload.get("amount_usd", payload.get("notional_usd"))\<close>.\<close>

definition amount_raw :: "payload \<Rightarrow> pyval" where
  "amount_raw p = pget_default p ''amount_usd'' (pget p ''notional_usd'')"

section \<open>Permits\<close>

record execution_permit =
  pm_permit_id :: string
  pm_principal_id :: string
  pm_intent_id :: string
  pm_grant_id :: string
  pm_grant_version :: int
  pm_grant_hash :: string
  pm_request_hash :: string
  pm_authority_attestation_hash :: string
  pm_risk_attestation_hash :: string
  pm_grant_epoch :: int
  pm_fence_token :: int
  pm_max_amount_usd :: "decimal option"
  pm_issued_at :: time
  pm_expires_at :: time

definition execution_permit_init :: "execution_permit \<Rightarrow> exn + execution_permit" where
  "execution_permit_init p =
     require (list_all (require_identifier 1) [pm_permit_id p, pm_principal_id p, pm_grant_id p])
     (require (require_identifier MIN_INTENT_ID_CHARS (pm_intent_id p))
     (require (list_all (\<lambda>h. h \<noteq> [])
        [pm_grant_hash p, pm_request_hash p, pm_authority_attestation_hash p, pm_risk_attestation_hash p])
     (require (list_all (require_int (Some 1) MAX_SAFE_INT) [pm_grant_version p, pm_grant_epoch p, pm_fence_token p])
     (require (case pm_max_amount_usd p of None \<Rightarrow> True
               | Some d \<Rightarrow> (case parse_bounded_decimal (PDec d) of None \<Rightarrow> False | Some b \<Rightarrow> \<not> dle b dzero))
     (require (\<not> pm_expires_at p \<le> pm_issued_at p)
     (Inr p))))))"

record signed_permit =
  sp_permit :: execution_permit
  sp_signer_id :: string
  sp_algorithm :: signature_algorithm
  sp_signature :: string

definition signed_permit_init :: "signed_permit \<Rightarrow> exn + signed_permit" where
  "signed_permit_init s =
     require (require_identifier 1 (sp_signer_id s)) (require (sp_signature s \<noteq> []) (Inr s))"

section \<open>Risk snapshot, decision, key validity\<close>

record risk_snapshot =
  rs_observed_at :: time
  rs_state_version :: int
  rs_scope :: string
  rs_position_after_usd :: "decimal option"
  rs_daily_turnover_after_usd :: "decimal option"
  rs_daily_loss_usd :: "decimal option"
  rs_market_data_age_seconds :: "int option"
  rs_requested_slippage_bps :: "int option"
  rs_price_impact_bps :: "int option"
  rs_actions_in_window :: int
  rs_circuit_breaker_active :: bool
  rs_data_complete :: bool
  rs_source_count :: int
  rs_sources_agree :: bool

definition risk_snapshot_init :: "risk_snapshot \<Rightarrow> exn + risk_snapshot" where
  "risk_snapshot_init r =
     require (require_int (Some 1) MAX_SAFE_INT (rs_state_version r))
     (require (rs_scope r \<noteq> [])
     (require (list_all (\<lambda>v. opt_int v None MAX_SAFE_INT)
        [rs_market_data_age_seconds r, rs_requested_slippage_bps r, rs_price_impact_bps r])
     (require (require_int (Some 0) MAX_SAFE_INT (rs_actions_in_window r))
     (require (require_int (Some 0) MAX_SAFE_INT (rs_source_count r))
     (Inr r)))))"

record decision =
  d_verdict :: verdict
  d_reason_codes :: "string list"
  d_layer :: string

record key_validity =
  kv_not_before :: "time option"
  kv_not_after :: "time option"
  kv_revoked :: bool

definition key_validity_init :: "key_validity \<Rightarrow> exn + key_validity" where
  "key_validity_init k =
     require (\<not> (case (kv_not_before k, kv_not_after k) of (Some b, Some a) \<Rightarrow> a \<le> b | _ \<Rightarrow> False)) (Inr k)"

definition rejection :: "key_validity \<Rightarrow> time \<Rightarrow> string option" where
  "rejection k issued_at =
     (if kv_revoked k then Some ''KEY_REVOKED''
      else if (case kv_not_before k of None \<Rightarrow> False | Some b \<Rightarrow> issued_at < b) then Some ''KEY_NOT_YET_VALID''
      else if (case kv_not_after k of None \<Rightarrow> False | Some a \<Rightarrow> issued_at > a) then Some ''KEY_EXPIRED''
      else None)"

record attestation =
  at_kind :: attestation_kind
  at_key_id :: string
  at_algorithm :: signature_algorithm
  at_subject_hash :: string
  at_intent_hash :: string
  at_issued_at :: time
  at_expires_at :: time
  at_signature :: string

definition attestation_init :: "attestation \<Rightarrow> exn + attestation" where
  "attestation_init a =
     require (require_identifier 1 (at_key_id a))
     (require (list_all (\<lambda>s. s \<noteq> []) [at_subject_hash a, at_intent_hash a, at_signature a])
     (require (\<not> at_expires_at a \<le> at_issued_at a) (Inr a)))"

section \<open>Settlement and outcome records\<close>

record settlement_record =
  st_status :: settlement_status
  st_effect_id :: "string option"
  st_amount_usd :: "decimal option"
  st_evidence :: payload
  st_authoritative :: bool
  st_verified_request_hash :: "string option"

definition bounded_amount :: "decimal option \<Rightarrow> exn + decimal option" where
  "bounded_amount v = (case v of None \<Rightarrow> Inr None
     | Some d \<Rightarrow> if \<not> is_finite d then Inl ValueError
                 else (case parse_bounded_decimal (PDec d) of None \<Rightarrow> Inl ValueError | Some b \<Rightarrow> Inr (Some b)))"

definition require_bounded_evidence :: "payload \<Rightarrow> bool" where
  "require_bounded_evidence ev =
     (case canonical_json (dict_of ev) of Inl e \<Rightarrow> False | Inr s \<Rightarrow> utf8_bytes s \<le> MAX_EVIDENCE_BYTES)"

definition settlement_record_init :: "settlement_record \<Rightarrow> pyval \<Rightarrow> exn + settlement_record" where
  "settlement_record_init s evidence =
     require (case st_effect_id s of None \<Rightarrow> True | Some e \<Rightarrow> int (length e) \<le> MAX_CANONICAL_STRING_CHARS)
     (require (case st_verified_request_hash s of None \<Rightarrow> True | Some h \<Rightarrow> int (length h) \<le> MAX_CANONICAL_STRING_CHARS)
     (case freeze_mapping evidence of Inl e \<Rightarrow> Inl e | Inr ev \<Rightarrow>
       require (require_bounded_evidence ev)
       (require (\<not> (st_authoritative s \<and> (st_verified_request_hash s = None \<or> st_verified_request_hash s = Some [])))
       (case bounded_amount (st_amount_usd s) of Inl e \<Rightarrow> Inl e
        | Inr a \<Rightarrow> Inr (s\<lparr>st_evidence := ev, st_amount_usd := a\<rparr>)))))"

record execution_receipt =
  rc_effect_id :: string
  rc_status :: settlement_status
  rc_evidence :: payload
  rc_amount_usd :: "decimal option"

definition execution_receipt_init :: "execution_receipt \<Rightarrow> pyval \<Rightarrow> exn + execution_receipt" where
  "execution_receipt_init r evidence =
     (case freeze_mapping evidence of Inl e \<Rightarrow> Inl e | Inr ev \<Rightarrow>
       require (require_bounded_evidence ev)
       (case bounded_amount (rc_amount_usd r) of Inl e \<Rightarrow> Inl e
        | Inr a \<Rightarrow> Inr (r\<lparr>rc_evidence := ev, rc_amount_usd := a\<rparr>)))"

record outcome_criterion =
  oc_path :: string
  oc_op :: string
  oc_value :: pyval

definition outcome_criterion_init :: "outcome_criterion \<Rightarrow> exn + outcome_criterion" where
  "outcome_criterion_init c =
     (case freeze (oc_value c) of Inl e \<Rightarrow> Inl e | Inr v \<Rightarrow>
       require (oc_path c \<noteq> [])
       (require (oc_op c \<in> set [''present'', ''eq'', ''gte'', ''lte'']) (Inr (c\<lparr>oc_value := v\<rparr>))))"

record task_contract =
  tc_task_id :: string
  tc_intent_id :: string
  tc_objective :: string
  tc_criteria :: "outcome_criterion list"
  tc_issued_at :: time
  tc_expires_at :: time

text \<open>Python's \<open>str.isspace\<close> on the modelled characters, for \<open>strip()\<close>.\<close>

definition is_space :: "char \<Rightarrow> bool" where
  "is_space c \<longleftrightarrow> (of_char c :: int) \<in> set [9, 10, 11, 12, 13, 28, 29, 30, 31, 32, 133, 160]"

definition task_contract_init :: "task_contract \<Rightarrow> exn + task_contract" where
  "task_contract_init t =
     require (require_identifier 1 (tc_task_id t))
     (require (require_identifier MIN_INTENT_ID_CHARS (tc_intent_id t))
     (require (\<not> list_all is_space (tc_objective t))
     (require (tc_criteria t \<noteq> [])
     (require (\<not> tc_expires_at t \<le> tc_issued_at t) (Inr t)))))"

record outcome_result =
  or_verdict :: outcome_verdict
  or_reason_codes :: "string list"
  or_evaluated :: payload

section \<open>Canonical views\<close>

definition p_opt :: "('a \<Rightarrow> pyval) \<Rightarrow> 'a option \<Rightarrow> pyval" where
  "p_opt f v = (case v of None \<Rightarrow> PNone | Some x \<Rightarrow> f x)"

definition p_strs :: "string list \<Rightarrow> pyval" where
  "p_strs xs = PSeq (map PStr xs)"

definition pv_authority :: "authority_decision \<Rightarrow> pyval" where
  "pv_authority a = dict_of
     [(''posture'', PEnum (posture_str (ad_posture a))), (''primitive'', PEnum (authority_primitive_str (ad_primitive a))),
      (''reason_codes'', p_strs (ad_reason_codes a)), (''source'', PStr (ad_source a))]"

definition pv_limits :: "capability_limits \<Rightarrow> pyval" where
  "pv_limits l = dict_of
     [(''max_order_usd'', p_opt PDec (max_order_usd l)), (''max_position_usd'', p_opt PDec (max_position_usd l)),
      (''max_daily_turnover_usd'', p_opt PDec (max_daily_turnover_usd l)),
      (''max_daily_loss_usd'', p_opt PDec (max_daily_loss_usd l)),
      (''max_slippage_bps'', p_opt PInt (max_slippage_bps l)),
      (''max_price_impact_bps'', p_opt PInt (max_price_impact_bps l)),
      (''max_market_data_age_seconds'', p_opt PInt (max_market_data_age_seconds l)),
      (''max_risk_snapshot_age_seconds'', p_opt PInt (max_risk_snapshot_age_seconds l)),
      (''max_intent_ttl_seconds'', p_opt PInt (max_intent_ttl_seconds l)),
      (''max_clock_skew_seconds'', PInt (max_clock_skew_seconds l)),
      (''max_actions_per_window'', p_opt PInt (max_actions_per_window l)),
      (''action_window_seconds'', p_opt PInt (action_window_seconds l)),
      (''max_submission_attempts'', PInt (max_submission_attempts l))]"

definition pv_grant :: "capability_grant \<Rightarrow> pyval" where
  "pv_grant g = dict_of
     [(''principal_id'', PStr (g_principal_id g)), (''grant_id'', PStr (g_grant_id g)),
      (''version'', PInt (g_version g)), (''actor_id'', PStr (g_actor_id g)),
      (''status'', PEnum (grant_status_str (g_status g))),
      (''allowed_primitives'', PSet (map (\<lambda>p. PEnum (primitive_str p)) (g_allowed_primitives g))),
      (''allowed_venues'', PSet (map PStr (g_allowed_venues g))),
      (''allowed_assets'', PSet (map PStr (g_allowed_assets g))),
      (''allowed_targets'', PSet (map PStr (g_allowed_targets g))),
      (''denied_targets'', PSet (map PStr (g_denied_targets g))),
      (''valid_until'', p_opt PTime (g_valid_until g)), (''limits'', pv_limits (g_limits g))]"

definition pv_intent :: "intent \<Rightarrow> pyval" where
  "pv_intent i = dict_of
     [(''principal_id'', PStr (i_principal_id i)), (''intent_id'', PStr (i_intent_id i)),
      (''actor_id'', PStr (i_actor_id i)), (''grant_id'', PStr (i_grant_id i)),
      (''grant_version'', PInt (i_grant_version i)), (''primitive'', PEnum (primitive_str (i_primitive i))),
      (''venue'', PStr (i_venue i)), (''created_at'', PTime (i_created_at i)), (''expires_at'', PTime (i_expires_at i)),
      (''payload'', dict_of (i_payload i)), (''metadata'', dict_of (i_metadata i)),
      (''schema_version'', PStr (i_schema_version i))]"

definition pv_request :: "execution_request \<Rightarrow> pyval" where
  "pv_request r = dict_of
     [(''principal_id'', PStr (rq_principal_id r)), (''intent_id'', PStr (rq_intent_id r)),
      (''primitive'', PEnum (primitive_str (rq_primitive r))), (''venue'', PStr (rq_venue r)),
      (''payload'', dict_of (rq_payload r))]"

definition pv_permit :: "execution_permit \<Rightarrow> pyval" where
  "pv_permit p = dict_of
     [(''permit_id'', PStr (pm_permit_id p)), (''principal_id'', PStr (pm_principal_id p)),
      (''intent_id'', PStr (pm_intent_id p)), (''grant_id'', PStr (pm_grant_id p)),
      (''grant_version'', PInt (pm_grant_version p)), (''grant_hash'', PStr (pm_grant_hash p)),
      (''request_hash'', PStr (pm_request_hash p)),
      (''authority_attestation_hash'', PStr (pm_authority_attestation_hash p)),
      (''risk_attestation_hash'', PStr (pm_risk_attestation_hash p)),
      (''grant_epoch'', PInt (pm_grant_epoch p)), (''fence_token'', PInt (pm_fence_token p)),
      (''max_amount_usd'', p_opt PDec (pm_max_amount_usd p)),
      (''issued_at'', PTime (pm_issued_at p)), (''expires_at'', PTime (pm_expires_at p))]"

definition pv_signed_permit :: "signed_permit \<Rightarrow> pyval" where
  "pv_signed_permit s = dict_of
     [(''permit'', pv_permit (sp_permit s)), (''signer_id'', PStr (sp_signer_id s)),
      (''algorithm'', PEnum (algorithm_str (sp_algorithm s))), (''signature'', PStr (sp_signature s))]"

definition pv_risk :: "risk_snapshot \<Rightarrow> pyval" where
  "pv_risk r = dict_of
     [(''observed_at'', PTime (rs_observed_at r)), (''state_version'', PInt (rs_state_version r)),
      (''scope'', PStr (rs_scope r)), (''position_after_usd'', p_opt PDec (rs_position_after_usd r)),
      (''daily_turnover_after_usd'', p_opt PDec (rs_daily_turnover_after_usd r)),
      (''daily_loss_usd'', p_opt PDec (rs_daily_loss_usd r)),
      (''market_data_age_seconds'', p_opt PInt (rs_market_data_age_seconds r)),
      (''requested_slippage_bps'', p_opt PInt (rs_requested_slippage_bps r)),
      (''price_impact_bps'', p_opt PInt (rs_price_impact_bps r)),
      (''actions_in_window'', PInt (rs_actions_in_window r)),
      (''circuit_breaker_active'', PBool (rs_circuit_breaker_active r)),
      (''data_complete'', PBool (rs_data_complete r)), (''source_count'', PInt (rs_source_count r)),
      (''sources_agree'', PBool (rs_sources_agree r))]"

definition pv_attestation :: "attestation \<Rightarrow> pyval" where
  "pv_attestation a = dict_of
     [(''kind'', PEnum (kind_str (at_kind a))), (''key_id'', PStr (at_key_id a)),
      (''algorithm'', PEnum (algorithm_str (at_algorithm a))), (''subject_hash'', PStr (at_subject_hash a)),
      (''intent_hash'', PStr (at_intent_hash a)), (''issued_at'', PTime (at_issued_at a)),
      (''expires_at'', PTime (at_expires_at a)), (''signature'', PStr (at_signature a))]"

definition pv_criterion :: "outcome_criterion \<Rightarrow> pyval" where
  "pv_criterion c = dict_of [(''path'', PStr (oc_path c)), (''op'', PStr (oc_op c)), (''value'', oc_value c)]"

definition pv_contract :: "task_contract \<Rightarrow> pyval" where
  "pv_contract t = dict_of
     [(''task_id'', PStr (tc_task_id t)), (''intent_id'', PStr (tc_intent_id t)),
      (''objective'', PStr (tc_objective t)), (''criteria'', PSeq (map pv_criterion (tc_criteria t))),
      (''issued_at'', PTime (tc_issued_at t)), (''expires_at'', PTime (tc_expires_at t))]"

section \<open>A concrete configuration\<close>

text \<open>
  One grant, intent and risk snapshot, close to the demo configuration of the program:
  an agent may pay and buy at one venue, up to 100 per order and 200 per day, two actions
  per minute. The witnesses evaluate the operations on it.
\<close>

definition usd :: "nat \<Rightarrow> decimal" where
  "usd n = DFin False n 0"

definition demo_limits :: capability_limits where
  "demo_limits =
     \<lparr>max_order_usd = Some (usd 100), max_position_usd = Some (usd 500),
      max_daily_turnover_usd = Some (usd 200), max_daily_loss_usd = None,
      max_slippage_bps = Some 50, max_price_impact_bps = None, max_market_data_age_seconds = Some 10,
      max_risk_snapshot_age_seconds = Some 30, max_intent_ttl_seconds = Some 300,
      max_clock_skew_seconds = 5, max_actions_per_window = Some 2, action_window_seconds = Some 60,
      max_submission_attempts = 2\<rparr>"

definition demo_grant :: capability_grant where
  "demo_grant =
     \<lparr>g_principal_id = ''principal:alice'', g_grant_id = ''grant-1'', g_version = 1, g_actor_id = ''agent-1'',
      g_status = GS_ACTIVE, g_allowed_primitives = [PAY, BUY], g_allowed_venues = [''mock''],
      g_allowed_assets = [''USDC'', ''ETH''], g_allowed_targets = [''merchant''], g_denied_targets = [''mixer''],
      g_valid_until = Some (secs 100000), g_limits = demo_limits\<rparr>"

definition demo_intent :: intent where
  "demo_intent =
     \<lparr>i_principal_id = ''principal:alice'', i_intent_id = ''intent-0000000001'', i_actor_id = ''agent-1'',
      i_grant_id = ''grant-1'', i_grant_version = 1, i_primitive = PAY, i_venue = ''mock'',
      i_created_at = secs 1000, i_expires_at = secs 1200,
      i_payload = [(''asset'', PStr ''USDC''), (''amount_usd'', PStr ''40''), (''target'', PStr ''merchant'')],
      i_metadata = [], i_schema_version = ''0.3''\<rparr>"

definition demo_risk :: risk_snapshot where
  "demo_risk =
     \<lparr>rs_observed_at = secs 1005, rs_state_version = 1, rs_scope = ''portfolio'',
      rs_position_after_usd = Some (usd 40), rs_daily_turnover_after_usd = Some (usd 40),
      rs_daily_loss_usd = None, rs_market_data_age_seconds = Some 1, rs_requested_slippage_bps = Some 0,
      rs_price_impact_bps = None, rs_actions_in_window = 0, rs_circuit_breaker_active = False,
      rs_data_complete = True, rs_source_count = 2, rs_sources_agree = True\<rparr>"

definition demo_authority :: authority_decision where
  "demo_authority =
     \<lparr>ad_posture = P_EXECUTE, ad_primitive = EXECUTE_ACTION, ad_reason_codes = [], ad_source = ''aar''\<rparr>"

text \<open>Stand-ins for the hash and the MAC; the theorems hold for every choice.\<close>

definition demo_crypto :: crypto where
  "demo_crypto = \<lparr>sha256 = (\<lambda>m. ''sha:'' @ take 8 m), hmac_sha256 = (\<lambda>k m. ''mac:'' @ k @ m)\<rparr>"

end
