(* ===== verification/Anchor.thy ===== *)
theory Anchor
  imports FAAR_Prelude Canonical "HOL-Library.Product_Lexorder" "HOL-Library.AList"
begin

text \<open>
  \<open>faar/anchor.py\<close>: the external high-water marks of consumed authority.

  A mark is the pair (runtime epoch, fence counter), compared lexicographically. Both
  anchors of the program are modelled: the process-local one, and the one kept in a JSON
  file, whose every access can fail (lock not acquired, file missing or unreadable, not
  a JSON object, malformed entry, write refused) with the file unchanged. The locale
  \<open>authority_anchor\<close> states the protocol the store relies on; it is interpreted for both
  implementations, and for the sum of the two that the store is opened with.
\<close>

section \<open>Marks\<close>

type_synonym mark = "int \<times> int"

definition regressed :: "mark \<Rightarrow> mark option \<Rightarrow> bool" where
  "regressed current m = (case m of None \<Rightarrow> False | Some k \<Rightarrow> current < k)"

text \<open>The order on recorded marks: no mark is below every mark.\<close>

definition mark_le :: "mark option \<Rightarrow> mark option \<Rightarrow> bool" where
  "mark_le x y = (case x of None \<Rightarrow> True | Some a \<Rightarrow> (case y of None \<Rightarrow> False | Some b \<Rightarrow> a \<le> b))"

lemma mark_le_refl [simp]: "mark_le x x"
  by (cases x) (auto simp: mark_le_def)

lemma mark_le_None [simp]: "mark_le None y"
  by (simp add: mark_le_def)

lemma mark_le_Some [simp]: "mark_le (Some a) (Some b) \<longleftrightarrow> a \<le> b"
  by (simp add: mark_le_def)

lemma mark_le_Some_None [simp]: "\<not> mark_le (Some a) None"
  by (simp add: mark_le_def)

lemma mark_le_trans: "mark_le x y \<Longrightarrow> mark_le y z \<Longrightarrow> mark_le x z"
  by (cases x; cases y; cases z) auto

lemma regressed_mono: "regressed c x \<Longrightarrow> mark_le x y \<Longrightarrow> regressed c y"
  by (cases x; cases y) (auto simp: regressed_def)

lemma mark_leE:
  assumes "mark_le (Some a) y"
  obtains b where "y = Some b" and "a \<le> b"
  using assms by (cases y) auto

section \<open>The protocol\<close>

text \<open>
  \<open>high\<close> is the abstract content. Every operation either raises and leaves the content
  alone, or does what its name says; \<open>record\<close> never lowers a mark, and \<open>reset\<close> and
  \<open>record\<close> touch only their own key. Binding an identity changes no mark.
\<close>

locale authority_anchor =
  fixes high :: "'a \<Rightarrow> string \<Rightarrow> int \<Rightarrow> mark option"
    and high_water :: "string \<Rightarrow> int \<Rightarrow> ('a, mark option) op"
    and record_mark :: "string \<Rightarrow> int \<Rightarrow> mark \<Rightarrow> ('a, unit) op"
    and reset_mark :: "string \<Rightarrow> int \<Rightarrow> mark \<Rightarrow> ('a, unit) op"
    and identity :: "('a, string option) op"
    and bind_identity :: "string \<Rightarrow> ('a, unit) op"
  assumes high_water_reads: "high_water g v a = (r1, b) \<Longrightarrow> b = a"
    and high_water_value: "high_water g v a = (Inr m, b) \<Longrightarrow> m = high a g v"
    and record_value: "record_mark g v k a = (Inr u, b) \<Longrightarrow>
          \<exists>m. high b g v = Some m \<and> k \<le> m \<and> (\<forall>m0. high a g v = Some m0 \<longrightarrow> m = max m0 k)"
    and record_other: "record_mark g v k a = (r2, b) \<Longrightarrow> (g', v') \<noteq> (g, v) \<Longrightarrow> high b g' v' = high a g' v'"
    and record_fails: "record_mark g v k a = (Inl e, b) \<Longrightarrow> b = a"
    and reset_value: "reset_mark g v k a = (Inr u, b) \<Longrightarrow> high b g v = Some k"
    and reset_other: "reset_mark g v k a = (r2, b) \<Longrightarrow> (g', v') \<noteq> (g, v) \<Longrightarrow> high b g' v' = high a g' v'"
    and reset_fails: "reset_mark g v k a = (Inl e, b) \<Longrightarrow> b = a"
    and identity_reads: "identity a = (r3, b) \<Longrightarrow> b = a"
    and bind_keeps_marks: "bind_identity n a = (r2, b) \<Longrightarrow> high b g v = high a g v"
    and bind_then_identity: "bind_identity n a = (Inr u, b) \<Longrightarrow> identity b = (Inr i, c) \<Longrightarrow> i = Some n"
begin

lemma record_raises_to:
  assumes "record_mark g v k a = (Inr u, b)"
  shows "mark_le (Some k) (high b g v)"
  using record_value [OF assms] by (auto split: option.splits)

lemma record_monotone:
  assumes "record_mark g v k a = (r, b)"
  shows "mark_le (high a g' v') (high b g' v')"
proof (cases "(g', v') = (g, v)")
  case True
  then show ?thesis
    using assms record_value [of g v k a _ b] record_fails [of g v k a _ b]
    by (cases r; cases "high a g v") (auto simp del: split_paired_All split_paired_Ex)
qed (use record_other [OF assms] in auto)

lemma reset_monotone:
  assumes "reset_mark g v k a = (r, b)" and "mark_le (high a g v) (Some k)"
  shows "mark_le (high a g' v') (high b g' v')"
proof (cases "(g', v') = (g, v)")
  case True
  then show ?thesis
    using assms reset_value [of g v k a _ b] reset_fails [of g v k a _ b] by (cases r) auto
qed (use reset_other [OF assms(1)] in auto)

end

section \<open>InMemoryAuthorityAnchor\<close>

record memory_anchor =
  ma_marks :: "((string \<times> int) \<times> mark) list"
  ma_identity :: "string option"

definition ma_new :: memory_anchor where
  "ma_new = \<lparr>ma_marks = [], ma_identity = None\<rparr>"

definition ma_high_water :: "string \<Rightarrow> int \<Rightarrow> (memory_anchor, mark option) op" where
  "ma_high_water g v a = (Inr (map_of (ma_marks a) (g, v)), a)"

definition ma_record :: "string \<Rightarrow> int \<Rightarrow> mark \<Rightarrow> (memory_anchor, unit) op" where
  "ma_record g v k a =
     (Inr (), a\<lparr>ma_marks := AList.update (g, v)
        (max (case map_of (ma_marks a) (g, v) of None \<Rightarrow> (0, 0) | Some m \<Rightarrow> m) k) (ma_marks a)\<rparr>)"

definition ma_reset :: "string \<Rightarrow> int \<Rightarrow> mark \<Rightarrow> (memory_anchor, unit) op" where
  "ma_reset g v k a = (Inr (), a\<lparr>ma_marks := AList.update (g, v) k (ma_marks a)\<rparr>)"

definition ma_identity_op :: "(memory_anchor, string option) op" where
  "ma_identity_op a = (Inr (ma_identity a), a)"

definition ma_bind_identity :: "string \<Rightarrow> (memory_anchor, unit) op" where
  "ma_bind_identity n a =
     (case ma_identity a of
        Some cur \<Rightarrow> if cur \<noteq> n then (Inl AnchorMismatch, a) else (Inr (), a\<lparr>ma_identity := Some n\<rparr>)
      | None \<Rightarrow> (Inr (), a\<lparr>ma_identity := Some n\<rparr>))"

interpretation memory: authority_anchor
  "\<lambda>a g v. map_of (ma_marks a) (g, v)" ma_high_water ma_record ma_reset ma_identity_op ma_bind_identity
  by unfold_locales
    (auto simp: ma_high_water_def ma_record_def ma_reset_def ma_identity_op_def ma_bind_identity_def
      max_def update_conv' split: option.splits if_splits)

section \<open>FileAuthorityAnchor\<close>

text \<open>
  A value of the JSON object as the code reads it: a pair that \<open>_mark\<close> accepts, a
  string, or anything else.
\<close>

datatype file_value = FMark int int | FText string | FBad

datatype file_content = Missing | Unparsable | Blank | Marks "(string \<times> file_value) list"

record file_anchor =
  fa_content :: file_content
  fa_lock_free :: bool
  fa_writable :: bool

definition ANCHOR_IDENTITY_KEY :: string where "ANCHOR_IDENTITY_KEY = ''__identity__''"

definition fa_key :: "string \<Rightarrow> int \<Rightarrow> string" where
  "fa_key g v = g @ [CHR 0x1F] @ str_int v"

definition fa_mark :: "file_value \<Rightarrow> exn + mark" where
  "fa_mark x = (case x of FMark e f \<Rightarrow> Inr (e, f) | _ \<Rightarrow> Inl AnchorUnavailable)"

definition fa_exclusive :: "(file_anchor, 'a) op \<Rightarrow> (file_anchor, 'a) op" where
  "fa_exclusive m a = (if fa_lock_free a then m a else (Inl AnchorUnavailable, a))"

definition fa_read :: "(file_anchor, (string \<times> file_value) list) op" where
  "fa_read a = (case fa_content a of
     Missing \<Rightarrow> (Inl AnchorUnavailable, a)
   | Unparsable \<Rightarrow> (Inl AnchorUnavailable, a)
   | Blank \<Rightarrow> (Inr [], a)
   | Marks kvs \<Rightarrow> (Inr kvs, a))"

text \<open>
  The rewrite replaces the whole file (temporary file and rename), so a failed write
  leaves the old content. The error is the operating system's.
\<close>

definition fa_write :: "(string \<times> file_value) list \<Rightarrow> (file_anchor, unit) op" where
  "fa_write kvs a = (if fa_writable a then (Inr (), a\<lparr>fa_content := Marks kvs\<rparr>) else (Inl OtherError, a))"

definition fa_put :: "string \<Rightarrow> file_value \<Rightarrow> (string \<times> file_value) list \<Rightarrow> (string \<times> file_value) list" where
  "fa_put k x kvs =
     (if k \<in> fst ` set kvs then map (\<lambda>(k', y). (k', if k' = k then x else y)) kvs else kvs @ [(k, x)])"

definition fa_high_water :: "string \<Rightarrow> int \<Rightarrow> (file_anchor, mark option) op" where
  "fa_high_water g v = fa_exclusive (bindE fa_read (\<lambda>kvs.
     case map_of kvs (fa_key g v) of None \<Rightarrow> ret None
     | Some x \<Rightarrow> lift_sum (map_sum id Some (fa_mark x))))"

definition fa_record :: "string \<Rightarrow> int \<Rightarrow> mark \<Rightarrow> (file_anchor, unit) op" where
  "fa_record g v k = fa_exclusive (bindE fa_read (\<lambda>kvs.
     case map_of kvs (fa_key g v) of None \<Rightarrow> fa_write (fa_put (fa_key g v) (FMark (fst k) (snd k)) kvs)
     | Some x \<Rightarrow> bindE (lift_sum (fa_mark x)) (\<lambda>m.
         if m < k then fa_write (fa_put (fa_key g v) (FMark (fst k) (snd k)) kvs) else ret ())))"

definition fa_reset :: "string \<Rightarrow> int \<Rightarrow> mark \<Rightarrow> (file_anchor, unit) op" where
  "fa_reset g v k = fa_exclusive (bindE fa_read (\<lambda>kvs.
     fa_write (fa_put (fa_key g v) (FMark (fst k) (snd k)) kvs)))"

definition fa_identity :: "(file_anchor, string option) op" where
  "fa_identity = fa_exclusive (bindE fa_read (\<lambda>kvs.
     case map_of kvs ANCHOR_IDENTITY_KEY of None \<Rightarrow> ret None
     | Some (FText t) \<Rightarrow> if t = [] then raise_exn AnchorUnavailable else ret (Some t)
     | Some _ \<Rightarrow> raise_exn AnchorUnavailable))"

definition fa_bind_identity :: "string \<Rightarrow> (file_anchor, unit) op" where
  "fa_bind_identity n = fa_exclusive (bindE fa_read (\<lambda>kvs.
     case map_of kvs ANCHOR_IDENTITY_KEY of
       None \<Rightarrow> fa_write (fa_put ANCHOR_IDENTITY_KEY (FText n) kvs)
     | Some x \<Rightarrow> if x \<noteq> FText n then raise_exn AnchorMismatch else ret ()))"

text \<open>The marks of a file's content; a malformed entry carries none.\<close>

definition fa_entries :: "file_anchor \<Rightarrow> (string \<times> file_value) list" where
  "fa_entries a = (case fa_content a of Marks kvs \<Rightarrow> kvs | _ \<Rightarrow> [])"

definition fa_high :: "file_anchor \<Rightarrow> string \<Rightarrow> int \<Rightarrow> mark option" where
  "fa_high a g v = (case map_of (fa_entries a) (fa_key g v) of Some (FMark e f) \<Rightarrow> Some (e, f) | _ \<Rightarrow> None)"

lemma map_of_fa_put [simp]: "map_of (fa_put k x kvs) = (map_of kvs)(k \<mapsto> x)"
proof (rule ext)
  fix j
  have upd: "map_of (map (\<lambda>(k', y). (k', if k' = k then x else y)) kvs) j
      = (if j = k then map_option (\<lambda>_. x) (map_of kvs k) else map_of kvs j)" for j
  proof (induction kvs)
    case (Cons p kvs)
    then show ?case by (cases p; cases "j = k"; cases "fst p = k") simp_all
  qed simp
  have absent: "map_of kvs k = None \<longleftrightarrow> k \<notin> fst ` set kvs"
    by (simp add: map_of_eq_None_iff)
  show "map_of (fa_put k x kvs) j = ((map_of kvs)(k \<mapsto> x)) j"
    using absent by (cases "map_of kvs k") (auto simp: fa_put_def upd map_add_def split: option.splits)
qed

lemma sep_not_in_str_int: "CHR 0x1F \<notin> set (str_int v)"
proof -
  have "CHR 0x1F \<notin> set (dec_digits n)" for n
    using is_digit_dec_digits [of "CHR 0x1F" n] by (auto simp: is_digit_def)
  then show ?thesis by (simp add: str_int_def)
qed

lemma digits_not_minus: "dec_digits m = CHR ''-'' # s \<Longrightarrow> False"
  using is_digit_dec_digits [of "CHR ''-''" m] by (simp add: is_digit_def)

lemma str_int_inj: "str_int v = str_int w \<Longrightarrow> v = w"
proof -
  have dd: "dec_digits m = dec_digits n \<Longrightarrow> m = n" for m n
    by (metis digits_val_dec_digits)
  assume "str_int v = str_int w"
  then show ?thesis
    using dd [of "nat (- v)" "nat (- w)"] dd [of "nat v" "nat w"]
      digits_not_minus [of "nat v"] digits_not_minus [of "nat w"]
    by (auto simp: str_int_def split: if_splits) (metis digits_not_minus)+
qed

lemma fa_key_inj: "fa_key g v = fa_key g' v' \<longleftrightarrow> g = g' \<and> v = v'"
proof
  assume eq: "fa_key g v = fa_key g' v'"
  have tw: "takeWhile (\<lambda>c. c \<noteq> CHR 0x1F) (rev (fa_key x y)) = rev (str_int y)" for x y
    using sep_not_in_str_int [of y] by (subst fa_key_def) (simp add: takeWhile_tail takeWhile_append)
  have "rev (str_int v) = rev (str_int v')" using tw [of g v] tw [of g' v'] eq by simp
  then have "v = v'" using str_int_inj by simp
  with eq show "g = g' \<and> v = v'" by (simp add: fa_key_def)
qed simp

lemma fa_key_not_identity: "fa_key g v \<noteq> ANCHOR_IDENTITY_KEY"
proof
  assume "fa_key g v = ANCHOR_IDENTITY_KEY"
  then have "CHR 0x1F \<in> set ANCHOR_IDENTITY_KEY" by (metis fa_key_def in_set_conv_decomp append_Cons append_Nil)
  then show False by (simp add: ANCHOR_IDENTITY_KEY_def)
qed

lemmas fa_defs =
  fa_high_water_def fa_record_def fa_reset_def fa_identity_def fa_bind_identity_def fa_exclusive_def
  fa_read_def fa_write_def fa_mark_def fa_high_def fa_entries_def

lemma fa_high_put:
  "fa_high (a\<lparr>fa_content := Marks (fa_put (fa_key g v) (FMark e f) kvs)\<rparr>) g' v' =
     (if (g', v') = (g, v) then Some (e, f) else fa_high (a\<lparr>fa_content := Marks kvs\<rparr>) g' v')"
  by (auto simp: fa_high_def fa_entries_def fa_key_inj)

lemma fa_readE:
  assumes "fa_read a = (Inr kvs, b)"
  shows "b = a" and "fa_entries a = kvs"
  using assms by (auto simp: fa_read_def fa_entries_def split: file_content.splits)

lemma fa_high_entries: "fa_entries a = kvs \<Longrightarrow> fa_high (a\<lparr>fa_content := Marks kvs\<rparr>) g v = fa_high a g v"
  by (simp add: fa_high_def fa_entries_def)

interpretation filed: authority_anchor
  fa_high fa_high_water fa_record fa_reset fa_identity fa_bind_identity
proof
  fix a b c :: file_anchor and g g' :: string and v v' :: int and k :: mark and n :: string
    and r1 :: "exn + mark option" and r2 :: "exn + unit" and r3 :: "exn + string option"
    and m :: "mark option" and u :: unit and e :: exn and i :: "string option"
  show "fa_high_water g v a = (r1, b) \<Longrightarrow> b = a"
    by (auto simp: fa_defs op_simps split: option.splits file_content.splits if_splits)
  show "fa_high_water g v a = (Inr m, b) \<Longrightarrow> m = fa_high a g v"
    by (auto simp: fa_defs op_simps split: option.splits file_content.splits if_splits file_value.splits)
  show "fa_record g v k a = (Inr u, b) \<Longrightarrow>
      \<exists>m. fa_high b g v = Some m \<and> k \<le> m \<and> (\<forall>m0. fa_high a g v = Some m0 \<longrightarrow> m = max m0 k)"
    by (cases k) (auto simp: fa_defs op_simps max_def split: option.splits file_content.splits if_splits file_value.splits)
  show "fa_record g v k a = (r2, b) \<Longrightarrow> (g', v') \<noteq> (g, v) \<Longrightarrow> fa_high b g' v' = fa_high a g' v'"
    by (auto simp: fa_defs op_simps fa_key_inj split: option.splits file_content.splits if_splits file_value.splits)
  show "fa_record g v k a = (Inl e, b) \<Longrightarrow> b = a"
    by (auto simp: fa_defs op_simps split: option.splits file_content.splits if_splits file_value.splits)
  show "fa_reset g v k a = (Inr u, b) \<Longrightarrow> fa_high b g v = Some k"
    by (auto simp: fa_defs op_simps split: file_content.splits if_splits)
  show "fa_reset g v k a = (r2, b) \<Longrightarrow> (g', v') \<noteq> (g, v) \<Longrightarrow> fa_high b g' v' = fa_high a g' v'"
    by (auto simp: fa_defs op_simps fa_key_inj split: file_content.splits if_splits)
  show "fa_reset g v k a = (Inl e, b) \<Longrightarrow> b = a"
    by (auto simp: fa_defs op_simps split: file_content.splits if_splits)
  show "fa_identity a = (r3, b) \<Longrightarrow> b = a"
    by (auto simp: fa_defs op_simps split: option.splits file_content.splits if_splits file_value.splits)
  show "fa_bind_identity n a = (r2, b) \<Longrightarrow> fa_high b g v = fa_high a g v"
    by (auto simp: fa_defs op_simps fa_key_not_identity split: option.splits file_content.splits if_splits file_value.splits)
  show "fa_bind_identity n a = (Inr u, b) \<Longrightarrow> fa_identity b = (Inr i, c) \<Longrightarrow> i = Some n"
    by (auto simp: fa_defs op_simps split: option.splits file_content.splits if_splits file_value.splits)
qed

section \<open>The anchor a store is opened with\<close>

datatype anchor_state = Memory memory_anchor | Filed file_anchor

fun on_anchor :: "(memory_anchor, 'b) op \<Rightarrow> (file_anchor, 'b) op \<Rightarrow> (anchor_state, 'b) op" where
  "on_anchor m f (Memory a) = (case m a of (r, b) \<Rightarrow> (r, Memory b))"
| "on_anchor m f (Filed a) = (case f a of (r, b) \<Rightarrow> (r, Filed b))"

definition high_water :: "string \<Rightarrow> int \<Rightarrow> (anchor_state, mark option) op" where
  "high_water g v = on_anchor (ma_high_water g v) (fa_high_water g v)"

definition record_mark :: "string \<Rightarrow> int \<Rightarrow> mark \<Rightarrow> (anchor_state, unit) op" where
  "record_mark g v k = on_anchor (ma_record g v k) (fa_record g v k)"

definition reset_mark :: "string \<Rightarrow> int \<Rightarrow> mark \<Rightarrow> (anchor_state, unit) op" where
  "reset_mark g v k = on_anchor (ma_reset g v k) (fa_reset g v k)"

definition identity :: "(anchor_state, string option) op" where
  "identity = on_anchor ma_identity_op fa_identity"

definition bind_identity :: "string \<Rightarrow> (anchor_state, unit) op" where
  "bind_identity n = on_anchor (ma_bind_identity n) (fa_bind_identity n)"

fun high :: "anchor_state \<Rightarrow> string \<Rightarrow> int \<Rightarrow> mark option" where
  "high (Memory a) g v = map_of (ma_marks a) (g, v)"
| "high (Filed a) g v = fa_high a g v"

lemma on_anchorE:
  assumes "on_anchor m f a = (r, b)"
  obtains (memory) x y where "a = Memory x" and "b = Memory y" and "m x = (r, y)"
  | (filed) x y where "a = Filed x" and "b = Filed y" and "f x = (r, y)"
  using assms by (cases a) (auto split: prod.splits)

interpretation any: authority_anchor high high_water record_mark reset_mark identity bind_identity
proof
  fix a b c :: anchor_state and g g' :: string and v v' :: int and k :: mark and n :: string
    and r1 :: "exn + mark option" and r2 :: "exn + unit" and r3 :: "exn + string option"
    and m :: "mark option" and u :: unit and e :: exn and i :: "string option"
  show "high_water g v a = (r1, b) \<Longrightarrow> b = a"
    unfolding high_water_def by (erule on_anchorE) (auto dest: memory.high_water_reads filed.high_water_reads)
  show "high_water g v a = (Inr m, b) \<Longrightarrow> m = high a g v"
    unfolding high_water_def by (erule on_anchorE) (auto dest: memory.high_water_value filed.high_water_value)
  show "record_mark g v k a = (Inr u, b) \<Longrightarrow>
      \<exists>m. high b g v = Some m \<and> k \<le> m \<and> (\<forall>m0. high a g v = Some m0 \<longrightarrow> m = max m0 k)"
    unfolding record_mark_def
    by (erule on_anchorE)
      (auto simp del: split_paired_All split_paired_Ex dest: memory.record_value filed.record_value)
  show "record_mark g v k a = (r2, b) \<Longrightarrow> (g', v') \<noteq> (g, v) \<Longrightarrow> high b g' v' = high a g' v'"
    unfolding record_mark_def
    by (erule on_anchorE) (simp_all only: high.simps, (erule (1) memory.record_other filed.record_other)+)
  show "record_mark g v k a = (Inl e, b) \<Longrightarrow> b = a"
    unfolding record_mark_def by (erule on_anchorE) (auto dest: memory.record_fails filed.record_fails)
  show "reset_mark g v k a = (Inr u, b) \<Longrightarrow> high b g v = Some k"
    unfolding reset_mark_def by (erule on_anchorE) (auto dest: memory.reset_value filed.reset_value)
  show "reset_mark g v k a = (r2, b) \<Longrightarrow> (g', v') \<noteq> (g, v) \<Longrightarrow> high b g' v' = high a g' v'"
    unfolding reset_mark_def by (erule on_anchorE) (simp_all only: high.simps, (erule (1) memory.reset_other filed.reset_other)+)
  show "reset_mark g v k a = (Inl e, b) \<Longrightarrow> b = a"
    unfolding reset_mark_def by (erule on_anchorE) (auto dest: memory.reset_fails filed.reset_fails)
  show "identity a = (r3, b) \<Longrightarrow> b = a"
    unfolding identity_def by (erule on_anchorE) (auto dest: memory.identity_reads filed.identity_reads)
  show "bind_identity n a = (r2, b) \<Longrightarrow> high b g v = high a g v"
    unfolding bind_identity_def
    by (erule on_anchorE) (auto dest: memory.bind_keeps_marks filed.bind_keeps_marks)
  show "bind_identity n a = (Inr u, b) \<Longrightarrow> identity b = (Inr i, c) \<Longrightarrow> i = Some n"
    unfolding bind_identity_def identity_def
    by (erule on_anchorE) (auto elim!: on_anchorE dest: memory.bind_then_identity filed.bind_then_identity)
qed

end
