(* ===== verification/Store_Base.thy ===== *)
theory Store_Base
  imports Models Anchor
begin

text \<open>
  The state of \<open>faar/store.py\<close>: the tables, the configuration of a store instance, and
  the transaction discipline.

  \<^item> \<open>db\<close> holds the tables; a table is the list of its rows in rowid order. Timestamps
    written as ISO text are the instants they denote; a column of canonical JSON text is
    that text, except the evidence payload, which is kept as the JSON tree it parses to.
    The settings table is one field per key.
  \<^item> \<open>sys\<close> is what every store instance on one database shares: the database, the
    external anchor and the wall clock.
  \<^item> \<open>cfg\<close> is one open store instance; it is fixed once the store is opened.
  \<^item> \<open>transaction m\<close> is BEGIN IMMEDIATE \dots COMMIT with ROLLBACK on every exception. The
    anchor lives outside the database, so a rollback does not undo an anchor write.

  The database serializes write transactions, so an operation is one atomic step; a
  busy database refuses a transaction before it starts and changes nothing.
\<close>

section \<open>Rows\<close>

record grant_row =
  gr_grant_id :: string
  gr_version :: int
  gr_principal_id :: string
  gr_hash :: string
  gr_json :: string
  gr_status :: grant_status
  gr_epoch :: int
  gr_fence :: int
  gr_provisioned_at :: time

datatype usage_status = HELD | COMMITTED | RELEASED

record usage_row =
  us_intent_id :: string
  us_principal_id :: string
  us_grant_id :: string
  us_grant_version :: int
  us_day_key :: string
  us_velocity_bucket :: "int option"
  us_velocity_ts :: "int option"
  us_max_actions :: "int option"
  us_window :: "int option"
  us_amount :: decimal
  us_status :: usage_status
  us_submitted :: bool
  us_created_at :: time
  us_updated_at :: time

record attempt_row =
  sa_intent_id :: string
  sa_number :: int
  sa_principal_id :: string
  sa_grant_id :: string
  sa_grant_version :: int
  sa_attempted_at :: int
  sa_count :: int
  sa_created_at :: time

text \<open>A row of either risk ledger, \<open>risk_claims\<close> or \<open>permit_risk_claims\<close>.\<close>

record claim_row =
  cl_principal_id :: string
  cl_grant_id :: string
  cl_grant_version :: int
  cl_scope :: string
  cl_state_version :: int
  cl_intent_id :: string
  cl_created_at :: time

record intent_row =
  it_intent_id :: string
  it_principal_id :: string
  it_venue :: string
  it_hash :: string
  it_state :: intent_state
  it_json :: string
  it_effect_id :: "string option"
  it_reason_codes :: "string list"
  it_submission_count :: int
  it_ambiguity_until :: "time option"
  it_filled :: "decimal option"
  it_created_at :: time
  it_updated_at :: time

record lease_row =
  ls_intent_id :: string
  ls_owner :: string
  ls_acquired_at :: time
  ls_host :: "string option"
  ls_pid :: "int option"

record evidence_row =
  ev_id :: int
  ev_intent_id :: string
  ev_principal_id :: string
  ev_type :: string
  ev_payload :: json
  ev_created_at :: time
  ev_prev_hash :: "string option"
  ev_hash :: string
  ev_mac :: "string option"

record head_row =
  hd_intent_id :: string
  hd_seq :: int
  hd_hash :: string
  hd_mac :: "string option"
  hd_updated_at :: time

record control_row =
  ct_scope :: string
  ct_halted :: bool
  ct_reason :: string
  ct_epoch :: int
  ct_updated_at :: time

record permit_row =
  pr_permit_id :: string
  pr_intent_id :: string
  pr_principal_id :: string
  pr_grant_id :: string
  pr_grant_version :: int
  pr_grant_epoch :: int
  pr_fence :: int
  pr_hash :: string
  pr_issued_at :: time
  pr_expires_at :: "time option"
  pr_consumed_at :: "time option"
  pr_voided_at :: "time option"

text \<open>The cap is kept as its stored text and parsed again on every read.\<close>

record cap_row =
  xc_scope :: string
  xc_max :: string
  xc_updated_at :: time

section \<open>Database, shared state, instance\<close>

record db =
  grants :: "grant_row list"
  usage :: "usage_row list"
  attempts :: "attempt_row list"
  risk_claims :: "claim_row list"
  permit_claims :: "claim_row list"
  intents :: "intent_row list"
  leases :: "lease_row list"
  evidence :: "evidence_row list"
  heads :: "head_row list"
  controls :: "control_row list"
  permits :: "permit_row list"
  caps :: "cap_row list"
  set_anchor_id :: "string option"
  set_anchor_required :: bool
  set_heads_since :: "int option"
  set_caps_version :: int
  evidence_seq :: int

definition empty_db :: db where
  "empty_db =
     \<lparr>grants = [], usage = [], attempts = [], risk_claims = [], permit_claims = [], intents = [],
      leases = [], evidence = [], heads = [], controls = [], permits = [], caps = [],
      set_anchor_id = None, set_anchor_required = False, set_heads_since = None,
      set_caps_version = 0, evidence_seq = 0\<rparr>"

record sys =
  db :: db
  anchor :: anchor_state
  wall :: time

record cfg =
  c_has_anchor :: bool
  c_anchor_required :: bool
  c_evidence_key :: "string option"
  c_heads_since :: int
  c_instance :: string
  c_host :: string
  c_pid :: int
  c_crypto :: crypto

definition GLOBAL_CONTROL_SCOPE :: string where "GLOBAL_CONTROL_SCOPE = ''global''"
definition PRINCIPAL_CONTROL_PREFIX :: string where "PRINCIPAL_CONTROL_PREFIX = ''principal:''"
definition TURNOVER_WINDOW_SECONDS :: int where "TURNOVER_WINDOW_SECONDS = 86400"
definition LEGACY_PRINCIPAL_ID :: string where "LEGACY_PRINCIPAL_ID = ''legacy:unknown''"
definition MAX_EVIDENCE_ROW_CHARS :: int where "MAX_EVIDENCE_ROW_CHARS = 4 * MAX_EVIDENCE_BYTES"
definition EXPOSURE_CAPS_ANCHOR_KEY :: string where "EXPOSURE_CAPS_ANCHOR_KEY = ''__exposure_caps__''"

section \<open>Transactions\<close>

definition transaction :: "(sys, 'a) op \<Rightarrow> (sys, 'a) op" where
  "transaction m s = (case m s of (Inl e, t) \<Rightarrow> (Inl e, t\<lparr>db := db s\<rparr>) | (Inr a, t) \<Rightarrow> (Inr a, t))"

definition read_db :: "(db \<Rightarrow> 'a) \<Rightarrow> (sys, 'a) op" where
  "read_db f = gets (\<lambda>s. f (db s))"

definition write_db :: "(db \<Rightarrow> db) \<Rightarrow> (sys, unit) op" where
  "write_db f = modify (\<lambda>s. s\<lparr>db := f (db s)\<rparr>)"

definition store_now :: "(sys, time) op" where
  "store_now = gets wall"

text \<open>Run an anchor operation; the database is not touched.\<close>

definition on_anchor_of :: "(anchor_state, 'a) op \<Rightarrow> (sys, 'a) op" where
  "on_anchor_of m s = (case m (anchor s) of (r, a) \<Rightarrow> (r, s\<lparr>anchor := a\<rparr>))"

lemmas [op_simps] = read_db_def write_db_def store_now_def on_anchor_of_def transaction_def

lemma transaction_Inl:
  "transaction m s = (Inl e, t) \<longleftrightarrow> (\<exists>t'. m s = (Inl e, t') \<and> t = t'\<lparr>db := db s\<rparr>)"
  by (auto simp: transaction_def split: prod.splits sum.splits)

lemma transaction_Inr: "transaction m s = (Inr a, t) \<longleftrightarrow> m s = (Inr a, t)"
  by (auto simp: transaction_def split: prod.splits sum.splits)

text \<open>Atomicity: an operation that raises inside a transaction leaves every table as it was.\<close>

lemma transaction_atomic: "transaction m s = (Inl e, t) \<Longrightarrow> db t = db s"
  by (auto simp: transaction_Inl)

lemma wp_transaction [wp_simps]:
  "wp (transaction m) Q s =
     wp m (\<lambda>r t. case r of Inl e \<Rightarrow> Q (Inl e) (t\<lparr>db := db s\<rparr>) | Inr a \<Rightarrow> Q (Inr a) t) s"
  by (auto simp: wp_def transaction_def split: prod.splits sum.splits)

lemma wp_read_db [wp_simps]: "wp (read_db f) Q s = Q (Inr (f (db s))) s"
  by (simp add: read_db_def wp_simps)

lemma wp_write_db [wp_simps]: "wp (write_db f) Q s = Q (Inr ()) (s\<lparr>db := f (db s)\<rparr>)"
  by (simp add: write_db_def wp_simps)

lemma wp_store_now [wp_simps]: "wp store_now Q s = Q (Inr (wall s)) s"
  by (simp add: store_now_def wp_simps)

section \<open>The anchor as the store uses it\<close>

text \<open>\<open>_anchor_missing\<close>, \<open>_require_anchor\<close>, \<open>_anchor_regressed\<close> and \<open>_anchor_record\<close>.\<close>

definition anchor_missing :: "cfg \<Rightarrow> bool" where
  "anchor_missing c \<longleftrightarrow> c_anchor_required c \<and> \<not> c_has_anchor c"

definition require_anchor :: "cfg \<Rightarrow> (sys, unit) op" where
  "require_anchor c = (if anchor_missing c then raise_exn AuthorityAnchorRequired else ret ())"

text \<open>Every failure of the anchor is reported as \<open>AnchorUnavailable\<close>.\<close>

definition anchor_regressed :: "cfg \<Rightarrow> string \<Rightarrow> int \<Rightarrow> int \<Rightarrow> int \<Rightarrow> (sys, bool) op" where
  "anchor_regressed c gid v epoch fence =
     (if \<not> c_has_anchor c then ret False
      else bindE (catch (on_anchor_of (high_water gid v)) (\<lambda>e. raise_exn AnchorUnavailable))
             (\<lambda>m. ret (regressed (epoch, fence) m)))"

definition anchor_record :: "cfg \<Rightarrow> string \<Rightarrow> int \<Rightarrow> int \<Rightarrow> int \<Rightarrow> (sys, unit) op" where
  "anchor_record c gid v epoch fence =
     (if \<not> c_has_anchor c then ret ()
      else catch (on_anchor_of (record_mark gid v (epoch, fence))) (\<lambda>e. raise_exn AnchorUnavailable))"

definition marks :: "sys \<Rightarrow> string \<Rightarrow> int \<Rightarrow> mark option" where
  "marks s = high (anchor s)"

lemma wp_require_anchor [wp_simps]:
  "wp (require_anchor c) Q s = (if anchor_missing c then Q (Inl AuthorityAnchorRequired) s else Q (Inr ()) s)"
  by (simp add: require_anchor_def wp_simps)

text \<open>
  The outcome of an anchor call, as functions of the anchor's state alone, with the facts
  of the protocol about them.
\<close>

definition read_res :: "string \<Rightarrow> int \<Rightarrow> anchor_state \<Rightarrow> exn + mark option" where
  "read_res g v a = fst (high_water g v a)"

definition rec_res :: "cfg \<Rightarrow> string \<Rightarrow> int \<Rightarrow> mark \<Rightarrow> anchor_state \<Rightarrow> exn + unit" where
  "rec_res c g v k a =
     (if \<not> c_has_anchor c then Inr ()
      else case fst (record_mark g v k a) of Inl e \<Rightarrow> Inl AnchorUnavailable | Inr u \<Rightarrow> Inr ())"

definition rec_anchor :: "cfg \<Rightarrow> string \<Rightarrow> int \<Rightarrow> mark \<Rightarrow> anchor_state \<Rightarrow> anchor_state" where
  "rec_anchor c g v k a = (if c_has_anchor c then snd (record_mark g v k a) else a)"

definition reg_res :: "cfg \<Rightarrow> string \<Rightarrow> int \<Rightarrow> mark \<Rightarrow> anchor_state \<Rightarrow> exn + bool" where
  "reg_res c g v k a =
     (if \<not> c_has_anchor c then Inr False
      else case read_res g v a of Inl e \<Rightarrow> Inl AnchorUnavailable | Inr m \<Rightarrow> Inr (regressed k m))"

lemma on_anchor_of_high_water: "on_anchor_of (high_water g v) s = (read_res g v (anchor s), s)"
  using any.high_water_reads [of g v "anchor s"] by (auto simp: on_anchor_of_def read_res_def split: prod.splits)

lemma wp_high_water [wp_simps]: "wp (on_anchor_of (high_water g v)) Q s = Q (read_res g v (anchor s)) s"
  by (simp add: wp_def on_anchor_of_high_water)

lemma wp_anchor_regressed [wp_simps]:
  "wp (anchor_regressed c g v e f) Q s = Q (reg_res c g v (e, f) (anchor s)) s"
  by (auto simp: anchor_regressed_def reg_res_def wp_simps split: sum.splits)

lemma wp_anchor_record [wp_simps]:
  "wp (anchor_record c g v e f) Q s =
     Q (rec_res c g v (e, f) (anchor s)) (s\<lparr>anchor := rec_anchor c g v (e, f) (anchor s)\<rparr>)"
  by (auto simp: anchor_record_def rec_res_def rec_anchor_def wp_def op_simps split: sum.splits prod.splits)

lemma read_res_value: "read_res g v a = Inr m \<Longrightarrow> m = high a g v"
  using any.high_water_value [of g v a] by (cases "high_water g v a") (auto simp: read_res_def)

lemma reg_res_value: "reg_res c g v k a = Inr b \<Longrightarrow> b \<longleftrightarrow> c_has_anchor c \<and> regressed k (high a g v)"
  by (auto simp: reg_res_def split: if_splits sum.splits dest: read_res_value)

lemma reg_res_error: "reg_res c g v k a = Inl e \<Longrightarrow> c_has_anchor c \<and> e = AnchorUnavailable"
  by (auto simp: reg_res_def split: if_splits sum.splits)

lemma rec_res_error: "rec_res c g v k a = Inl e \<Longrightarrow> c_has_anchor c \<and> e = AnchorUnavailable"
  by (auto simp: rec_res_def split: if_splits sum.splits)

lemma rec_anchor_fails: "rec_res c g v k a = Inl e \<Longrightarrow> rec_anchor c g v k a = a"
  using any.record_fails [of g v k a]
  by (cases "record_mark g v k a") (auto simp: rec_res_def rec_anchor_def split: if_splits sum.splits)

lemma rec_anchor_mono [simp]: "mark_le (high a g' v') (high (rec_anchor c g v k a) g' v')"
  using any.record_monotone [of g v k a] by (cases "record_mark g v k a") (auto simp: rec_anchor_def)

lemma rec_anchor_raises:
  "rec_res c g v k a = Inr u \<Longrightarrow> c_has_anchor c \<Longrightarrow> mark_le (Some k) (high (rec_anchor c g v k a) g v)"
  using any.record_raises_to [of g v k a]
  by (cases "record_mark g v k a") (auto simp: rec_res_def rec_anchor_def split: sum.splits)

lemma rec_anchor_other:
  "(g', v') \<noteq> (g, v) \<Longrightarrow> high (rec_anchor c g v k a) g' v' = high a g' v'"
  using any.record_other [of g v k a] by (cases "record_mark g v k a") (auto simp: rec_anchor_def)

section \<open>The intent state machine\<close>

definition TERMINAL_STATES :: "intent_state list" where
  "TERMINAL_STATES = [S_DENIED, S_DEFERRED, S_STOPPED, S_FINALIZED, S_FAILED_SAFE]"

fun allowed_transitions :: "intent_state \<Rightarrow> intent_state list" where
  "allowed_transitions S_PROPOSED = [S_DENIED, S_DEFERRED, S_STOPPED, S_AUTHORIZED]"
| "allowed_transitions S_AUTHORIZED = [S_RESERVED, S_STOPPED]"
| "allowed_transitions S_RESERVED = [S_SUBMITTED, S_RECONCILING, S_STOPPED]"
| "allowed_transitions S_SUBMITTED = [S_CONFIRMED, S_UNKNOWN, S_RECONCILING, S_STOPPED, S_FAILED_SAFE]"
| "allowed_transitions S_UNKNOWN = [S_RECONCILING, S_STOPPED]"
| "allowed_transitions S_RECONCILING = [S_SUBMITTED, S_CONFIRMED, S_FINALIZED, S_FAILED_SAFE, S_STOPPED, S_UNKNOWN]"
| "allowed_transitions S_CONFIRMED = [S_FINALIZED, S_RECONCILING, S_STOPPED]"
| "allowed_transitions S_DENIED = []"
| "allowed_transitions S_DEFERRED = []"
| "allowed_transitions S_STOPPED = []"
| "allowed_transitions S_FINALIZED = []"
| "allowed_transitions S_FAILED_SAFE = []"

definition state_step :: "intent_state \<Rightarrow> intent_state \<Rightarrow> bool" where
  "state_step a b \<longleftrightarrow> b \<in> set (allowed_transitions a)"

definition is_terminal :: "intent_state \<Rightarrow> bool" where
  "is_terminal a \<longleftrightarrow> a \<in> set TERMINAL_STATES"

lemma terminal_iff_stuck: "is_terminal a \<longleftrightarrow> allowed_transitions a = []"
  by (cases a) (simp_all add: is_terminal_def TERMINAL_STATES_def)

lemma terminal_absorbing: "state_step\<^sup>*\<^sup>* a b \<Longrightarrow> is_terminal a \<Longrightarrow> b = a"
  by (induction rule: converse_rtranclp_induct) (auto simp: terminal_iff_stuck state_step_def)

section \<open>What a store operation may change\<close>

definition grant_evolves :: "grant_row \<Rightarrow> grant_row \<Rightarrow> bool" where
  "grant_evolves r q \<longleftrightarrow>
     gr_grant_id q = gr_grant_id r \<and> gr_version q = gr_version r \<and> gr_principal_id q = gr_principal_id r
     \<and> gr_hash q = gr_hash r \<and> gr_json q = gr_json r \<and> gr_epoch r \<le> gr_epoch q \<and> gr_fence r \<le> gr_fence q
     \<and> (gr_status r = GS_REVOKED \<longrightarrow> gr_status q = GS_REVOKED)
     \<and> (gr_status q \<noteq> gr_status r \<longrightarrow> gr_epoch r < gr_epoch q)"

text \<open>The columns of a reservation and of a permit that never change.\<close>

definition usage_core :: "usage_row \<Rightarrow> usage_row" where
  "usage_core r = r\<lparr>us_status := HELD, us_submitted := False, us_updated_at := 0\<rparr>"

definition permit_core :: "permit_row \<Rightarrow> permit_row" where
  "permit_core r = r\<lparr>pr_consumed_at := None, pr_voided_at := None\<rparr>"

definition usage_evolves :: "usage_row \<Rightarrow> usage_row \<Rightarrow> bool" where
  "usage_evolves r q \<longleftrightarrow>
     usage_core q = usage_core r \<and> (us_status r \<noteq> HELD \<longrightarrow> us_status q = us_status r)
     \<and> (us_submitted r \<longrightarrow> us_submitted q)"

definition intent_evolves :: "intent_row \<Rightarrow> intent_row \<Rightarrow> bool" where
  "intent_evolves r q \<longleftrightarrow>
     it_intent_id q = it_intent_id r \<and> it_principal_id q = it_principal_id r \<and> it_venue q = it_venue r
     \<and> it_hash q = it_hash r \<and> it_json q = it_json r \<and> state_step\<^sup>*\<^sup>* (it_state r) (it_state q)
     \<and> it_submission_count r \<le> it_submission_count q \<and> (it_effect_id r \<noteq> None \<longrightarrow> it_effect_id q \<noteq> None)"

definition permit_evolves :: "permit_row \<Rightarrow> permit_row \<Rightarrow> bool" where
  "permit_evolves r q \<longleftrightarrow>
     permit_core q = permit_core r
     \<and> (pr_consumed_at r \<noteq> None \<or> pr_voided_at r \<noteq> None \<longrightarrow>
          pr_consumed_at q = pr_consumed_at r \<and> pr_voided_at q = pr_voided_at r)"

text \<open>
  The relation every store operation keeps between the state before and after it: the
  ledgers of grants, reservations, intents and permits lose no row and their rows only
  move forward; attempts, risk claims and evidence are append-only; the anchor never goes
  back.
\<close>

definition db_evolves :: "db \<Rightarrow> db \<Rightarrow> bool" where
  "db_evolves d e \<longleftrightarrow>
     grows grant_evolves (grants d) (grants e) \<and> grows usage_evolves (usage d) (usage e)
     \<and> grows intent_evolves (intents d) (intents e) \<and> grows permit_evolves (permits d) (permits e)
     \<and> grows (=) (attempts d) (attempts e) \<and> grows (=) (risk_claims d) (risk_claims e)
     \<and> grows (=) (permit_claims d) (permit_claims e) \<and> grows (=) (evidence d) (evidence e)
     \<and> set_caps_version d \<le> set_caps_version e"

definition anchor_evolves :: "anchor_state \<Rightarrow> anchor_state \<Rightarrow> bool" where
  "anchor_evolves a b \<longleftrightarrow> (\<forall>g v. mark_le (high a g v) (high b g v))"

lemma grant_evolves_refl: "grant_evolves r r"
  by (simp add: grant_evolves_def)

lemma grant_evolves_trans: "grant_evolves a b \<Longrightarrow> grant_evolves b c \<Longrightarrow> grant_evolves a c"
  by (cases "gr_status b = gr_status a") (auto simp: grant_evolves_def)

lemma usage_evolves_refl: "usage_evolves r r"
  by (simp add: usage_evolves_def)

lemma usage_evolves_trans: "usage_evolves a b \<Longrightarrow> usage_evolves b c \<Longrightarrow> usage_evolves a c"
  by (simp add: usage_evolves_def)

lemma intent_evolves_refl: "intent_evolves r r"
  by (simp add: intent_evolves_def)

lemma intent_evolves_trans: "intent_evolves a b \<Longrightarrow> intent_evolves b c \<Longrightarrow> intent_evolves a c"
  by (auto simp: intent_evolves_def)

lemma permit_evolves_refl: "permit_evolves r r"
  by (simp add: permit_evolves_def)

lemma permit_evolves_trans: "permit_evolves a b \<Longrightarrow> permit_evolves b c \<Longrightarrow> permit_evolves a c"
  by (auto simp: permit_evolves_def)

lemmas evolves_refl = grant_evolves_refl usage_evolves_refl intent_evolves_refl permit_evolves_refl

lemma db_evolves_refl [simp]: "db_evolves d d"
  by (simp add: db_evolves_def grows_refl evolves_refl)

lemma db_evolves_trans: "db_evolves d e \<Longrightarrow> db_evolves e f \<Longrightarrow> db_evolves d f"
  unfolding db_evolves_def
  by (elim conjE, intro conjI)
    (erule (1) grows_trans [OF grant_evolves_trans, rotated 2] grows_trans [OF usage_evolves_trans, rotated 2]
       grows_trans [OF intent_evolves_trans, rotated 2] grows_trans [OF permit_evolves_trans, rotated 2]
       grows_trans [where R = "(=)", OF trans, rotated 2] order_trans; assumption)+

lemma anchor_evolves_refl [simp]: "anchor_evolves a a"
  by (simp add: anchor_evolves_def)

lemma anchor_evolves_trans: "anchor_evolves a b \<Longrightarrow> anchor_evolves b c \<Longrightarrow> anchor_evolves a c"
  unfolding anchor_evolves_def by (meson mark_le_trans)

lemma anchor_evolves_rec [simp]: "anchor_evolves a (rec_anchor c g v k a)"
  by (simp add: anchor_evolves_def)

section \<open>Key constraints\<close>

definition claim_key :: "claim_row \<Rightarrow> string \<times> int \<times> string \<times> int" where
  "claim_key r = (cl_grant_id r, cl_grant_version r, cl_scope r, cl_state_version r)"

definition fence_key :: "permit_row \<Rightarrow> string \<times> int \<times> int" where
  "fence_key r = (pr_grant_id r, pr_grant_version r, pr_fence r)"

definition effects_unique :: "intent_row list \<Rightarrow> bool" where
  "effects_unique rows \<longleftrightarrow>
     (\<forall>r \<in> set rows. \<forall>q \<in> set rows. it_venue r = it_venue q \<and> it_effect_id r = it_effect_id q \<and> it_effect_id r \<noteq> None
        \<longrightarrow> it_intent_id r = it_intent_id q)"

text \<open>
  The PRIMARY KEY and UNIQUE constraints of the schema, and that no permit is both
  consumed and voided.
\<close>

definition db_ok :: "db \<Rightarrow> bool" where
  "db_ok d \<longleftrightarrow>
     distinct (map (\<lambda>r. (gr_grant_id r, gr_version r)) (grants d))
     \<and> distinct (map us_intent_id (usage d))
     \<and> distinct (map (\<lambda>r. (sa_intent_id r, sa_number r)) (attempts d))
     \<and> distinct (map claim_key (risk_claims d)) \<and> distinct (map cl_intent_id (risk_claims d))
     \<and> distinct (map claim_key (permit_claims d))
     \<and> distinct (map it_intent_id (intents d)) \<and> effects_unique (intents d)
     \<and> distinct (map pr_permit_id (permits d)) \<and> distinct (map fence_key (permits d))
     \<and> (\<forall>p \<in> set (permits d). pr_consumed_at p = None \<or> pr_voided_at p = None)"

definition keeps :: "sys \<Rightarrow> sys \<Rightarrow> bool" where
  "keeps s t \<longleftrightarrow> (db_ok (db s) \<longrightarrow> db_ok (db t) \<and> db_evolves (db s) (db t)) \<and> anchor_evolves (anchor s) (anchor t)"

lemma keeps_refl [simp]: "keeps s s"
  by (simp add: keeps_def)

lemma keeps_trans: "keeps s t \<Longrightarrow> keeps t u \<Longrightarrow> keeps s u"
  unfolding keeps_def by (meson db_evolves_trans anchor_evolves_trans)

interpretation keeping: step_preorder keeps
  by unfold_locales (auto intro: keeps_trans)

text \<open>Updates that touch no key column keep the constraints.\<close>

lemma db_ok_grants:
  "(\<And>r. gr_grant_id (f r) = gr_grant_id r \<and> gr_version (f r) = gr_version r) \<Longrightarrow>
     db_ok (d\<lparr>grants := upd P f (grants d)\<rparr>) = db_ok d"
  by (simp add: db_ok_def map_upd_key)

lemma db_ok_usage:
  "(\<And>r. us_intent_id (f r) = us_intent_id r) \<Longrightarrow> db_ok (d\<lparr>usage := upd P f (usage d)\<rparr>) = db_ok d"
  by (simp add: db_ok_def map_upd_key)

lemma effects_unique_upd:
  assumes "\<And>r. it_venue (f r) = it_venue r" and "\<And>r. it_effect_id (f r) = it_effect_id r"
    and "\<And>r. it_intent_id (f r) = it_intent_id r"
  shows "effects_unique (upd P f rows) = effects_unique rows"
proof -
  define g where "g = (\<lambda>r. if P r then f r else r)"
  have "it_venue (g r) = it_venue r" "it_effect_id (g r) = it_effect_id r" "it_intent_id (g r) = it_intent_id r" for r
    using assms by (simp_all add: g_def)
  moreover have "upd P f rows = map g rows" by (simp add: upd_def g_def)
  ultimately show ?thesis by (simp add: effects_unique_def)
qed

lemma db_ok_unkeyed [simp]:
  "db_ok (d\<lparr>leases := l\<rparr>) = db_ok d" "db_ok (d\<lparr>evidence := ev\<rparr>) = db_ok d" "db_ok (d\<lparr>heads := h\<rparr>) = db_ok d"
  "db_ok (d\<lparr>controls := ct\<rparr>) = db_ok d" "db_ok (d\<lparr>caps := x\<rparr>) = db_ok d"
  "db_ok (d\<lparr>set_anchor_id := i\<rparr>) = db_ok d" "db_ok (d\<lparr>set_anchor_required := b\<rparr>) = db_ok d"
  "db_ok (d\<lparr>set_heads_since := n\<rparr>) = db_ok d" "db_ok (d\<lparr>set_caps_version := k\<rparr>) = db_ok d"
  "db_ok (d\<lparr>evidence_seq := k\<rparr>) = db_ok d"
  by (simp_all add: db_ok_def)

lemma db_evolves_unkeyed [simp]:
  "db_evolves d (e\<lparr>leases := l\<rparr>) = db_evolves d e" "db_evolves d (e\<lparr>heads := h\<rparr>) = db_evolves d e"
  "db_evolves d (e\<lparr>controls := ct\<rparr>) = db_evolves d e" "db_evolves d (e\<lparr>caps := x\<rparr>) = db_evolves d e"
  "db_evolves d (e\<lparr>set_anchor_id := i\<rparr>) = db_evolves d e"
  "db_evolves d (e\<lparr>set_anchor_required := b\<rparr>) = db_evolves d e"
  "db_evolves d (e\<lparr>set_heads_since := n\<rparr>) = db_evolves d e"
  "db_evolves d (e\<lparr>evidence_seq := k\<rparr>) = db_evolves d e"
  by (simp_all add: db_evolves_def)

lemma db_evolves_grants:
  "grows grant_evolves (grants d) g \<Longrightarrow> db_evolves d (d\<lparr>grants := g\<rparr>)"
  by (simp add: db_evolves_def grows_refl evolves_refl)

lemma db_evolves_usage:
  "grows usage_evolves (usage d) u \<Longrightarrow> db_evolves d (d\<lparr>usage := u\<rparr>)"
  by (simp add: db_evolves_def grows_refl evolves_refl)

lemma db_evolves_intents:
  "grows intent_evolves (intents d) u \<Longrightarrow> db_evolves d (d\<lparr>intents := u\<rparr>)"
  by (simp add: db_evolves_def grows_refl evolves_refl)

lemma db_evolves_permits:
  "grows permit_evolves (permits d) u \<Longrightarrow> db_evolves d (d\<lparr>permits := u\<rparr>)"
  by (simp add: db_evolves_def grows_refl evolves_refl)

lemma keepsI:
  assumes "db_ok (db s) \<Longrightarrow> db_ok (db t)" and "db_ok (db s) \<Longrightarrow> db_evolves (db s) (db t)"
    and "anchor_evolves (anchor s) (anchor t)"
  shows "keeps s t"
  using assms by (simp add: keeps_def)

lemma keeps_anchor [simp]: "keeps s (s\<lparr>anchor := a\<rparr>) \<longleftrightarrow> anchor_evolves (anchor s) a"
  by (simp add: keeps_def)

lemma keeps_okD: "guarantees keeps m \<Longrightarrow> m s = (r, t) \<Longrightarrow> db_ok (db s) \<Longrightarrow> db_ok (db t)"
  by (drule (1) guaranteesD) (simp add: keeps_def)

lemma keeps_transaction: "guarantees keeps m \<Longrightarrow> guarantees keeps (transaction m)"
  unfolding guarantees_def transaction_def
  by (auto simp: keeps_def split: prod.splits sum.splits) (metis snd_conv)+

lemma keeps_require_anchor: "guarantees keeps (require_anchor c)"
  by (simp add: guarantees_wp wp_simps)

lemma keeps_read_db: "guarantees keeps (read_db f)"
  by (simp add: guarantees_wp wp_simps)

lemma keeps_store_now: "guarantees keeps store_now"
  by (simp add: guarantees_wp wp_simps)

lemma keeps_anchor_record: "guarantees keeps (anchor_record c g v e f)"
  by (simp add: guarantees_wp wp_simps)

lemma keeps_high_water: "guarantees keeps (on_anchor_of (high_water g v))"
  by (simp add: guarantees_wp wp_simps)

lemmas keeps_rules =
  keeping.guar_rules keeps_transaction keeps_require_anchor keeps_read_db keeps_store_now
  keeps_anchor_record keeps_high_water

end
