(* ===== verification/Store_Grants.thy ===== *)
theory Store_Grants
  imports Store_Base
begin

text \<open>
  \<open>faar/store.py\<close>, grants and controls: opening a store under an anchor, provisioning,
  the effective grant status, lifecycle changes, execution fences, the kill switch and
  recovery after a restore.

  Each operation is followed by the lemma that says what it can change. The theorems at
  the end: a revoked grant version stays revoked, epochs and fences never go back, the
  anchor is never behind an authority the store handed out, and stopping commits even
  when the anchor is unreachable.
\<close>

section \<open>Queries\<close>

definition grant_key :: "string \<Rightarrow> int \<Rightarrow> grant_row \<Rightarrow> bool" where
  "grant_key gid v r \<longleftrightarrow> gr_grant_id r = gid \<and> gr_version r = v"

definition grant_of :: "db \<Rightarrow> string \<Rightarrow> int \<Rightarrow> grant_row option" where
  "grant_of d gid v = find (grant_key gid v) (grants d)"

definition row_mark :: "grant_row \<Rightarrow> mark" where
  "row_mark r = (gr_epoch r, gr_fence r)"

text \<open>\<open>_active_halt_locked\<close>: the scope that halts a principal, the global one first.\<close>

definition active_halt :: "db \<Rightarrow> string \<Rightarrow> string option" where
  "active_halt d who =
     (let halted = filter (\<lambda>r. ct_halted r \<and>
            (ct_scope r = GLOBAL_CONTROL_SCOPE \<or> ct_scope r = PRINCIPAL_CONTROL_PREFIX @ who)) (controls d)
      in case find (\<lambda>r. ct_scope r = GLOBAL_CONTROL_SCOPE) halted of
           Some r \<Rightarrow> Some (ct_scope r)
         | None \<Rightarrow> (case halted of [] \<Rightarrow> None | r # _ \<Rightarrow> Some (ct_scope r)))"

lemma active_halt_None:
  "active_halt d p = None \<longleftrightarrow>
     (\<forall>r \<in> set (controls d). ct_halted r \<longrightarrow>
        ct_scope r \<noteq> GLOBAL_CONTROL_SCOPE \<and> ct_scope r \<noteq> PRINCIPAL_CONTROL_PREFIX @ p)"
proof -
  have nil: "filter P xs = [] \<Longrightarrow> find Q (filter P xs) = None" for P Q and xs :: "control_row list" by simp
  show ?thesis
    unfolding active_halt_def Let_def
    by (auto split: option.splits list.splits simp: filter_empty_conv find_None_iff Cons_eq_filter_iff
        dest: filter_eq_ConsD)
qed

text \<open>\<open>_validate_control_scope\<close>: None for the global scope, the principal otherwise.\<close>

definition validate_control_scope :: "string \<Rightarrow> exn + string option" where
  "validate_control_scope scope =
     (if scope = GLOBAL_CONTROL_SCOPE then Inr None
      else if starts_with PRINCIPAL_CONTROL_PREFIX scope \<and> length scope > length PRINCIPAL_CONTROL_PREFIX
           \<and> \<not> list_ex is_space scope
        then Inr (Some (drop (length PRINCIPAL_CONTROL_PREFIX) scope))
      else Inl ValueError)"

definition principal_grant_count :: "db \<Rightarrow> string \<Rightarrow> nat" where
  "principal_grant_count d p = length (filter (\<lambda>r. gr_principal_id r = p) (grants d))"

section \<open>Opening a store\<close>

text \<open>\<open>_raise_anchor_marks_behind_rows\<close>: the first anchor failure ends the repair silently.\<close>

fun raise_marks_behind :: "grant_row list \<Rightarrow> (sys, unit) op" where
  "raise_marks_behind [] = ret ()"
| "raise_marks_behind (r # rs) = (\<lambda>s.
     case on_anchor_of (high_water (gr_grant_id r) (gr_version r)) s of
       (Inl e, t) \<Rightarrow> (Inr (), t)
     | (Inr m, t) \<Rightarrow>
         if (case m of None \<Rightarrow> True | Some k \<Rightarrow> k < row_mark r) then
           (case on_anchor_of (record_mark (gr_grant_id r) (gr_version r) (row_mark r)) t of
              (Inl e, u) \<Rightarrow> (Inr (), u)
            | (Inr x, u) \<Rightarrow> raise_marks_behind rs u)
         else raise_marks_behind rs t)"

definition raise_anchor_marks_behind_rows :: "bool \<Rightarrow> (sys, unit) op" where
  "raise_anchor_marks_behind_rows has_anchor =
     (if \<not> has_anchor then ret () else bindE (read_db grants) raise_marks_behind)"

text \<open>
  \<open>_bind_anchor_setting\<close>: the identity of the anchor is bound to the database once;
  \<open>fresh\<close> is the new identity drawn for an anchor that has none. Returns the instance's
  \<open>_anchor_required\<close>.
\<close>

definition bind_anchor_setting :: "bool \<Rightarrow> string \<Rightarrow> (sys, bool) op" where
  "bind_anchor_setting has_anchor fresh =
     bindE (read_db (\<lambda>d. (set_anchor_required d, set_anchor_id d))) (\<lambda>(required, bound).
       if \<not> has_anchor then ret required
       else if required \<and> bound \<noteq> None then
         bindE (on_anchor_of identity) (\<lambda>aid.
           if aid \<noteq> bound then raise_exn AnchorMismatch
           else seqE (raise_anchor_marks_behind_rows True) (ret True))
       else seqE
         (transaction (bindE (read_db set_anchor_id) (\<lambda>db_id.
            bindE (on_anchor_of identity) (\<lambda>aid.
            bindE (if db_id = None \<and> aid = None
                   then seqE (on_anchor_of (bind_identity fresh)) (ret (Some fresh))
                   else if db_id \<noteq> None \<and> aid \<noteq> db_id then raise_exn AnchorMismatch
                   else ret aid) (\<lambda>aid'.
            seqE (if db_id = None then write_db (\<lambda>d. d\<lparr>set_anchor_id := aid'\<rparr>) else ret ())
                 (write_db (\<lambda>d. d\<lparr>set_anchor_required := True\<rparr>)))))))
         (seqE (raise_anchor_marks_behind_rows True) (ret True)))"

text \<open>\<open>_bind_heads_since\<close>.\<close>

definition first_registered :: "db \<Rightarrow> int option" where
  "first_registered d =
     (let firsts = filter (\<lambda>e. ev_type e = ''intent_registered'' \<and>
            (\<forall>f \<in> set (evidence d). ev_intent_id f = ev_intent_id e \<longrightarrow> ev_id e \<le> ev_id f)) (evidence d)
      in if firsts = [] then None else Some (Min (ev_id ` set firsts)))"

definition heads_since_value :: "db \<Rightarrow> int" where
  "heads_since_value d = (case first_registered d of
     Some n \<Rightarrow> n
   | None \<Rightarrow> (if evidence d = [] then 0 else Max (ev_id ` set (evidence d))) + 1)"

definition bind_heads_since :: "(sys, int) op" where
  "bind_heads_since = transaction (bindE (read_db set_heads_since) (\<lambda>b. case b of
     Some n \<Rightarrow> ret n
   | None \<Rightarrow> bindE (read_db heads_since_value) (\<lambda>n.
       seqE (write_db (\<lambda>d. d\<lparr>set_heads_since := Some n\<rparr>)) (ret n))))"

definition open_store ::
    "bool \<Rightarrow> string option \<Rightarrow> string \<Rightarrow> string \<Rightarrow> string \<Rightarrow> int \<Rightarrow> crypto \<Rightarrow> (sys, cfg) op" where
  "open_store has_anchor key fresh inst host pid L =
     (if (case key of None \<Rightarrow> False | Some k \<Rightarrow> length k < 16) then raise_exn ValueError
      else bindE (bind_anchor_setting has_anchor fresh) (\<lambda>required.
           bindE bind_heads_since (\<lambda>since.
             ret \<lparr>c_has_anchor = has_anchor, c_anchor_required = required, c_evidence_key = key,
                  c_heads_since = since, c_instance = inst, c_host = host, c_pid = pid, c_crypto = L\<rparr>)))"

section \<open>Provisioning and verification\<close>

definition provision_grant :: "cfg \<Rightarrow> capability_grant \<Rightarrow> string \<Rightarrow> (sys, unit) op" where
  "provision_grant c g h =
     bindE (lift_sum (canonical_json (pv_grant g))) (\<lambda>payload.
     seqE (require_anchor c)
     (transaction (bindE (read_db (\<lambda>d. grant_of d (g_grant_id g) (g_version g))) (\<lambda>row.
       case row of
         None \<Rightarrow> bindE store_now (\<lambda>now.
           seqE (write_db (\<lambda>d. d\<lparr>grants := grants d @
              [\<lparr>gr_grant_id = g_grant_id g, gr_version = g_version g, gr_principal_id = g_principal_id g,
                gr_hash = h, gr_json = payload, gr_status = g_status g, gr_epoch = 1, gr_fence = 0,
                gr_provisioned_at = now\<rparr>]\<rparr>))
           (anchor_record c (g_grant_id g) (g_version g) 1 0))
       | Some r \<Rightarrow>
           if gr_hash r \<noteq> h \<or> gr_principal_id r \<noteq> g_principal_id g then raise_exn GrantConflict
           else ret ()))))"

definition verify_grant :: "capability_grant \<Rightarrow> string \<Rightarrow> (sys, unit) op" where
  "verify_grant g h =
     bindE (read_db (\<lambda>d. grant_of d (g_grant_id g) (g_version g))) (\<lambda>row.
       case row of
         None \<Rightarrow> raise_exn UnknownGrant
       | Some r \<Rightarrow>
           if gr_hash r \<noteq> h \<or> gr_principal_id r \<noteq> g_principal_id g then raise_exn GrantConflict
           else ret ())"

section \<open>Effective status\<close>

datatype control_status =
    CS grant_status
  | CS_HALTED
  | CS_REGRESSED
  | CS_ANCHOR_REQUIRED
  | CS_ANCHOR_UNAVAILABLE

definition get_grant_control :: "cfg \<Rightarrow> string \<Rightarrow> string \<Rightarrow> int \<Rightarrow> (sys, control_status \<times> int \<times> int) op" where
  "get_grant_control c who gid v =
     bindE (read_db (\<lambda>d. (grant_of d gid v, active_halt d who \<noteq> None))) (\<lambda>(row, halted).
       case row of
         None \<Rightarrow> raise_exn UnknownGrant
       | Some r \<Rightarrow>
           if gr_principal_id r \<noteq> who then raise_exn GrantConflict
           else if anchor_missing c then ret (CS_ANCHOR_REQUIRED, gr_epoch r, gr_fence r)
           else bindE (catch (bindE (anchor_regressed c gid v (gr_epoch r) (gr_fence r)) (\<lambda>b. ret (Some b)))
                         (\<lambda>e. ret None)) (\<lambda>b.
             ret (case b of
                    None \<Rightarrow> (CS_ANCHOR_UNAVAILABLE, gr_epoch r, gr_fence r)
                  | Some behind \<Rightarrow>
                      (if behind then CS_REGRESSED
                       else if gr_status r = GS_ACTIVE \<and> halted then CS_HALTED
                       else CS (gr_status r), gr_epoch r, gr_fence r))))"

section \<open>Lifecycle\<close>

text \<open>
  The update inside \<open>set_grant_status\<close>, after its checks: \<open>True\<close> when the anchor write
  failed on a stop, which is committed and reported afterwards.
\<close>

definition set_grant_status_txn :: "cfg \<Rightarrow> string \<Rightarrow> string \<Rightarrow> int \<Rightarrow> grant_status \<Rightarrow> (sys, bool) op" where
  "set_grant_status_txn c who gid v status =
     bindE (read_db (\<lambda>d. grant_of d gid v)) (\<lambda>row.
       case row of
         None \<Rightarrow> raise_exn UnknownGrant
       | Some r \<Rightarrow>
           if gr_principal_id r \<noteq> who then raise_exn GrantConflict
           else bindE (catch (anchor_regressed c gid v (gr_epoch r) (gr_fence r))
                  (\<lambda>e. if status = GS_ACTIVE then raise_exn e else ret False)) (\<lambda>behind.
             if behind then raise_exn AuthorityRegression
             else if gr_status r = GS_REVOKED \<and> status \<noteq> GS_REVOKED then raise_exn GrantConflict
             else if gr_status r = status then
               (if status \<noteq> GS_ACTIVE then
                  catch (seqE (anchor_record c gid v (gr_epoch r) (gr_fence r)) (ret False)) (\<lambda>e. ret True)
                else ret False)
             else seqE (write_db (\<lambda>d. d\<lparr>grants := upd (grant_key gid v)
                           (\<lambda>q. q\<lparr>gr_status := status, gr_epoch := gr_epoch r + 1\<rparr>) (grants d)\<rparr>))
                  (catch (seqE (anchor_record c gid v (gr_epoch r + 1) (gr_fence r)) (ret False))
                     (\<lambda>e. if status = GS_ACTIVE then raise_exn e else ret True))))"

definition set_grant_status :: "cfg \<Rightarrow> string \<Rightarrow> string \<Rightarrow> int \<Rightarrow> grant_status \<Rightarrow> (sys, unit) op" where
  "set_grant_status c who gid v status =
     seqE (require_anchor c)
     (bindE (transaction (set_grant_status_txn c who gid v status)) (\<lambda>anchor_error.
        if anchor_error then raise_exn AnchorUnavailableAfterCommit else ret ()))"

definition next_execution_fence :: "cfg \<Rightarrow> capability_grant \<Rightarrow> (sys, int \<times> int) op" where
  "next_execution_fence c g =
     seqE (require_anchor c)
     (transaction (bindE (read_db (\<lambda>d. (grant_of d (g_grant_id g) (g_version g), active_halt d (g_principal_id g))))
       (\<lambda>(row, halt). case row of
         None \<Rightarrow> raise_exn UnknownGrant
       | Some r \<Rightarrow>
           if gr_principal_id r \<noteq> g_principal_id g then raise_exn GrantConflict
           else if gr_status r \<noteq> GS_ACTIVE then raise_exn GrantConflict
           else if halt \<noteq> None then raise_exn GrantConflict
           else bindE (anchor_regressed c (g_grant_id g) (g_version g) (gr_epoch r) (gr_fence r)) (\<lambda>behind.
             if behind then raise_exn GrantConflict
             else seqE (write_db (\<lambda>d. d\<lparr>grants := upd (grant_key (g_grant_id g) (g_version g))
                          (\<lambda>q. q\<lparr>gr_fence := gr_fence r + 1\<rparr>) (grants d)\<rparr>))
                  (seqE (anchor_record c (g_grant_id g) (g_version g) (gr_epoch r) (gr_fence r + 1))
                  (ret (gr_epoch r, gr_fence r + 1)))))))"

section \<open>Recovery and kill switch\<close>

definition revoke_after_restore :: "cfg \<Rightarrow> string \<Rightarrow> int \<Rightarrow> (sys, int \<times> int) op" where
  "revoke_after_restore c gid v =
     seqE (require_anchor c)
     (bindE (transaction (bindE (read_db (\<lambda>d. grant_of d gid v)) (\<lambda>row. case row of
         None \<Rightarrow> raise_exn UnknownGrant
       | Some r \<Rightarrow>
           bindE (if c_has_anchor c
                  then catch (bindE (on_anchor_of (high_water gid v)) (\<lambda>m. ret (m, False))) (\<lambda>e. ret (None, True))
                  else ret (None, False)) (\<lambda>(m, failed).
             let epoch = max (gr_epoch r) (case m of None \<Rightarrow> 0 | Some k \<Rightarrow> fst k) + 1;
                 fence = max (gr_fence r) (case m of None \<Rightarrow> 0 | Some k \<Rightarrow> snd k) in
             seqE (write_db (\<lambda>d. d\<lparr>grants := upd (grant_key gid v)
                      (\<lambda>q. q\<lparr>gr_status := GS_REVOKED, gr_epoch := epoch, gr_fence := fence\<rparr>) (grants d)\<rparr>))
             (bindE (if c_has_anchor c \<and> \<not> failed
                     then catch (seqE (on_anchor_of (reset_mark gid v (epoch, fence))) (ret False)) (\<lambda>e. ret True)
                     else ret failed) (\<lambda>failed'. ret (epoch, fence, failed')))))))
        (\<lambda>(epoch, fence, failed). if failed then raise_exn AnchorUnavailableAfterCommit else ret (epoch, fence)))"

text \<open>The anchor loop of \<open>halt\<close>: stops at the first failure and reports it.\<close>

fun record_rows :: "cfg \<Rightarrow> grant_row list \<Rightarrow> (sys, bool) op" where
  "record_rows c [] = ret False"
| "record_rows c (r # rs) = (\<lambda>s.
     case anchor_record c (gr_grant_id r) (gr_version r) (gr_epoch r) (gr_fence r) s of
       (Inl e, t) \<Rightarrow> (Inr True, t)
     | (Inr u, t) \<Rightarrow> record_rows c rs t)"

definition halt_control :: "string \<Rightarrow> string \<Rightarrow> time \<Rightarrow> control_row list \<Rightarrow> control_row list" where
  "halt_control scope reason now rows =
     (if find (\<lambda>r. ct_scope r = scope) rows \<noteq> None
      then upd (\<lambda>r. ct_scope r = scope)
             (\<lambda>r. r\<lparr>ct_halted := True, ct_reason := reason, ct_epoch := ct_epoch r + 1, ct_updated_at := now\<rparr>) rows
      else rows @ [\<lparr>ct_scope = scope, ct_halted = True, ct_reason = reason, ct_epoch = 1, ct_updated_at = now\<rparr>])"

definition in_scope :: "string option \<Rightarrow> grant_row \<Rightarrow> bool" where
  "in_scope who r = (case who of None \<Rightarrow> True | Some p \<Rightarrow> gr_principal_id r = p)"

definition halt :: "cfg \<Rightarrow> string \<Rightarrow> string \<Rightarrow> bool \<Rightarrow> (sys, nat) op" where
  "halt c scope reason allow_unprovisioned =
     bindE (lift_sum (validate_control_scope scope)) (\<lambda>who.
     if list_all is_space reason then raise_exn ValueError
     else seqE (require_anchor c)
       (bindE (transaction (bindE store_now (\<lambda>now.
          bindE (read_db (\<lambda>d. case who of None \<Rightarrow> False | Some p \<Rightarrow> principal_grant_count d p = 0)) (\<lambda>unknown.
          if unknown \<and> \<not> allow_unprovisioned then raise_exn UnknownPrincipal
          else seqE (write_db (\<lambda>d. d\<lparr>controls := halt_control scope reason now (controls d),
                        grants := upd (in_scope who) (\<lambda>r. r\<lparr>gr_epoch := gr_epoch r + 1\<rparr>) (grants d)\<rparr>))
               (bindE (read_db (\<lambda>d. filter (in_scope who) (grants d))) (\<lambda>rows.
                bindE (record_rows c rows) (\<lambda>failed. ret (length rows, failed))))))))
        (\<lambda>(fenced, failed). if failed then raise_exn AnchorUnavailableAfterCommit else ret fenced)))"

definition resume :: "cfg \<Rightarrow> string \<Rightarrow> (sys, unit) op" where
  "resume c scope =
     bindE (lift_sum (validate_control_scope scope)) (\<lambda>_.
     seqE (require_anchor c)
     (transaction (bindE store_now (\<lambda>now.
        bindE (read_db (\<lambda>d. find (\<lambda>r. ct_scope r = scope) (controls d))) (\<lambda>row.
        if row = None then raise_exn KeyError
        else write_db (\<lambda>d. d\<lparr>controls := upd (\<lambda>r. ct_scope r = scope)
               (\<lambda>r. r\<lparr>ct_halted := False, ct_epoch := ct_epoch r + 1, ct_updated_at := now\<rparr>) (controls d)\<rparr>))))))"

definition is_halted :: "string \<Rightarrow> (sys, string option) op" where
  "is_halted who = read_db (\<lambda>d. active_halt d who)"

section \<open>What the operations change\<close>

lemma grant_key_eq: "grant_key gid v = (\<lambda>r. (gr_grant_id r, gr_version r) = (gid, v))"
  by (auto simp: grant_key_def)

text \<open>One row of the grant table is rewritten, without moving back.\<close>

lemma keeps_grant_update:
  assumes "grant_of (db s) gid v = Some r" and "grant_evolves r (f r)" and "anchor_evolves (anchor s) a"
    and "\<And>q. gr_grant_id (f q) = gr_grant_id q \<and> gr_version (f q) = gr_version q"
  shows "keeps s (s\<lparr>db := (db s)\<lparr>grants := upd (grant_key gid v) f (grants (db s))\<rparr>, anchor := a\<rparr>)"
proof (rule keepsI)
  assume ok: "db_ok (db s)"
  then have "grows grant_evolves (grants (db s)) (upd (grant_key gid v) f (grants (db s)))"
    unfolding grant_key_eq using assms(1,2)
    by (intro grows_upd_key) (auto simp: db_ok_def grant_of_def grant_key_eq evolves_refl)
  then show "db_evolves (db s) (db (s\<lparr>db := (db s)\<lparr>grants := upd (grant_key gid v) f (grants (db s))\<rparr>, anchor := a\<rparr>))"
    by (simp add: db_evolves_grants)
qed (use assms(3,4) in \<open>simp_all add: db_ok_grants\<close>)

lemma set_grant_status_txn_keeps: "guarantees keeps (set_grant_status_txn c who gid v status)"
proof -
  have step: "keeps s (s\<lparr>db := (db s)\<lparr>grants := upd (grant_key gid v)
        (\<lambda>q. q\<lparr>gr_status := st, gr_epoch := gr_epoch r + 1\<rparr>) (grants (db s))\<rparr>,
        anchor := rec_anchor c gid v k (anchor s)\<rparr>)"
    if "grant_of (db s) gid v = Some r" and "gr_status r = GS_REVOKED \<longrightarrow> st = GS_REVOKED" for s r k st
    using that by (intro keeps_grant_update [where r = r]) (auto simp: grant_evolves_def)
  show ?thesis
    unfolding guarantees_wp set_grant_status_txn_def
    by (auto simp: wp_simps step split: option.splits sum.splits)
qed

lemma set_grant_status_keeps: "guarantees keeps (set_grant_status c who gid v status)"
  unfolding set_grant_status_def by (intro keeps_rules set_grant_status_txn_keeps)

lemma next_execution_fence_keeps: "guarantees keeps (next_execution_fence c g)"
proof -
  have step: "keeps s (s\<lparr>db := (db s)\<lparr>grants := upd (grant_key gid v)
        (\<lambda>q. q\<lparr>gr_fence := gr_fence r + 1\<rparr>) (grants (db s))\<rparr>,
        anchor := rec_anchor c gid v k (anchor s)\<rparr>)"
    if "grant_of (db s) gid v = Some r" for s r k gid v
    using that by (intro keeps_grant_update [where r = r]) (auto simp: grant_evolves_def)
  show ?thesis
    unfolding guarantees_wp next_execution_fence_def
    by (auto simp: wp_simps step split: option.splits sum.splits)
qed

lemma provision_grant_keeps: "guarantees keeps (provision_grant c g h)"
proof -
  have step: "keeps s (s\<lparr>db := (db s)\<lparr>grants := grants (db s) @ [r]\<rparr>, anchor := rec_anchor c x y k (anchor s)\<rparr>)"
    if "grant_of (db s) (gr_grant_id r) (gr_version r) = None" for s r x y k
    using that
    by (intro keepsI) (auto simp: db_ok_def db_evolves_grants grows_append evolves_refl
        grant_of_def grant_key_def find_None_not_in)
  show ?thesis
    unfolding guarantees_wp provision_grant_def
    by (auto simp: wp_simps intro!: step split: option.splits sum.splits)
qed

lemma anchor_evolves_reset:
  assumes "read_res g v a = Inr m" and "mark_le m (Some k)"
  shows "anchor_evolves a (snd (reset_mark g v k a))"
proof -
  have "mark_le (high a g v) (Some k)" using read_res_value [OF assms(1)] assms(2) by simp
  then show ?thesis
    using any.reset_monotone [of g v k a] by (cases "reset_mark g v k a") (auto simp: anchor_evolves_def)
qed

lemma wp_reset_mark [wp_simps]:
  "wp (on_anchor_of (reset_mark g v k)) Q s =
     Q (fst (reset_mark g v k (anchor s))) (s\<lparr>anchor := snd (reset_mark g v k (anchor s))\<rparr>)"
  by (simp add: wp_def on_anchor_of_def split: prod.splits)

lemma revoke_after_restore_keeps: "guarantees keeps (revoke_after_restore c gid v)"
proof -
  have step: "keeps s (s\<lparr>db := (db s)\<lparr>grants := upd (grant_key gid v)
        (\<lambda>q. q\<lparr>gr_status := GS_REVOKED, gr_epoch := e, gr_fence := f\<rparr>) (grants (db s))\<rparr>, anchor := a\<rparr>)"
    if "grant_of (db s) gid v = Some r" "gr_epoch r < e" "gr_fence r \<le> f" "anchor_evolves (anchor s) a" for s r e f a
    using that by (intro keeps_grant_update [where r = r]) (auto simp: grant_evolves_def)
  have step0: "keeps s (s\<lparr>db := (db s)\<lparr>grants := upd (grant_key gid v)
        (\<lambda>q. q\<lparr>gr_status := GS_REVOKED, gr_epoch := e, gr_fence := f\<rparr>) (grants (db s))\<rparr>\<rparr>)"
    if "grant_of (db s) gid v = Some r" "gr_epoch r < e" "gr_fence r \<le> f" for s r e f
    using step [OF that, of "anchor s"] by simp
  have reset: "anchor_evolves (anchor s) (snd (reset_mark gid v (max i x + 1, max j y) (anchor s)))"
    if "read_res gid v (anchor s) = Inr (Some (x, y))" for s i j x y
    using that by (rule anchor_evolves_reset) auto
  have reset_none: "anchor_evolves (anchor s) (snd (reset_mark gid v k (anchor s)))"
    if "read_res gid v (anchor s) = Inr None" for s k
    using that by (rule anchor_evolves_reset) simp_all
  show ?thesis
    unfolding guarantees_wp revoke_after_restore_def
    by (auto simp: wp_simps Let_def intro!: step step0 intro: reset reset_none split: option.splits sum.splits)
qed

lemma wp_record_rows:
  assumes "\<And>b a. anchor_evolves (anchor s) a \<Longrightarrow> Q (Inr b) (s\<lparr>anchor := a\<rparr>)"
  shows "wp (record_rows c rows) Q s"
  using assms
proof (induction rows arbitrary: s)
  case Nil
  then show ?case by (simp add: wp_simps) (metis anchor_evolves_refl sys.surjective sys.update_convs(2))
next
  case (Cons row rows)
  let ?k = "(gr_epoch row, gr_fence row)"
  let ?a = "rec_anchor c (gr_grant_id row) (gr_version row) ?k (anchor s)"
  have "wp (record_rows c rows) Q (s\<lparr>anchor := ?a\<rparr>)"
    by (rule Cons.IH) (use Cons.prems anchor_evolves_trans [OF anchor_evolves_rec] in force)
  moreover have "Q (Inr True) (s\<lparr>anchor := ?a\<rparr>)" using Cons.prems by simp
  moreover have "wp (record_rows c (row # rows)) Q s =
      wp (anchor_record c (gr_grant_id row) (gr_version row) (gr_epoch row) (gr_fence row))
        (\<lambda>r t. case r of Inl e \<Rightarrow> Q (Inr True) t | Inr u \<Rightarrow> wp (record_rows c rows) Q t) s"
    by (auto simp: wp_def split: prod.splits sum.splits)
  ultimately show ?case by (simp add: wp_simps split: sum.splits)
qed

lemma halt_keeps: "guarantees keeps (halt c scope reason allow)"
proof -
  have step: "keeps s (s\<lparr>db := (db s)\<lparr>controls := ct, grants := upd P (\<lambda>r. r\<lparr>gr_epoch := gr_epoch r + 1\<rparr>) (grants (db s))\<rparr>,
        anchor := a\<rparr>)"
    if "anchor_evolves (anchor s) a" for s ct P a
    using that by (intro keepsI)
      (auto simp: db_ok_def map_upd_key db_evolves_def grows_refl evolves_refl grant_evolves_def intro!: grows_upd)
  show ?thesis
    unfolding guarantees_wp halt_def
    by (auto simp: wp_simps intro!: wp_record_rows step split: option.splits sum.splits)
qed

lemma resume_keeps: "guarantees keeps (resume c scope)"
  unfolding guarantees_wp resume_def by (auto simp: wp_simps keeps_def split: sum.splits)

lemma keeps_identity: "guarantees keeps (on_anchor_of identity)"
  using any.identity_reads
  by (fastforce simp: guarantees_def on_anchor_of_def keeps_def split: prod.splits)

lemma keeps_bind_identity: "guarantees keeps (on_anchor_of (bind_identity n))"
proof -
  have "anchor_evolves a b" if "bind_identity n a = (r, b)" for a b r
    using any.bind_keeps_marks [OF that] by (simp add: anchor_evolves_def)
  then show ?thesis
    by (auto simp: guarantees_def on_anchor_of_def split: prod.splits)
qed

lemma raise_marks_behind_keeps: "guarantees keeps (raise_marks_behind rows)"
proof (induction rows)
  case (Cons r rows)
  have record_step: "keeps s (s\<lparr>anchor := b\<rparr>)" if "record_mark g v k (anchor s) = (q, b)" for s g v k q b
    using any.record_monotone [OF that] by (simp add: anchor_evolves_def)
  have rest: "keeps s (snd (raise_marks_behind rows t))" if "keeps s t" for s t
    using Cons.IH that by (auto simp: guarantees_def intro: keeps_trans)
  show ?case
    unfolding guarantees_def
    by (auto simp: on_anchor_of_high_water on_anchor_of_def [of "record_mark g v k" for g v k]
        intro!: rest record_step split: sum.splits prod.splits)
qed (simp add: keeps_rules)

lemma keeps_settings:
  "guarantees keeps (write_db (\<lambda>d. d\<lparr>set_anchor_id := f d\<rparr>))"
  "guarantees keeps (write_db (\<lambda>d. d\<lparr>set_anchor_required := b\<rparr>))"
  "guarantees keeps (write_db (\<lambda>d. d\<lparr>set_heads_since := n\<rparr>))"
  by (simp_all add: guarantees_wp wp_simps keeps_def)

lemma open_store_keeps: "guarantees keeps (open_store has_anchor key fresh inst host pid L)"
  unfolding open_store_def bind_anchor_setting_def bind_heads_since_def raise_anchor_marks_behind_rows_def
  by (intro keeps_rules keeps_settings keeps_identity keeps_bind_identity raise_marks_behind_keeps)

end
