(* ===== verification/Store_Usage.thy ===== *)
theory Store_Usage
  imports Store_Grants
begin

text \<open>
  \<open>faar/store.py\<close>, budgets: the atomic reservation of turnover and action velocity, the
  risk-state ledger it claims from, the operator's exposure caps, and the release and
  commit of a reservation.
\<close>

section \<open>Exposure caps\<close>

text \<open>\<open>_exposure_caps_locked\<close>: an unreadable stored cap is \<open>None\<close>.\<close>

definition exposure_caps_of :: "db \<Rightarrow> string \<Rightarrow> (string \<times> decimal option) list" where
  "exposure_caps_of d who =
     map (\<lambda>r. (xc_scope r, parse_bounded_decimal (PStr (xc_max r))))
       (filter (\<lambda>r. xc_scope r = GLOBAL_CONTROL_SCOPE \<or> xc_scope r = PRINCIPAL_CONTROL_PREFIX @ who) (caps d))"

definition put_cap :: "string \<Rightarrow> string \<Rightarrow> time \<Rightarrow> cap_row list \<Rightarrow> cap_row list" where
  "put_cap scope text now rows =
     (if find (\<lambda>r. xc_scope r = scope) rows \<noteq> None
      then upd (\<lambda>r. xc_scope r = scope) (\<lambda>r. r\<lparr>xc_max := text, xc_updated_at := now\<rparr>) rows
      else rows @ [\<lparr>xc_scope = scope, xc_max = text, xc_updated_at = now\<rparr>])"

text \<open>
  \<open>set_exposure_cap\<close>; \<open>PNone\<close> clears the cap. A tightening commits even when the anchor
  cannot be written, and reports it; a loosening or a removal does not.
\<close>

definition is_tightening :: "decimal option \<Rightarrow> decimal option \<Rightarrow> bool" where
  "is_tightening new previous = (case new of None \<Rightarrow> False
     | Some n \<Rightarrow> (case previous of None \<Rightarrow> True | Some p \<Rightarrow> dlt n p))"

definition parse_cap :: "pyval \<Rightarrow> exn + decimal option" where
  "parse_cap amount =
     (if amount = PNone then Inr None
      else (case parse_bounded_decimal amount of
              None \<Rightarrow> Inl ValueError
            | Some d \<Rightarrow> if dle d dzero then Inl ValueError else Inr (Some d)))"

definition stored_cap :: "db \<Rightarrow> string \<Rightarrow> decimal option" where
  "stored_cap d scope = (case find (\<lambda>r. xc_scope r = scope) (caps d) of
     None \<Rightarrow> None | Some r \<Rightarrow> parse_bounded_decimal (PStr (xc_max r)))"

definition scope_matched :: "string option \<Rightarrow> db \<Rightarrow> nat" where
  "scope_matched who d = (case who of None \<Rightarrow> length (grants d) | Some p \<Rightarrow> principal_grant_count d p)"

text \<open>The version of the cap table moves past both the database's and the anchor's.\<close>

definition bump_caps_version :: "cfg \<Rightarrow> bool \<Rightarrow> (sys, bool) op" where
  "bump_caps_version c tightening =
     bindE (if c_has_anchor c then on_anchor_of (high_water EXPOSURE_CAPS_ANCHOR_KEY 0) else ret None) (\<lambda>m.
     bindE (read_db (\<lambda>d. max (set_caps_version d) (case m of None \<Rightarrow> 0 | Some k \<Rightarrow> fst k) + 1)) (\<lambda>version.
     seqE (write_db (\<lambda>d. d\<lparr>set_caps_version := version\<rparr>))
       (if c_has_anchor c
        then catch (seqE (on_anchor_of (record_mark EXPOSURE_CAPS_ANCHOR_KEY 0 (version, 0))) (ret False))
               (\<lambda>e. if \<not> tightening then raise_exn e else ret True)
        else ret False)))"

definition set_cap_txn :: "cfg \<Rightarrow> string \<Rightarrow> string option \<Rightarrow> decimal option \<Rightarrow> bool \<Rightarrow> (sys, nat \<times> bool) op" where
  "set_cap_txn c scope who cap allow_unprovisioned =
     bindE store_now (\<lambda>now.
     bindE (read_db (\<lambda>d. (scope_matched who d, stored_cap d scope))) (\<lambda>(matched, previous).
       if who \<noteq> None \<and> matched = 0 \<and> \<not> allow_unprovisioned then raise_exn UnknownPrincipal
       else seqE (write_db (\<lambda>d. d\<lparr>caps := (case cap of
                     None \<Rightarrow> filter (\<lambda>r. xc_scope r \<noteq> scope) (caps d)
                   | Some n \<Rightarrow> put_cap scope (format_f n) now (caps d))\<rparr>))
            (bindE (bump_caps_version c (is_tightening cap previous)) (\<lambda>failed. ret (matched, failed)))))"

definition set_exposure_cap :: "cfg \<Rightarrow> string \<Rightarrow> pyval \<Rightarrow> bool \<Rightarrow> (sys, nat) op" where
  "set_exposure_cap c scope amount allow_unprovisioned =
     bindE (lift_sum (validate_control_scope scope)) (\<lambda>who.
     seqE (require_anchor c)
     (bindE (lift_sum (parse_cap amount)) (\<lambda>cap.
      bindE (transaction (set_cap_txn c scope who cap allow_unprovisioned)) (\<lambda>(matched, failed).
        if failed then raise_exn AnchorUnavailableAfterCommit else ret matched))))"

text \<open>
  \<open>_exposure_caps_regressed_locked\<close>, as \<open>reserve_usage\<close> uses it: an unavailable anchor
  counts as regressed, any other failure of the anchor escapes.
\<close>

definition exposure_caps_regressed :: "cfg \<Rightarrow> (sys, bool) op" where
  "exposure_caps_regressed c =
     (if \<not> c_has_anchor c then ret False
      else bindE (read_db set_caps_version) (\<lambda>version.
           bindE (on_anchor_of (high_water EXPOSURE_CAPS_ANCHOR_KEY 0)) (\<lambda>m.
             ret (regressed (version, 0) m))))"

section \<open>Windows\<close>

definition counted :: "usage_row \<Rightarrow> bool" where
  "counted r \<longleftrightarrow> us_status r = HELD \<or> us_status r = COMMITTED"

definition since :: "usage_row \<Rightarrow> int \<Rightarrow> bool" where
  "since r ts = (case us_velocity_ts r of None \<Rightarrow> False | Some t \<Rightarrow> ts \<le> t)"

definition own_or_legacy :: "string \<Rightarrow> string \<Rightarrow> bool" where
  "own_or_legacy who p \<longleftrightarrow> p = who \<or> p = LEGACY_PRINCIPAL_ID"

text \<open>\<open>_scope_turnover_locked\<close>.\<close>

definition scope_turnover :: "db \<Rightarrow> string \<Rightarrow> string \<Rightarrow> int \<Rightarrow> decimal" where
  "scope_turnover d scope who ts =
     dec_sum (map us_amount (filter (\<lambda>r. counted r \<and> since r ts \<and>
        (scope = GLOBAL_CONTROL_SCOPE \<or> us_principal_id r = who)) (usage d)))"

text \<open>The rows of the turnover window of a grant, over all of its versions.\<close>

definition turnover_rows :: "db \<Rightarrow> string \<Rightarrow> string \<Rightarrow> int \<Rightarrow> string \<Rightarrow> usage_row list" where
  "turnover_rows d gid who ts day =
     filter (\<lambda>r. us_grant_id r = gid \<and> own_or_legacy who (us_principal_id r) \<and> counted r \<and>
        (case us_velocity_ts r of None \<Rightarrow> us_day_key r = day | Some t \<Rightarrow> ts \<le> t)) (usage d)"

text \<open>\<open>_action_velocity_count_locked\<close>: attempts made, plus reservations not yet submitted.\<close>

definition attempted_actions :: "db \<Rightarrow> string \<Rightarrow> string \<Rightarrow> int \<Rightarrow> int" where
  "attempted_actions d gid who ts =
     sum_list (map sa_count (filter (\<lambda>r. sa_grant_id r = gid \<and> own_or_legacy who (sa_principal_id r)
        \<and> ts \<le> sa_attempted_at r) (attempts d)))"

definition pending_actions :: "db \<Rightarrow> string \<Rightarrow> string \<Rightarrow> int \<Rightarrow> string option \<Rightarrow> int" where
  "pending_actions d gid who ts excluded =
     int (length (filter (\<lambda>r. us_grant_id r = gid \<and> own_or_legacy who (us_principal_id r) \<and> since r ts
        \<and> \<not> us_submitted r \<and> counted r \<and> excluded \<noteq> Some (us_intent_id r)) (usage d)))"

definition action_velocity_count :: "db \<Rightarrow> string \<Rightarrow> string \<Rightarrow> int \<Rightarrow> string option \<Rightarrow> int" where
  "action_velocity_count d gid who ts excluded =
     attempted_actions d gid who ts + pending_actions d gid who ts excluded"

section \<open>Risk-state ledgers\<close>

definition claim_at :: "claim_row list \<Rightarrow> string \<Rightarrow> int \<Rightarrow> string \<Rightarrow> int \<Rightarrow> claim_row option" where
  "claim_at rows gid v scope n = find (\<lambda>r. claim_key r = (gid, v, scope, n)) rows"

definition versions_claimed :: "claim_row list \<Rightarrow> string \<Rightarrow> int \<Rightarrow> string \<Rightarrow> int list" where
  "versions_claimed rows gid v scope =
     map cl_state_version (filter (\<lambda>r. cl_grant_id r = gid \<and> cl_grant_version r = v \<and> cl_scope r = scope) rows)"

text \<open>\<open>ceilings and state_version < max(ceilings)\<close> over both ledgers.\<close>

definition below_ceiling :: "db \<Rightarrow> string \<Rightarrow> int \<Rightarrow> string \<Rightarrow> int \<Rightarrow> bool" where
  "below_ceiling d gid v scope n \<longleftrightarrow>
     list_ex (\<lambda>m. n < m) (versions_claimed (risk_claims d) gid v scope @ versions_claimed (permit_claims d) gid v scope)"

definition claimed_by_other :: "claim_row option \<Rightarrow> string \<Rightarrow> bool" where
  "claimed_by_other row iid = (case row of None \<Rightarrow> False | Some r \<Rightarrow> cl_intent_id r \<noteq> iid)"

section \<open>Reservation\<close>

definition reservation_amount :: "intent \<Rightarrow> decimal option" where
  "reservation_amount i =
     (if \<not> is_monetary (i_primitive i) then Some dzero
      else (case parse_bounded_decimal (amount_raw (i_payload i)) of
              None \<Rightarrow> None
            | Some a \<Rightarrow> if dle a dzero then None else Some a))"

definition claim_reasons :: "db \<Rightarrow> intent \<Rightarrow> capability_grant \<Rightarrow> risk_snapshot \<Rightarrow> string list" where
  "claim_reasons d i g r =
     (let held = (\<lambda>rows. claim_at rows (g_grant_id g) (g_version g) (rs_scope r) (rs_state_version r)) in
      (if claimed_by_other (held (risk_claims d)) (i_intent_id i) \<or> claimed_by_other (held (permit_claims d)) (i_intent_id i)
       then [''RISK_STATE_VERSION_ALREADY_CLAIMED''] else []) @
      (if below_ceiling d (g_grant_id g) (g_version g) (rs_scope r) (rs_state_version r)
       then [''RISK_STATE_VERSION_NOT_MONOTONIC''] else []))"

definition turnover_reasons :: "db \<Rightarrow> capability_grant \<Rightarrow> decimal \<Rightarrow> time \<Rightarrow> string list" where
  "turnover_reasons d g amount now =
     (case max_daily_turnover_usd (g_limits g) of
        None \<Rightarrow> []
      | Some limit \<Rightarrow>
          let current = dec_sum (map us_amount (turnover_rows d (g_grant_id g) (g_principal_id g)
                 (epoch_seconds now - TURNOVER_WINDOW_SECONDS) (date_isoformat now)))
          in if dlt limit (dec_add current amount) then [''ATOMIC_DAILY_TURNOVER_EXCEEDED''] else [])"

text \<open>The loop over the exposure caps: it ends at the first unreadable or exceeded cap.\<close>

fun cap_reasons :: "db \<Rightarrow> string \<Rightarrow> decimal \<Rightarrow> int \<Rightarrow> (string \<times> decimal option) list \<Rightarrow> string list" where
  "cap_reasons d who amount ts [] = []"
| "cap_reasons d who amount ts ((scope, cap) # rest) =
     (case cap of
        None \<Rightarrow> [''EXPOSURE_CAP_UNREADABLE'']
      | Some m \<Rightarrow>
          if dle m dzero then [''EXPOSURE_CAP_UNREADABLE'']
          else if dle amount dzero then cap_reasons d who amount ts rest
          else if dlt m (dec_add (scope_turnover d scope who (ts - TURNOVER_WINDOW_SECONDS)) amount)
            then [''EXPOSURE_CAP_EXCEEDED'']
          else cap_reasons d who amount ts rest)"

definition velocity_reasons :: "db \<Rightarrow> capability_grant \<Rightarrow> time \<Rightarrow> string list" where
  "velocity_reasons d g now =
     (case (max_actions_per_window (g_limits g), action_window_seconds (g_limits g)) of
        (Some n, Some w) \<Rightarrow>
          if w \<noteq> 0 \<and> action_velocity_count d (g_grant_id g) (g_principal_id g) (epoch_seconds now - w) None + 1 > n
          then [''ATOMIC_ACTION_VELOCITY_EXCEEDED''] else []
      | _ \<Rightarrow> [])"

definition velocity_bucket :: "capability_grant \<Rightarrow> time \<Rightarrow> int option" where
  "velocity_bucket g now = (case action_window_seconds (g_limits g) of
     None \<Rightarrow> None | Some w \<Rightarrow> if w = 0 then None else Some (epoch_seconds now div w))"

definition new_claim :: "intent \<Rightarrow> capability_grant \<Rightarrow> risk_snapshot \<Rightarrow> time \<Rightarrow> claim_row" where
  "new_claim i g r ts =
     \<lparr>cl_principal_id = i_principal_id i, cl_grant_id = g_grant_id g, cl_grant_version = g_version g,
      cl_scope = rs_scope r, cl_state_version = rs_state_version r, cl_intent_id = i_intent_id i,
      cl_created_at = ts\<rparr>"

definition new_usage :: "intent \<Rightarrow> capability_grant \<Rightarrow> decimal \<Rightarrow> time \<Rightarrow> time \<Rightarrow> usage_row" where
  "new_usage i g amount now ts =
     \<lparr>us_intent_id = i_intent_id i, us_principal_id = i_principal_id i, us_grant_id = g_grant_id g,
      us_grant_version = g_version g, us_day_key = date_isoformat now,
      us_velocity_bucket = velocity_bucket g now, us_velocity_ts = Some (epoch_seconds now),
      us_max_actions = max_actions_per_window (g_limits g), us_window = action_window_seconds (g_limits g),
      us_amount = reread_f amount, us_status = HELD, us_submitted = False,
      us_created_at = ts, us_updated_at = ts\<rparr>"

text \<open>The risk ledger's constraints: its primary key, and one claim per intent.\<close>

definition claim_insertable :: "db \<Rightarrow> claim_row \<Rightarrow> bool" where
  "claim_insertable d r \<longleftrightarrow>
     list_all (\<lambda>q. claim_key q \<noteq> claim_key r \<and> cl_intent_id q \<noteq> cl_intent_id r) (risk_claims d)"

definition reserve_usage ::
    "cfg \<Rightarrow> intent \<Rightarrow> capability_grant \<Rightarrow> risk_snapshot \<Rightarrow> time \<Rightarrow> (sys, bool \<times> string list) op" where
  "reserve_usage c i g r now =
     (case reservation_amount i of
        None \<Rightarrow> ret (False, [''USAGE_AMOUNT_INVALID''])
      | Some amount \<Rightarrow> transaction (
          bindE (read_db (\<lambda>d. find (\<lambda>u. us_intent_id u = i_intent_id i) (usage d))) (\<lambda>existing.
          case existing of
            Some u \<Rightarrow>
              if us_principal_id u \<noteq> i_principal_id i then ret (False, [''INTENT_NAMESPACE_CONFLICT''])
              else ret (True, [])
          | None \<Rightarrow>
              bindE (if dlt dzero amount
                     then catch (exposure_caps_regressed c) (\<lambda>e. if e = AnchorUnavailable then ret True else raise_exn e)
                     else ret False) (\<lambda>caps_regressed.
              bindE (read_db (\<lambda>d. claim_reasons d i g r @ turnover_reasons d g amount now @
                       (if caps_regressed then [''EXPOSURE_CAPS_REGRESSED''] else []) @
                       cap_reasons d (i_principal_id i) amount (epoch_seconds now) (exposure_caps_of d (i_principal_id i)) @
                       velocity_reasons d g now)) (\<lambda>reasons.
              if reasons \<noteq> [] then ret (False, reasons)
              else bindE store_now (\<lambda>ts.
                bindE (read_db (\<lambda>d. claim_insertable d (new_claim i g r ts))) (\<lambda>ok.
                if \<not> ok then raise_exn IntegrityError
                else seqE (write_db (\<lambda>d. d\<lparr>risk_claims := risk_claims d @ [new_claim i g r ts],
                                          usage := usage d @ [new_usage i g amount now ts]\<rparr>))
                     (ret (True, [])))))))))"

section \<open>Settling a reservation\<close>

definition settle_usage :: "usage_status \<Rightarrow> string \<Rightarrow> time \<Rightarrow> db \<Rightarrow> db" where
  "settle_usage st iid ts d =
     d\<lparr>usage := upd (\<lambda>u. us_intent_id u = iid \<and> us_status u = HELD)
         (\<lambda>u. u\<lparr>us_status := st, us_updated_at := ts\<rparr>) (usage d)\<rparr>"

definition commit_usage :: "string \<Rightarrow> (sys, unit) op" where
  "commit_usage iid = bindE store_now (\<lambda>ts. write_db (settle_usage COMMITTED iid ts))"

definition release_usage :: "string \<Rightarrow> (sys, unit) op" where
  "release_usage iid = bindE store_now (\<lambda>ts. write_db (settle_usage RELEASED iid ts))"

definition verify_usage_held :: "intent \<Rightarrow> capability_grant \<Rightarrow> (sys, bool) op" where
  "verify_usage_held i g =
     read_db (\<lambda>d. case find (\<lambda>u. us_intent_id u = i_intent_id i) (usage d) of
        None \<Rightarrow> False
      | Some u \<Rightarrow> us_principal_id u = i_principal_id i \<and> i_principal_id i = g_principal_id g
          \<and> us_grant_id u = g_grant_id g \<and> us_grant_version u = g_version g \<and> us_status u = HELD)"

section \<open>What the operations change\<close>

lemma settle_usage_keeps: "keeps s (s\<lparr>db := settle_usage st iid ts (db s)\<rparr>)"
  by (intro keepsI) (auto simp: settle_usage_def db_ok_usage usage_evolves_def usage_core_def
      intro!: db_evolves_usage grows_upd)

lemma commit_usage_keeps: "guarantees keeps (commit_usage iid)"
  by (simp add: guarantees_wp commit_usage_def wp_simps settle_usage_keeps)

lemma release_usage_keeps: "guarantees keeps (release_usage iid)"
  by (simp add: guarantees_wp release_usage_def wp_simps settle_usage_keeps)

lemma wp_exposure_caps_regressed [wp_simps]:
  "wp (exposure_caps_regressed c) Q s =
     (if \<not> c_has_anchor c then Q (Inr False) s
      else case read_res EXPOSURE_CAPS_ANCHOR_KEY 0 (anchor s) of
        Inl e \<Rightarrow> Q (Inl e) s | Inr m \<Rightarrow> Q (Inr (regressed (set_caps_version (db s), 0) m)) s)"
  by (auto simp: exposure_caps_regressed_def wp_simps split: sum.splits)

lemma keeps_reservation:
  assumes "find (\<lambda>u. us_intent_id u = i_intent_id i) (usage (db s)) = None"
    and "claim_insertable (db s) (new_claim i g r ts)"
  shows "keeps s (s\<lparr>db := (db s)\<lparr>risk_claims := risk_claims (db s) @ [new_claim i g r ts],
      usage := usage (db s) @ [new_usage i g amount now ts]\<rparr>\<rparr>)"
  using assms
  by (intro keepsI) (auto simp: db_ok_def db_evolves_def grows_refl grows_append evolves_refl
      find_None_not_in claim_insertable_def list_all_iff new_usage_def new_claim_def)

lemma reserve_usage_keeps: "guarantees keeps (reserve_usage c i g r now)"
  unfolding guarantees_wp reserve_usage_def
  by (auto simp: wp_simps keeps_reservation split: option.splits sum.splits)

lemma wp_record_mark [wp_simps]:
  "wp (on_anchor_of (record_mark g v k)) Q s =
     Q (fst (record_mark g v k (anchor s))) (s\<lparr>anchor := snd (record_mark g v k (anchor s))\<rparr>)"
  by (simp add: wp_def on_anchor_of_def split: prod.splits)

lemma anchor_evolves_record [simp]: "anchor_evolves a (snd (record_mark g v k a))"
  using any.record_monotone [of g v k a] by (cases "record_mark g v k a") (auto simp: anchor_evolves_def)

lemma bump_caps_version_effect:
  assumes "\<And>r n a. set_caps_version (db s) \<le> n \<Longrightarrow> anchor_evolves (anchor s) a \<Longrightarrow>
      Q r (s\<lparr>db := (db s)\<lparr>set_caps_version := n\<rparr>, anchor := a\<rparr>)"
    and "\<And>e. Q (Inl e) s"
  shows "wp (bump_caps_version c tight) Q s"
  unfolding bump_caps_version_def
  using assms(1) [of _ "anchor s"]
  by (auto simp: wp_simps assms split: option.splits sum.splits)

lemma set_exposure_cap_keeps: "guarantees keeps (set_exposure_cap c scope amount allow)"
proof -
  have "keeps s (s\<lparr>db := (db s)\<lparr>caps := x, set_caps_version := n\<rparr>, anchor := a\<rparr>)"
    if "set_caps_version (db s) \<le> n" "anchor_evolves (anchor s) a" for s x n a
    using that by (intro keepsI) (auto simp: db_evolves_def grows_refl evolves_refl)
  then have "guarantees keeps (set_cap_txn c scope who cap allow)" for who cap
    unfolding guarantees_wp set_cap_txn_def
    by (auto simp: wp_simps keeps_def split: sum.splits intro!: bump_caps_version_effect)
  then show ?thesis unfolding set_exposure_cap_def by (intro keeps_rules)
qed

end
