(* ===== verification/Store_Permits.thy ===== *)
theory Store_Permits
  imports Store_Usage
begin

text \<open>
  \<open>faar/store.py\<close>, the permit ledger: claiming the risk state a permit is minted from,
  recording a permit together with the intent's ambiguity window, consuming it, and
  voiding what was not consumed.

  The theorems say when a consumption succeeds, exactly, and that it happens at most once.
\<close>

section \<open>Risk state of a permit\<close>

definition usage_held :: "db \<Rightarrow> intent \<Rightarrow> capability_grant \<Rightarrow> bool" where
  "usage_held d i g = (case find (\<lambda>u. us_intent_id u = i_intent_id i) (usage d) of
     None \<Rightarrow> False
   | Some u \<Rightarrow> us_principal_id u = i_principal_id i \<and> i_principal_id i = g_principal_id g
       \<and> us_grant_id u = g_grant_id g \<and> us_grant_version u = g_version g \<and> us_status u = HELD)"

definition claim_permit_risk_state ::
    "intent \<Rightarrow> capability_grant \<Rightarrow> risk_snapshot \<Rightarrow> (sys, bool \<times> string list) op" where
  "claim_permit_risk_state i g r = transaction (
     bindE (read_db (\<lambda>d. (usage_held d i g,
        claim_at (permit_claims d) (g_grant_id g) (g_version g) (rs_scope r) (rs_state_version r),
        below_ceiling d (g_grant_id g) (g_version g) (rs_scope r) (rs_state_version r)))) (\<lambda>(held, prior, below).
     if \<not> held then ret (False, [''PERMIT_RISK_USAGE_NOT_HELD''])
     else case prior of
       Some q \<Rightarrow>
         if cl_principal_id q \<noteq> i_principal_id i \<or> cl_intent_id q \<noteq> i_intent_id i
         then ret (False, [''PERMIT_RISK_STATE_VERSION_ALREADY_CLAIMED''])
         else ret (True, [])
     | None \<Rightarrow>
         if below then ret (False, [''PERMIT_RISK_STATE_VERSION_NOT_MONOTONIC''])
         else bindE store_now (\<lambda>ts.
           seqE (write_db (\<lambda>d. d\<lparr>permit_claims := permit_claims d @ [new_claim i g r ts]\<rparr>)) (ret (True, [])))))"

section \<open>Recording a permit\<close>

definition is_live :: "capability_grant \<Rightarrow> time \<Rightarrow> permit_row \<Rightarrow> bool" where
  "is_live g now p \<longleftrightarrow>
     pr_consumed_at p = None \<and> pr_voided_at p = None \<and>
     (case pr_expires_at p of None \<Rightarrow> False | Some e \<Rightarrow> e + secs (max_clock_skew_seconds (g_limits g)) > now)"

text \<open>\<open>_live_permits_locked\<close>.\<close>

definition live_permits :: "db \<Rightarrow> string \<Rightarrow> capability_grant \<Rightarrow> time \<Rightarrow> string list" where
  "live_permits d iid g now =
     map pr_permit_id (filter (\<lambda>p. pr_intent_id p = iid \<and> is_live g now p) (permits d))"

definition permit_insertable :: "db \<Rightarrow> permit_row \<Rightarrow> bool" where
  "permit_insertable d p \<longleftrightarrow>
     list_all (\<lambda>q. pr_permit_id q \<noteq> pr_permit_id p \<and> fence_key q \<noteq> fence_key p) (permits d)"

definition record_execution_permit ::
    "string \<Rightarrow> intent \<Rightarrow> capability_grant \<Rightarrow> int \<Rightarrow> int \<Rightarrow> string \<Rightarrow> time option \<Rightarrow> time option \<Rightarrow> (sys, unit) op" where
  "record_execution_permit pid i g epoch fence h expires now = transaction (
     bindE (read_db (\<lambda>d. case now of None \<Rightarrow> [] | Some t \<Rightarrow> live_permits d (i_intent_id i) g t)) (\<lambda>live.
     if live \<noteq> [] then raise_exn PermitConflict
     else bindE store_now (\<lambda>ts.
       let row = \<lparr>pr_permit_id = pid, pr_intent_id = i_intent_id i, pr_principal_id = i_principal_id i,
                  pr_grant_id = g_grant_id g, pr_grant_version = g_version g, pr_grant_epoch = epoch,
                  pr_fence = fence, pr_hash = h, pr_issued_at = ts, pr_expires_at = expires,
                  pr_consumed_at = None, pr_voided_at = None\<rparr> in
       bindE (read_db (\<lambda>d. permit_insertable d row)) (\<lambda>ok.
       if \<not> ok then raise_exn IntegrityError
       else seqE (write_db (\<lambda>d. d\<lparr>permits := permits d @ [row]\<rparr>))
            (case expires of None \<Rightarrow> ret ()
             | Some e \<Rightarrow> write_db (\<lambda>d. d\<lparr>intents := upd (\<lambda>r. it_intent_id r = i_intent_id i)
                            (\<lambda>r. r\<lparr>it_ambiguity_until := Some e\<rparr>) (intents d)\<rparr>))))))"

section \<open>Consuming a permit\<close>

definition permit_of :: "db \<Rightarrow> string \<Rightarrow> permit_row option" where
  "permit_of d pid = find (\<lambda>p. pr_permit_id p = pid) (permits d)"

text \<open>A permit of the same intent with a larger rowid.\<close>

definition superseded :: "db \<Rightarrow> permit_row \<Rightarrow> bool" where
  "superseded d p \<longleftrightarrow>
     list_ex (\<lambda>q. pr_intent_id q = pr_intent_id p)
       (drop 1 (dropWhile (\<lambda>q. pr_permit_id q \<noteq> pr_permit_id p) (permits d)))"

definition consume_reasons :: "cfg \<Rightarrow> string \<Rightarrow> int \<Rightarrow> bool \<Rightarrow> exn + bool \<Rightarrow> grant_row \<Rightarrow> string list" where
  "consume_reasons c who epoch halted behind g =
     (if gr_principal_id g \<noteq> who then [''PERMIT_GRANT_PRINCIPAL_MISMATCH''] else []) @
     (if gr_status g \<noteq> GS_ACTIVE then [''PERMIT_GRANT_NOT_ACTIVE''] else []) @
     (if gr_epoch g \<noteq> epoch then [''PERMIT_GRANT_EPOCH_STALE''] else []) @
     (if halted then [''PERMIT_HALTED''] else []) @
     (if anchor_missing c then [''PERMIT_ANCHOR_REQUIRED'']
      else case behind of Inl e \<Rightarrow> [''PERMIT_ANCHOR_UNAVAILABLE'']
        | Inr b \<Rightarrow> if b then [''PERMIT_AUTHORITY_REGRESSED''] else [])"

text \<open>The two updates of a consumption, and the anchor write before the commit.\<close>

definition consumed_db :: "string \<Rightarrow> string \<Rightarrow> int \<Rightarrow> time \<Rightarrow> db \<Rightarrow> db" where
  "consumed_db pid gid v ts d = d\<lparr>
     permits := upd (\<lambda>q. pr_permit_id q = pid \<and> pr_consumed_at q = None) (\<lambda>q. q\<lparr>pr_consumed_at := Some ts\<rparr>) (permits d),
     grants := upd (grant_key gid v) (\<lambda>q. q\<lparr>gr_fence := gr_fence q + 1\<rparr>) (grants d)\<rparr>"

definition commit_consumption :: "cfg \<Rightarrow> string \<Rightarrow> string \<Rightarrow> int \<Rightarrow> int \<Rightarrow> (sys, bool \<times> string list) op" where
  "commit_consumption c pid gid v epoch =
     bindE store_now (\<lambda>ts.
     seqE (write_db (consumed_db pid gid v ts))
     (bindE (read_db (\<lambda>d. case grant_of d gid v of None \<Rightarrow> 0 | Some q \<Rightarrow> gr_fence q)) (\<lambda>new_fence.
      seqE (anchor_record c gid v epoch new_fence) (ret (True, [])))))"

definition consume_execution_permit ::
    "cfg \<Rightarrow> string \<Rightarrow> string \<Rightarrow> string \<Rightarrow> int \<Rightarrow> int \<Rightarrow> int \<Rightarrow> string \<Rightarrow> (sys, bool \<times> string list) op" where
  "consume_execution_permit c pid who gid v epoch fence h = transaction (
     bindE (read_db (\<lambda>d. (permit_of d pid, grant_of d gid v, active_halt d who \<noteq> None))) (\<lambda>(row, grow, halted).
     case row of
       None \<Rightarrow> ret (False, [''PERMIT_NOT_RECORDED''])
     | Some p \<Rightarrow>
       if \<not> (pr_principal_id p = who \<and> pr_grant_id p = gid \<and> pr_grant_version p = v
             \<and> pr_grant_epoch p = epoch \<and> pr_fence p = fence \<and> pr_hash p = h)
       then ret (False, [''PERMIT_LEDGER_BINDING_MISMATCH''])
       else if pr_consumed_at p \<noteq> None then ret (False, [''PERMIT_ALREADY_CONSUMED''])
       else if pr_voided_at p \<noteq> None then ret (False, [''PERMIT_VOIDED''])
       else bindE (read_db (\<lambda>d. superseded d p)) (\<lambda>sup.
       if sup then ret (False, [''PERMIT_SUPERSEDED''])
       else case grow of
         None \<Rightarrow> ret (False, [''PERMIT_GRANT_CONTROL_UNAVAILABLE''])
       | Some g \<Rightarrow>
         bindE (if anchor_missing c then ret (Inr False)
                else catch (bindE (anchor_regressed c gid v (gr_epoch g) (gr_fence g)) (\<lambda>b. ret (Inr b)))
                       (\<lambda>e. ret (Inl e))) (\<lambda>behind.
         let reasons = consume_reasons c who epoch halted behind g in
         if reasons \<noteq> [] then ret (False, reasons)
         else commit_consumption c pid gid v epoch))))"

section \<open>Voiding and counting\<close>

definition voidable :: "string \<Rightarrow> permit_row \<Rightarrow> bool" where
  "voidable iid p \<longleftrightarrow> pr_intent_id p = iid \<and> pr_consumed_at p = None \<and> pr_voided_at p = None"

definition void_unconsumed_permits :: "string \<Rightarrow> (sys, int) op" where
  "void_unconsumed_permits iid = transaction (
     bindE store_now (\<lambda>ts.
     bindE (read_db (\<lambda>d. int (length (filter (voidable iid) (permits d))))) (\<lambda>n.
     seqE (write_db (\<lambda>d. d\<lparr>permits := upd (voidable iid) (\<lambda>p. p\<lparr>pr_voided_at := Some ts\<rparr>) (permits d)\<rparr>))
       (ret n))))"

definition voided_permit_count :: "string \<Rightarrow> (sys, int) op" where
  "voided_permit_count iid =
     read_db (\<lambda>d. int (length (filter (\<lambda>p. pr_intent_id p = iid \<and> pr_voided_at p \<noteq> None) (permits d))))"

definition permit_counts :: "string \<Rightarrow> (sys, int \<times> int) op" where
  "permit_counts iid =
     read_db (\<lambda>d. let ps = filter (\<lambda>p. pr_intent_id p = iid) (permits d)
        in (int (length ps), int (length (filter (\<lambda>p. pr_consumed_at p \<noteq> None) ps))))"

section \<open>What the operations change\<close>

lemma claim_at_None:
  "claim_at rows gid v scope n = None \<longleftrightarrow> (\<forall>r \<in> set rows. claim_key r \<noteq> (gid, v, scope, n))"
  by (auto simp: claim_at_def find_None_not_in)

lemma claim_permit_risk_state_keeps: "guarantees keeps (claim_permit_risk_state i g r)"
proof -
  have "keeps s (s\<lparr>db := (db s)\<lparr>permit_claims := permit_claims (db s) @ [new_claim i g r ts]\<rparr>\<rparr>)"
    if "claim_at (permit_claims (db s)) (g_grant_id g) (g_version g) (rs_scope r) (rs_state_version r) = None" for s ts
    using that by (intro keepsI) (auto simp: db_ok_def db_evolves_def grows_refl grows_append evolves_refl
        claim_at_None new_claim_def claim_key_def)
  then show ?thesis
    unfolding guarantees_wp claim_permit_risk_state_def by (auto simp: wp_simps split: option.splits)
qed

lemma db_ok_intents_ambiguity:
  "db_ok (d\<lparr>intents := upd P (\<lambda>r. r\<lparr>it_ambiguity_until := e\<rparr>) (intents d)\<rparr>) = db_ok d"
  by (simp add: db_ok_def map_upd_key effects_unique_upd)

lemma record_execution_permit_keeps:
  "guarantees keeps (record_execution_permit pid i g epoch fence h expires now)"
proof -
  have row: "keeps s (s\<lparr>db := (db s)\<lparr>permits := permits (db s) @ [p]\<rparr>\<rparr>)"
    if "permit_insertable (db s) p" "pr_consumed_at p = None" for s p
    using that by (intro keepsI) (auto simp: db_ok_def db_evolves_permits grows_append evolves_refl
        permit_insertable_def list_all_iff)
  have window: "keeps s (s\<lparr>db := (db s)\<lparr>intents := upd P (\<lambda>r. r\<lparr>it_ambiguity_until := e\<rparr>) (intents (db s))\<rparr>\<rparr>)" for s P e
    by (intro keepsI) (auto simp: db_ok_intents_ambiguity intent_evolves_def
        intro!: db_evolves_intents grows_upd)
  have both: "keeps s (s\<lparr>db := (db s)\<lparr>permits := permits (db s) @ [p],
        intents := upd P (\<lambda>r. r\<lparr>it_ambiguity_until := e\<rparr>) (intents (db s))\<rparr>\<rparr>)"
    if "permit_insertable (db s) p" "pr_consumed_at p = None" for s p P e
    using keeps_trans [OF row [OF that] window] by simp
  show ?thesis
    unfolding guarantees_wp record_execution_permit_def
    by (auto simp: wp_simps Let_def intro!: row both split: option.splits)
qed

lemma find_permit_upd:
  assumes "permit_of d pid = Some p" and "distinct (map pr_permit_id (permits d))"
  shows "q \<in> set (permits d) \<Longrightarrow> pr_permit_id q = pid \<Longrightarrow> q = p"
  using find_key_unique [OF assms(2), of q pid] assms(1) by (simp add: permit_of_def)

lemma keeps_consumption:
  assumes "permit_of (db s) pid = Some p" and "pr_consumed_at p = None" and "pr_voided_at p = None"
    and "anchor_evolves (anchor s) a"
  shows "keeps s (s\<lparr>db := consumed_db pid gid v ts (db s), anchor := a\<rparr>)"
proof (rule keepsI)
  let ?f = "\<lambda>q. q\<lparr>pr_consumed_at := Some ts\<rparr>"
  let ?P = "\<lambda>q. pr_permit_id q = pid \<and> pr_consumed_at q = None"
  assume ok: "db_ok (db s)"
  then have uniq: "q \<in> set (permits (db s)) \<Longrightarrow> pr_permit_id q = pid \<Longrightarrow> q = p" for q
    using find_permit_upd [OF assms(1)] by (simp add: db_ok_def)
  have keys: "map pr_permit_id (upd ?P ?f rows) = map pr_permit_id rows"
    "map fence_key (upd ?P ?f rows) = map fence_key rows" for rows
    by (simp_all add: map_upd_key fence_key_def)
  show "db_ok (db (s\<lparr>db := consumed_db pid gid v ts (db s), anchor := a\<rparr>))"
    using ok uniq assms(3) by (auto simp: consumed_db_def db_ok_def keys map_upd_key ball_upd)
  have "pr_voided_at (permits (db s) ! i) = None"
    if "i < length (permits (db s))" "pr_permit_id (permits (db s) ! i) = pid" for i
    using uniq [OF nth_mem [OF that(1)] that(2)] assms(3) by simp
  then have "grows permit_evolves (permits (db s)) (upd ?P ?f (permits (db s)))"
    unfolding grows_def by (auto simp: nth_upd permit_evolves_def permit_core_def)
  then show "db_evolves (db s) (db (s\<lparr>db := consumed_db pid gid v ts (db s), anchor := a\<rparr>))"
    by (auto simp: consumed_db_def db_evolves_def grows_refl evolves_refl grant_evolves_def intro!: grows_upd)
qed (use assms(4) in simp)

lemma grant_of_consumed_db:
  "grant_of (consumed_db pid gid v ts d) gid v = map_option (\<lambda>q. q\<lparr>gr_fence := gr_fence q + 1\<rparr>) (grant_of d gid v)"
proof -
  have "find (grant_key gid v) (upd (grant_key gid v) (\<lambda>q. q\<lparr>gr_fence := gr_fence q + 1\<rparr>) rows)
     = map_option (\<lambda>q. q\<lparr>gr_fence := gr_fence q + 1\<rparr>) (find (grant_key gid v) rows)" for rows
    by (induction rows) (auto simp: grant_key_def)
  then show ?thesis by (simp add: grant_of_def consumed_db_def)
qed

lemma wp_commit_consumption:
  assumes "grant_of (db s) gid v = Some g"
  shows "wp (commit_consumption c pid gid v epoch) Q s =
     (let t = s\<lparr>db := consumed_db pid gid v (wall s) (db s), anchor := rec_anchor c gid v (epoch, gr_fence g + 1) (anchor s)\<rparr>
      in case rec_res c gid v (epoch, gr_fence g + 1) (anchor s) of Inl e \<Rightarrow> Q (Inl e) t | Inr u \<Rightarrow> Q (Inr (True, [])) t)"
  using assms by (auto simp: commit_consumption_def wp_simps grant_of_consumed_db Let_def split: sum.splits)

lemma consume_execution_permit_keeps:
  "guarantees keeps (consume_execution_permit c pid who gid v epoch fence h)"
  unfolding guarantees_wp consume_execution_permit_def
  by (auto simp: wp_simps wp_commit_consumption Let_def keeps_consumption split: option.splits sum.splits)

lemma void_unconsumed_permits_keeps: "guarantees keeps (void_unconsumed_permits iid)"
proof -
  have "keeps s (s\<lparr>db := (db s)\<lparr>permits := upd (voidable iid) (\<lambda>p. p\<lparr>pr_voided_at := Some ts\<rparr>) (permits (db s))\<rparr>\<rparr>)" for s ts
    by (intro keepsI)
      (auto simp: db_ok_def map_upd_key fence_key_def voidable_def permit_evolves_def permit_core_def ball_upd
        intro!: db_evolves_permits grows_upd)
  then show ?thesis
    unfolding guarantees_wp void_unconsumed_permits_def by (simp add: wp_simps)
qed

end
