(* ===== verification/Store_Intents.thy ===== *)
theory Store_Intents
  imports Store_Evidence
begin

text \<open>
  \<open>faar/store.py\<close>, intents: registration, the compare-and-set state machine, the start
  of a submission attempt, effect ownership, and the durable lease of an intent.

  The theorems: a transition happens exactly when the current state is expected and the
  edge is allowed; an attempt starts only under the attempt and velocity limits of the
  reservation; an effect is bound to at most one intent per venue.
\<close>

section \<open>Registration\<close>

definition new_intent_row :: "intent \<Rightarrow> string \<Rightarrow> string \<Rightarrow> time \<Rightarrow> intent_row" where
  "new_intent_row i h text now =
     \<lparr>it_intent_id = i_intent_id i, it_principal_id = i_principal_id i, it_venue = i_venue i, it_hash = h,
      it_state = S_PROPOSED, it_json = text, it_effect_id = None, it_reason_codes = [],
      it_submission_count = 0, it_ambiguity_until = None, it_filled = None,
      it_created_at = now, it_updated_at = now\<rparr>"

definition get_intent :: "string \<Rightarrow> (sys, intent_row) op" where
  "get_intent iid = bindE (read_db (\<lambda>d. intent_of d iid)) (\<lambda>row. case row of
     None \<Rightarrow> raise_exn UnknownIntent | Some r \<Rightarrow> ret r)"

definition register :: "cfg \<Rightarrow> intent \<Rightarrow> string \<Rightarrow> (sys, intent_row) op" where
  "register c i h =
     bindE (lift_sum (canonical_json (pv_intent i))) (\<lambda>text.
     seqE (transaction (bindE (read_db (\<lambda>d. intent_of d (i_intent_id i))) (\<lambda>row. case row of
         None \<Rightarrow> bindE store_now (\<lambda>now.
           seqE (write_db (\<lambda>d. d\<lparr>intents := intents d @ [new_intent_row i h text now]\<rparr>))
           (seqE (append_evidence_in_txn c (i_intent_id i) (i_principal_id i) ''intent_registered''
                    [(''intent_hash'', PStr h), (''venue'', PStr (i_venue i)),
                     (''primitive'', PStr (primitive_str (i_primitive i)))])
              (ret ())))
       | Some r \<Rightarrow>
           if it_principal_id r \<noteq> i_principal_id i then raise_exn IntentConflict
           else if it_hash r \<noteq> h then raise_exn IntentConflict
           else ret ())))
     (get_intent (i_intent_id i)))"

section \<open>Transitions\<close>

record transition_args =
  tr_reason_codes :: "string list"
  tr_effect_id :: "string option"
  tr_release_usage :: bool
  tr_commit_usage :: bool
  tr_ambiguity_until :: "time option"
  tr_filled :: "decimal option"

definition no_args :: transition_args where
  "no_args = \<lparr>tr_reason_codes = [], tr_effect_id = None, tr_release_usage = False, tr_commit_usage = False,
     tr_ambiguity_until = None, tr_filled = None\<rparr>"

definition reasons_json :: "string list \<Rightarrow> string" where
  "reasons_json rs = json_dumps True '', '' '': '' (JArr (map JStr rs))"

definition transition_row :: "intent_state \<Rightarrow> transition_args \<Rightarrow> time \<Rightarrow> intent_row \<Rightarrow> intent_row" where
  "transition_row st a now r =
     r\<lparr>it_state := st,
       it_effect_id := (if tr_effect_id a \<noteq> None then tr_effect_id a else it_effect_id r),
       it_reason_codes := tr_reason_codes a, it_updated_at := now,
       it_ambiguity_until := (if tr_ambiguity_until a \<noteq> None then tr_ambiguity_until a else it_ambiguity_until r),
       it_filled := (case tr_filled a of None \<Rightarrow> it_filled r | Some d \<Rightarrow> Some (reread_f d))\<rparr>"

text \<open>The unique index over (venue, effect id) refuses an effect that another intent holds.\<close>

definition effect_taken :: "db \<Rightarrow> intent_row \<Rightarrow> bool" where
  "effect_taken d r \<longleftrightarrow>
     it_effect_id r \<noteq> None \<and>
     list_ex (\<lambda>q. it_intent_id q \<noteq> it_intent_id r \<and> it_venue q = it_venue r \<and> it_effect_id q = it_effect_id r) (intents d)"

definition transition :: "string \<Rightarrow> intent_state list \<Rightarrow> intent_state \<Rightarrow> transition_args \<Rightarrow> (sys, bool) op" where
  "transition iid expected st a =
     (if tr_release_usage a \<and> tr_commit_usage a then raise_exn ValueError
      else if (case tr_filled a of None \<Rightarrow> False | Some d \<Rightarrow> \<not> is_finite d \<or> dlt d dzero) then raise_exn ValueError
      else if int (length (reasons_json (tr_reason_codes a))) > MAX_EVIDENCE_BYTES then raise_exn EvidenceRecordTooLarge
      else transaction (bindE (read_db (\<lambda>d. intent_of d iid)) (\<lambda>row. case row of
        None \<Rightarrow> raise_exn KeyError
      | Some r \<Rightarrow>
          if it_state r \<notin> set expected then ret False
          else if st \<notin> set (allowed_transitions (it_state r)) then raise_exn InvalidTransition
          else bindE store_now (\<lambda>now.
            bindE (read_db (\<lambda>d. effect_taken d (transition_row st a now r))) (\<lambda>taken.
            if taken then raise_exn EffectConflict
            else seqE (write_db (\<lambda>d. d\<lparr>intents := upd (\<lambda>q. it_intent_id q = iid) (\<lambda>_. transition_row st a now r) (intents d)\<rparr>))
                 (seqE (if tr_release_usage a then write_db (settle_usage RELEASED iid now) else ret ())
                 (seqE (if tr_commit_usage a then write_db (settle_usage COMMITTED iid now) else ret ())
                 (ret True))))))))"

definition begin_submission ::
    "string \<Rightarrow> intent_state list \<Rightarrow> int \<Rightarrow> time \<Rightarrow> (sys, bool \<times> bool \<times> bool \<times> int) op" where
  "begin_submission iid expected max_attempts now = transaction (
     bindE (read_db (\<lambda>d. (intent_of d iid, find (\<lambda>u. us_intent_id u = iid) (usage d)))) (\<lambda>(row, res). case row of
       None \<Rightarrow> raise_exn KeyError
     | Some r \<Rightarrow>
       let n = it_submission_count r in
       if it_state r \<notin> set expected then ret (False, False, False, n)
       else if n \<ge> max_attempts then ret (False, True, False, n)
       else case res of None \<Rightarrow> raise_exn MigrationError
       | Some u \<Rightarrow>
         bindE (case us_max_actions u of None \<Rightarrow> ret False
                | Some cap \<Rightarrow> (case us_window u of None \<Rightarrow> raise_exn MigrationError
                   | Some w \<Rightarrow>
                     if w < 1 \<or> cap < 0 then raise_exn MigrationError
                     else read_db (\<lambda>d. action_velocity_count d (us_grant_id u) (us_principal_id u)
                            (epoch_seconds now - w) (Some iid) + 1 > cap))) (\<lambda>too_fast.
         if too_fast then ret (False, False, True, n)
         else if S_SUBMITTED \<notin> set (allowed_transitions (it_state r)) then raise_exn InvalidTransition
         else bindE store_now (\<lambda>ts.
           bindE (read_db (\<lambda>d. list_ex (\<lambda>q. sa_intent_id q = iid \<and> sa_number q = n + 1) (attempts d))) (\<lambda>dup.
           if dup then raise_exn IntegrityError
           else seqE (write_db (\<lambda>d. d\<lparr>
                  attempts := attempts d @
                    [\<lparr>sa_intent_id = iid, sa_number = n + 1, sa_principal_id = us_principal_id u,
                      sa_grant_id = us_grant_id u, sa_grant_version = us_grant_version u,
                      sa_attempted_at = epoch_seconds now, sa_count = 1, sa_created_at = ts\<rparr>],
                  intents := upd (\<lambda>q. it_intent_id q = iid)
                    (\<lambda>q. q\<lparr>it_state := S_SUBMITTED, it_submission_count := n + 1, it_reason_codes := [],
                           it_ambiguity_until := None, it_updated_at := ts\<rparr>) (intents d),
                  usage := upd (\<lambda>q. us_intent_id q = iid) (\<lambda>q. q\<lparr>us_submitted := True\<rparr>) (usage d)\<rparr>))
                (ret (True, False, False, n + 1)))))))"

definition effect_owner :: "string \<Rightarrow> string \<Rightarrow> (sys, string option) op" where
  "effect_owner venue eff =
     read_db (\<lambda>d. map_option it_intent_id (find (\<lambda>r. it_venue r = venue \<and> it_effect_id r = Some eff) (intents d)))"

section \<open>Leases\<close>

text \<open>
  One attempt of the acquisition loop of \<open>intent_guard\<close>: the insert succeeds on a free
  lease and on the instance's own. The loop repeats it until a deadline; a lease that
  stays with another owner ends in \<open>IntentBusy\<close>.
\<close>

definition lease_of :: "db \<Rightarrow> string \<Rightarrow> lease_row option" where
  "lease_of d iid = find (\<lambda>l. ls_intent_id l = iid) (leases d)"

definition acquire_lease :: "cfg \<Rightarrow> string \<Rightarrow> (sys, unit) op" where
  "acquire_lease c iid =
     bindE store_now (\<lambda>now. bindE (read_db (\<lambda>d. lease_of d iid)) (\<lambda>row. case row of
       None \<Rightarrow> write_db (\<lambda>d. d\<lparr>leases := leases d @
         [\<lparr>ls_intent_id = iid, ls_owner = c_instance c, ls_acquired_at = now, ls_host = Some (c_host c),
           ls_pid = Some (c_pid c)\<rparr>]\<rparr>)
     | Some l \<Rightarrow>
         if ls_owner l \<noteq> c_instance c then raise_exn IntentBusy
         else write_db (\<lambda>d. d\<lparr>leases := upd (\<lambda>q. ls_intent_id q = iid)
                (\<lambda>q. q\<lparr>ls_acquired_at := now, ls_host := Some (c_host c), ls_pid := Some (c_pid c)\<rparr>) (leases d)\<rparr>)))"

definition release_lease :: "cfg \<Rightarrow> string \<Rightarrow> (sys, unit) op" where
  "release_lease c iid =
     write_db (\<lambda>d. d\<lparr>leases := filter (\<lambda>l. \<not> (ls_intent_id l = iid \<and> ls_owner l = c_instance c)) (leases d)\<rparr>)"

text \<open>\<open>pid_alive\<close> is the operating system's answer for a process id.\<close>

definition clear_stale_intent_lease :: "cfg \<Rightarrow> (int \<Rightarrow> bool) \<Rightarrow> string \<Rightarrow> string \<Rightarrow> bool \<Rightarrow> (sys, bool) op" where
  "clear_stale_intent_lease c pid_alive iid expected_owner force =
     bindE (read_db (\<lambda>d. lease_of d iid)) (\<lambda>row. case row of
       None \<Rightarrow> ret False
     | Some l \<Rightarrow>
         if ls_owner l \<noteq> expected_owner then ret False
         else if \<not> force \<and> (case ls_pid l of None \<Rightarrow> False | Some p \<Rightarrow> ls_host l = Some (c_host c) \<and> pid_alive p)
           then raise_exn LeaseOwnerAlive
         else seqE (write_db (\<lambda>d. d\<lparr>leases := filter (\<lambda>q. \<not> (ls_intent_id q = iid \<and> ls_owner q = expected_owner)) (leases d)\<rparr>))
              (ret True))"

section \<open>What the operations change\<close>

lemma register_keeps: "guarantees keeps (register c i h)"
proof -
  have row: "keeps s (s\<lparr>db := (db s)\<lparr>intents := intents (db s) @ [new_intent_row i h body now]\<rparr>\<rparr>)"
    if "intent_of (db s) (i_intent_id i) = None" for s body now
    using that by (intro keepsI)
      (auto simp: db_ok_def db_evolves_intents grows_append evolves_refl intent_of_def find_None_not_in
        new_intent_row_def effects_unique_def)
  have "keeps s (s\<lparr>db := add_event c iid who etype tree now ((db s)\<lparr>intents := intents (db s) @ [new_intent_row i h body now]\<rparr>)\<rparr>)"
    if "intent_of (db s) (i_intent_id i) = None" for s body now iid who etype tree
    using keeps_trans [OF row [OF that] add_event_keeps, of c iid who etype tree now body now] by simp
  then show ?thesis
    unfolding guarantees_wp register_def get_intent_def
    by (auto simp: wp_simps intro!: wp_append_evidence split: option.splits sum.splits)
qed

lemma effects_unique_replace:
  assumes "effects_unique rows" and "it_intent_id t = iid"
    and free: "\<And>q. q \<in> set rows \<Longrightarrow> it_intent_id q \<noteq> iid \<Longrightarrow> it_venue q = it_venue t \<Longrightarrow>
      it_effect_id q = it_effect_id t \<Longrightarrow> it_effect_id t = None"
  shows "effects_unique (upd (\<lambda>q. it_intent_id q = iid) (\<lambda>_. t) rows)"
  unfolding effects_unique_def
proof (intro ballI impI)
  fix x y
  assume "x \<in> set (upd (\<lambda>q. it_intent_id q = iid) (\<lambda>_. t) rows)"
    and "y \<in> set (upd (\<lambda>q. it_intent_id q = iid) (\<lambda>_. t) rows)"
    and same: "it_venue x = it_venue y \<and> it_effect_id x = it_effect_id y \<and> it_effect_id x \<noteq> None"
  then obtain x0 y0 where x: "x0 \<in> set rows" "x = (if it_intent_id x0 = iid then t else x0)"
    and y: "y0 \<in> set rows" "y = (if it_intent_id y0 = iid then t else y0)"
    by (auto elim!: in_set_updE)
  show "it_intent_id x = it_intent_id y"
  proof (cases "it_intent_id x0 = iid"; cases "it_intent_id y0 = iid")
    assume "it_intent_id x0 \<noteq> iid" and "it_intent_id y0 \<noteq> iid"
    then show ?thesis using x y same assms(1) unfolding effects_unique_def by auto
  qed (use x y same free [of x0] free [of y0] assms(2) in auto)
qed

lemma keeps_transition:
  assumes r: "intent_of (db s) iid = Some r" and step: "state_step (it_state r) st"
    and free: "\<not> effect_taken (db s) (transition_row st a now r)"
  shows "keeps s (s\<lparr>db := (db s)\<lparr>intents := upd (\<lambda>q. it_intent_id q = iid) (\<lambda>_. transition_row st a now r) (intents (db s))\<rparr>\<rparr>)"
proof (rule keepsI)
  let ?t = "transition_row st a now r" and ?rows = "intents (db s)"
  have id: "it_intent_id r = iid" using find_SomeD r unfolding intent_of_def by fastforce
  have fields: "it_intent_id ?t = iid" "it_venue ?t = it_venue r" by (simp_all add: transition_row_def id)
  assume ok: "db_ok (db s)"
  have unique: "effects_unique (upd (\<lambda>q. it_intent_id q = iid) (\<lambda>_. ?t) ?rows)"
    using ok free fields by (intro effects_unique_replace) (auto simp: db_ok_def effect_taken_def list_ex_iff)
  have keys: "map it_intent_id (upd (\<lambda>q. it_intent_id q = iid) (\<lambda>_. ?t) ?rows) = map it_intent_id ?rows"
    using fields by (auto simp: upd_def)
  show "db_ok (db (s\<lparr>db := (db s)\<lparr>intents := upd (\<lambda>q. it_intent_id q = iid) (\<lambda>_. ?t) ?rows\<rparr>\<rparr>))"
    using ok unique keys by (simp add: db_ok_def)
  have "grows intent_evolves ?rows (upd (\<lambda>q. it_intent_id q = iid) (\<lambda>_. ?t) ?rows)"
    using ok r step by (intro grows_upd_key [where v = iid and k = it_intent_id])
      (auto simp: db_ok_def intent_of_def intent_evolves_def transition_row_def)
  then show "db_evolves (db s) (db (s\<lparr>db := (db s)\<lparr>intents := upd (\<lambda>q. it_intent_id q = iid) (\<lambda>_. ?t) ?rows\<rparr>\<rparr>))"
    by (simp add: db_evolves_intents)
qed simp

lemma transition_keeps: "guarantees keeps (transition iid expected st a)"
proof -
  have settled: "keeps s (s\<lparr>db := settle_usage u iid ts ((db s)\<lparr>intents := x\<rparr>)\<rparr>)"
    if "keeps s (s\<lparr>db := (db s)\<lparr>intents := x\<rparr>\<rparr>)" for s u ts x
    using keeps_trans [OF that settle_usage_keeps, of u iid ts] by simp
  show ?thesis
    unfolding guarantees_wp transition_def
    by (auto simp: wp_simps state_step_def intro!: settled keeps_transition split: option.splits)
qed

lemma keeps_submission:
  assumes r: "intent_of (db s) iid = Some r" and step: "state_step (it_state r) S_SUBMITTED"
    and fresh: "\<not> list_ex (\<lambda>q. sa_intent_id q = iid \<and> sa_number q = sa_number row) (attempts (db s))"
    and row: "sa_intent_id row = iid" and n: "n = it_submission_count r + 1"
  shows "keeps s (s\<lparr>db := (db s)\<lparr>attempts := attempts (db s) @ [row],
      intents := upd (\<lambda>q. it_intent_id q = iid)
        (\<lambda>q. q\<lparr>it_state := S_SUBMITTED, it_submission_count := n, it_reason_codes := [],
               it_ambiguity_until := None, it_updated_at := ts\<rparr>) (intents (db s)),
      usage := upd (\<lambda>q. us_intent_id q = iid) (\<lambda>q. q\<lparr>us_submitted := True\<rparr>) (usage (db s))\<rparr>\<rparr>)"
proof (rule keepsI)
  let ?f = "\<lambda>q. q\<lparr>it_state := S_SUBMITTED, it_submission_count := n, it_reason_codes := [],
      it_ambiguity_until := None, it_updated_at := ts\<rparr>"
  assume ok: "db_ok (db s)"
  have a: "distinct (map (\<lambda>r. (sa_intent_id r, sa_number r)) (attempts (db s) @ [row]))"
    using ok fresh row by (auto simp: db_ok_def list_ex_iff)
  show "db_ok (db (s\<lparr>db := (db s)\<lparr>attempts := attempts (db s) @ [row],
      intents := upd (\<lambda>q. it_intent_id q = iid) ?f (intents (db s)),
      usage := upd (\<lambda>q. us_intent_id q = iid) (\<lambda>q. q\<lparr>us_submitted := True\<rparr>) (usage (db s))\<rparr>\<rparr>))"
    using ok a by (simp add: db_ok_def map_upd_key effects_unique_upd del: map_append)
  have i: "grows intent_evolves (intents (db s)) (upd (\<lambda>q. it_intent_id q = iid) ?f (intents (db s)))"
    using ok r step n by (intro grows_upd_key [where v = iid and k = it_intent_id])
      (auto simp: db_ok_def intent_of_def intent_evolves_def)
  show "db_evolves (db s) (db (s\<lparr>db := (db s)\<lparr>attempts := attempts (db s) @ [row],
      intents := upd (\<lambda>q. it_intent_id q = iid) ?f (intents (db s)),
      usage := upd (\<lambda>q. us_intent_id q = iid) (\<lambda>q. q\<lparr>us_submitted := True\<rparr>) (usage (db s))\<rparr>\<rparr>))"
    using i by (auto simp: db_evolves_def grows_refl evolves_refl grows_append usage_evolves_def usage_core_def
        intro!: grows_upd)
qed simp

lemma begin_submission_keeps: "guarantees keeps (begin_submission iid expected max_attempts now)"
  unfolding guarantees_wp begin_submission_def
  by (auto simp: wp_simps Let_def state_step_def intro!: keeps_submission split: option.splits)

lemma keeps_leases: "guarantees keeps (write_db (\<lambda>d. d\<lparr>leases := f d\<rparr>))"
  by (simp add: guarantees_wp wp_simps keeps_def)

lemma acquire_lease_keeps: "guarantees keeps (acquire_lease c iid)"
  unfolding acquire_lease_def by (intro keeps_rules keeps_leases)

lemma release_lease_keeps: "guarantees keeps (release_lease c iid)"
  unfolding release_lease_def by (rule keeps_leases)

lemma clear_stale_intent_lease_keeps: "guarantees keeps (clear_stale_intent_lease c alive iid owner force)"
  unfolding clear_stale_intent_lease_def by (intro keeps_rules keeps_leases)

end
