(* ===== verification/Store_System.thy ===== *)
theory Store_System
  imports Store_Intents
begin

text \<open>
  The store as a concurrent system: any number of store instances, the venue's permit
  gateway and operators run transactions on one database and one anchor, in any order.

  \<open>store_action\<close> has one constructor per operation of the store that writes, plus the
  environment (the clock moves, the anchor file becomes locked, read-only or free
  again). \<open>perform\<close> runs one action, \<open>run_actions\<close> a sequence of them, so a theorem about every
  sequence is a theorem about every interleaving of transactions.
\<close>

section \<open>Actions\<close>

datatype store_action =
    Open bool "string option" string string string int crypto
  | Provision cfg capability_grant string
  | SetStatus cfg string string int grant_status
  | NextFence cfg capability_grant
  | RevokeAfterRestore cfg string int
  | Halt cfg string string bool
  | Resume cfg string
  | SetCap cfg string pyval bool
  | Reserve cfg intent capability_grant risk_snapshot time
  | CommitUsage string
  | ReleaseUsage string
  | ClaimPermitRisk intent capability_grant risk_snapshot
  | RecordPermit string intent capability_grant int int string "time option" "time option"
  | Consume cfg string string string int int int string
  | VoidPermits string
  | Register cfg intent string
  | Transition string "intent_state list" intent_state transition_args
  | BeginSubmission string "intent_state list" int time
  | AddEvidence cfg string string payload
  | RebuildHead cfg string bool
  | RebuildHeads cfg bool
  | AcquireLease cfg string
  | ReleaseLease cfg string
  | ClearLease cfg "int \<Rightarrow> bool" string string bool
  | ClockMoves time
  | AnchorFault bool bool

definition anchor_fault :: "bool \<Rightarrow> bool \<Rightarrow> anchor_state \<Rightarrow> anchor_state" where
  "anchor_fault lock_free writable a = (case a of
     Memory m \<Rightarrow> Memory m
   | Filed f \<Rightarrow> Filed (f\<lparr>fa_lock_free := lock_free, fa_writable := writable\<rparr>))"

fun perform :: "store_action \<Rightarrow> sys \<Rightarrow> sys" where
  "perform (Open ha key fresh inst host pid L) = exec (open_store ha key fresh inst host pid L)"
| "perform (Provision c g h) = exec (provision_grant c g h)"
| "perform (SetStatus c who gid v st) = exec (set_grant_status c who gid v st)"
| "perform (NextFence c g) = exec (next_execution_fence c g)"
| "perform (RevokeAfterRestore c gid v) = exec (revoke_after_restore c gid v)"
| "perform (Halt c scope reason allow) = exec (halt c scope reason allow)"
| "perform (Resume c scope) = exec (resume c scope)"
| "perform (SetCap c scope amount allow) = exec (set_exposure_cap c scope amount allow)"
| "perform (Reserve c i g r now) = exec (reserve_usage c i g r now)"
| "perform (CommitUsage iid) = exec (commit_usage iid)"
| "perform (ReleaseUsage iid) = exec (release_usage iid)"
| "perform (ClaimPermitRisk i g r) = exec (claim_permit_risk_state i g r)"
| "perform (RecordPermit pid i g epoch fence h expires now) =
     exec (record_execution_permit pid i g epoch fence h expires now)"
| "perform (Consume c pid who gid v epoch fence h) = exec (consume_execution_permit c pid who gid v epoch fence h)"
| "perform (VoidPermits iid) = exec (void_unconsumed_permits iid)"
| "perform (Register c i h) = exec (register c i h)"
| "perform (Transition iid expected st a) = exec (transition iid expected st a)"
| "perform (BeginSubmission iid expected n now) = exec (begin_submission iid expected n now)"
| "perform (AddEvidence c iid etype p) = exec (add_evidence c iid etype p)"
| "perform (RebuildHead c iid allow) = exec (rebuild_evidence_head c iid allow)"
| "perform (RebuildHeads c allow) = exec (rebuild_evidence_heads c allow)"
| "perform (AcquireLease c iid) = exec (acquire_lease c iid)"
| "perform (ReleaseLease c iid) = exec (release_lease c iid)"
| "perform (ClearLease c alive iid owner force) = exec (clear_stale_intent_lease c alive iid owner force)"
| "perform (ClockMoves t) = (\<lambda>s. s\<lparr>wall := t\<rparr>)"
| "perform (AnchorFault l w) = (\<lambda>s. s\<lparr>anchor := anchor_fault l w (anchor s)\<rparr>)"

definition run_actions :: "store_action list \<Rightarrow> sys \<Rightarrow> sys" where
  "run_actions as s = fold perform as s"

lemma run_actions_simps [simp]:
  "run_actions [] s = s" "run_actions (a # as) s = run_actions as (perform a s)"
  "run_actions (as @ bs) s = run_actions bs (run_actions as s)"
  by (simp_all add: run_actions_def)

definition fresh_sys :: "anchor_state \<Rightarrow> time \<Rightarrow> sys" where
  "fresh_sys a t = \<lparr>db = empty_db, anchor = a, wall = t\<rparr>"

lemma db_ok_empty [simp]: "db_ok empty_db"
  by (simp add: db_ok_def empty_db_def effects_unique_def)

lemma high_anchor_fault [simp]: "high (anchor_fault l w a) g v = high a g v"
  by (cases a) (simp_all add: anchor_fault_def fa_high_def fa_entries_def)

lemma exec_keeps: "guarantees keeps m \<Longrightarrow> keeps s (exec m s)"
  by (simp add: guarantees_def exec_def)

lemmas operations_keep =
  open_store_keeps provision_grant_keeps set_grant_status_keeps next_execution_fence_keeps
  revoke_after_restore_keeps halt_keeps resume_keeps set_exposure_cap_keeps reserve_usage_keeps
  commit_usage_keeps release_usage_keeps claim_permit_risk_state_keeps record_execution_permit_keeps
  consume_execution_permit_keeps void_unconsumed_permits_keeps register_keeps transition_keeps
  begin_submission_keeps add_evidence_keeps rebuild_evidence_head_keeps rebuild_evidence_heads_keeps
  acquire_lease_keeps release_lease_keeps clear_stale_intent_lease_keeps

lemma perform_keeps: "keeps s (perform a s)"
proof (cases a)
  case (ClockMoves t)
  then show ?thesis by (simp add: keeps_def)
next
  case (AnchorFault l w)
  then show ?thesis by (simp add: anchor_evolves_def)
qed (simp_all add: exec_keeps operations_keep)

lemma run_keeps: "keeps s (run_actions as s)"
  by (induction as arbitrary: s) (auto intro: keeps_trans perform_keeps)

lemma run_evolves:
  assumes "db_ok (db s)"
  shows "db_ok (db (run_actions as s))" and "db_evolves (db s) (db (run_actions as s))"
    and "anchor_evolves (anchor s) (anchor (run_actions as s))"
  using run_keeps [of s as] assms by (auto simp: keeps_def)

text \<open>
  C23. In every state the store can reach from an empty database, under any interleaving of transactions of any
  number of instances, the schema's keys hold: one row per grant version, intent,
  permit, fence token, risk-state version and reservation, at most one intent per
  (venue, effect), and no permit both consumed and voided. And every later state extends
  it: no grant, reservation, intent, permit, attempt, risk claim or evidence row
  disappears, grants only move forward, terminal intents stay, and no anchor mark is lowered.
\<close>

theorem store_invariant:
  "db_ok (db (run_actions as (fresh_sys a t)))
    \<and> db_evolves (db (run_actions as (fresh_sys a t))) (db (run_actions (as @ bs) (fresh_sys a t)))
    \<and> anchor_evolves (anchor (run_actions as (fresh_sys a t))) (anchor (run_actions (as @ bs) (fresh_sys a t)))"
proof -
  have "db_ok (db (fresh_sys a t))" by (simp add: fresh_sys_def)
  from run_evolves(1) [OF this] show ?thesis using run_evolves(2,3) by simp
qed

section \<open>Rows across time\<close>

lemma grant_of_evolves:
  assumes "db_evolves d e" and "db_ok e" and "grant_of d gid v = Some r"
  obtains q where "grant_of e gid v = Some q" and "grant_evolves r q"
proof -
  have r: "r \<in> set (grants d)" "gr_grant_id r = gid" "gr_version r = v"
    using find_SomeD [OF assms(3) [unfolded grant_of_def]] by (auto simp: grant_key_def)
  obtain q where q: "q \<in> set (grants e)" "grant_evolves r q"
    using assms(1) r(1) unfolding db_evolves_def by (auto elim: grows_inD)
  have "find (\<lambda>r. (gr_grant_id r, gr_version r) = (gid, v)) (grants e) = Some q"
    using assms(2) q r by (intro find_key_unique) (auto simp: db_ok_def grant_evolves_def)
  with q(2) that show ?thesis by (simp add: grant_of_def grant_key_eq)
qed

lemma intent_of_evolves:
  assumes "db_evolves d e" and "db_ok e" and "intent_of d iid = Some r"
  obtains q where "intent_of e iid = Some q" and "intent_evolves r q"
proof -
  have r: "r \<in> set (intents d)" "it_intent_id r = iid"
    using find_SomeD [OF assms(3) [unfolded intent_of_def]] by auto
  obtain q where q: "q \<in> set (intents e)" "intent_evolves r q"
    using assms(1) r(1) unfolding db_evolves_def by (auto elim: grows_inD)
  have "find (\<lambda>r. it_intent_id r = iid) (intents e) = Some q"
    using assms(2) q r by (intro find_key_unique) (auto simp: db_ok_def intent_evolves_def)
  with q(2) that show ?thesis by (simp add: intent_of_def)
qed

lemma permit_of_evolves:
  assumes "db_evolves d e" and "db_ok e" and "permit_of d pid = Some r"
  obtains q where "permit_of e pid = Some q" and "permit_evolves r q"
proof -
  have r: "r \<in> set (permits d)" "pr_permit_id r = pid"
    using find_SomeD [OF assms(3) [unfolded permit_of_def]] by auto
  obtain q where q: "q \<in> set (permits e)" "permit_evolves r q"
    using assms(1) r(1) unfolding db_evolves_def by (auto elim: grows_inD)
  have "pr_permit_id q = pid" using q(2) r(2) by (auto simp: permit_evolves_def permit_core_def dest: arg_cong [of _ _ pr_permit_id])
  then have "find (\<lambda>r. pr_permit_id r = pid) (permits e) = Some q"
    using assms(2) q(1) by (intro find_key_unique) (auto simp: db_ok_def)
  with q(2) that show ?thesis by (simp add: permit_of_def)
qed

section \<open>When a permit is consumed\<close>

text \<open>A successful consumption, read backwards: every condition of the gateway held.\<close>

lemma consume_TrueE:
  assumes "consume_execution_permit c pid who gid v epoch fence h s = (Inr (True, rs), t)"
  obtains p g where "permit_of (db s) pid = Some p" and "grant_of (db s) gid v = Some g"
    and "pr_principal_id p = who" and "pr_grant_id p = gid" and "pr_grant_version p = v"
    and "pr_grant_epoch p = epoch" and "pr_fence p = fence" and "pr_hash p = h"
    and "pr_consumed_at p = None" and "pr_voided_at p = None" and "\<not> superseded (db s) p"
    and "gr_principal_id g = who" and "gr_status g = GS_ACTIVE" and "gr_epoch g = epoch"
    and "active_halt (db s) who = None" and "\<not> anchor_missing c"
    and "c_has_anchor c \<Longrightarrow> \<not> regressed (row_mark g) (marks s gid v)"
    and "db t = consumed_db pid gid v (wall s) (db s)"
    and "c_has_anchor c \<Longrightarrow> mark_le (Some (epoch, gr_fence g + 1)) (marks t gid v)"
    and "rs = []"
proof -
  define R where "R = (\<lambda>t rs. \<exists>p g. permit_of (db s) pid = Some p \<and> grant_of (db s) gid v = Some g
    \<and> pr_principal_id p = who \<and> pr_grant_id p = gid \<and> pr_grant_version p = v
    \<and> pr_grant_epoch p = epoch \<and> pr_fence p = fence \<and> pr_hash p = h
    \<and> pr_consumed_at p = None \<and> pr_voided_at p = None \<and> \<not> superseded (db s) p
    \<and> gr_principal_id g = who \<and> gr_status g = GS_ACTIVE \<and> gr_epoch g = epoch
    \<and> active_halt (db s) who = None \<and> \<not> anchor_missing c
    \<and> reg_res c gid v (row_mark g) (anchor s) = Inr False
    \<and> rec_res c gid v (epoch, gr_fence g + 1) (anchor s) = Inr ()
    \<and> t = s\<lparr>db := consumed_db pid gid v (wall s) (db s), anchor := rec_anchor c gid v (epoch, gr_fence g + 1) (anchor s)\<rparr>
    \<and> rs = ([] :: string list))"
  have success: "R t rs" if "permit_of (db s) pid = Some p" "grant_of (db s) gid v = Some g"
    "pr_principal_id p = who \<and> pr_grant_id p = gid \<and> pr_grant_version p = v
      \<and> pr_grant_epoch p = epoch \<and> pr_fence p = fence \<and> pr_hash p = h"
    "pr_consumed_at p = None" "pr_voided_at p = None" "\<not> superseded (db s) p"
    "consume_reasons c who epoch (active_halt (db s) who \<noteq> None) behind g = []"
    "anchor_missing c \<or> behind = reg_res c gid v (gr_epoch g, gr_fence g) (anchor s)"
    "rec_res c gid v (epoch, gr_fence g + 1) (anchor s) = Inr ()"
    "t = s\<lparr>db := consumed_db pid gid v (wall s) (db s), anchor := rec_anchor c gid v (epoch, gr_fence g + 1) (anchor s)\<rparr>"
    "rs = []" for p g behind t rs
  proof -
    have cond: "gr_principal_id g = who" "gr_status g = GS_ACTIVE" "gr_epoch g = epoch"
      "active_halt (db s) who = None" "\<not> anchor_missing c" "behind = Inr False"
      using that(7) by (auto simp: consume_reasons_def split: if_splits sum.splits)
    then have "reg_res c gid v (row_mark g) (anchor s) = Inr False" using that(8) by (simp add: row_mark_def)
    then show ?thesis using that cond unfolding R_def by (intro exI [of _ p] exI [of _ g]) simp
  qed
  have "wp (consume_execution_permit c pid who gid v epoch fence h) (\<lambda>r t. \<forall>rs. r = Inr (True, rs) \<longrightarrow> R t rs) s"
    unfolding consume_execution_permit_def
    by (auto simp: wp_simps wp_commit_consumption Let_def intro: success split: option.splits sum.splits)
  from wpD [OF this assms] have "R t rs" by simp
  then obtain p g where pg: "permit_of (db s) pid = Some p" "grant_of (db s) gid v = Some g"
    "pr_principal_id p = who" "pr_grant_id p = gid" "pr_grant_version p = v"
    "pr_grant_epoch p = epoch" "pr_fence p = fence" "pr_hash p = h"
    "pr_consumed_at p = None" "pr_voided_at p = None" "\<not> superseded (db s) p"
    "gr_principal_id g = who" "gr_status g = GS_ACTIVE" "gr_epoch g = epoch"
    "active_halt (db s) who = None" "\<not> anchor_missing c"
    "reg_res c gid v (row_mark g) (anchor s) = Inr False"
    "rec_res c gid v (epoch, gr_fence g + 1) (anchor s) = Inr ()"
    "t = s\<lparr>db := consumed_db pid gid v (wall s) (db s), anchor := rec_anchor c gid v (epoch, gr_fence g + 1) (anchor s)\<rparr>"
    "rs = []"
    unfolding R_def by blast
  show thesis
    using that [OF pg(1-16)] pg(17-) reg_res_value [OF pg(17)] rec_anchor_raises [OF pg(18)] by (simp add: marks_def)
qed

lemma permit_evolves_fields:
  assumes "permit_evolves p q"
  shows "pr_permit_id q = pr_permit_id p" and "pr_intent_id q = pr_intent_id p"
    and "pr_grant_id q = pr_grant_id p" and "pr_grant_version q = pr_grant_version p"
    and "pr_grant_epoch q = pr_grant_epoch p" and "pr_fence q = pr_fence p"
  using assms unfolding permit_evolves_def permit_core_def
  by (auto dest: arg_cong [of _ _ pr_permit_id] arg_cong [of _ _ pr_intent_id] arg_cong [of _ _ pr_grant_id]
      arg_cong [of _ _ pr_grant_version] arg_cong [of _ _ pr_grant_epoch] arg_cong [of _ _ pr_fence])

text \<open>A permit that is dead in one state, consumed or voided, is not consumed from any later state.\<close>

lemma dead_permit_stays_dead:
  assumes "db_ok (db s)" and "permit_of (db s) pid = Some p" and "pr_consumed_at p \<noteq> None \<or> pr_voided_at p \<noteq> None"
  shows "consume_execution_permit c pid who gid v epoch fence h (run_actions as s) \<noteq> (Inr (True, rs), u)"
proof
  assume "consume_execution_permit c pid who gid v epoch fence h (run_actions as s) = (Inr (True, rs), u)"
  then obtain q where q: "permit_of (db (run_actions as s)) pid = Some q" "pr_consumed_at q = None" "pr_voided_at q = None"
    by (rule consume_TrueE)
  obtain q' where "permit_of (db (run_actions as s)) pid = Some q'" "permit_evolves p q'"
    using permit_of_evolves [OF run_evolves(2,1) [OF assms(1)] assms(2)] by blast
  with q assms(3) show False by (auto simp: permit_evolves_def)
qed

lemma permit_of_consumed_db:
  assumes "permit_of d pid = Some p" and "pr_consumed_at p = None"
  shows "permit_of (consumed_db pid gid v ts d) pid = Some (p\<lparr>pr_consumed_at := Some ts\<rparr>)"
proof -
  have p: "pr_permit_id p = pid" using find_SomeD assms(1) unfolding permit_of_def by fastforce
  then show ?thesis
    using assms by (simp add: permit_of_def consumed_db_def find_upd)
qed

text \<open>
  C18. A permit is single-use: once one consumption of it has succeeded, no consumption of the same permit
  succeeds in any later state, by any instance, with whatever binding it presents.
\<close>

theorem permit_single_use:
  assumes "db_ok (db s)" and "consume_execution_permit c pid who gid v epoch fence h s = (Inr (True, rs), t)"
  shows "consume_execution_permit c' pid who' gid' v' epoch' fence' h' (run_actions as t) \<noteq> (Inr (True, rs'), u)"
proof -
  obtain p where p: "permit_of (db s) pid = Some p" "pr_consumed_at p = None"
    "db t = consumed_db pid gid v (wall s) (db s)"
    using consume_TrueE [OF assms(2)] by metis
  have "db_ok (db t)"
    by (rule keeps_okD [OF consume_execution_permit_keeps assms(2,1)])
  with p permit_of_consumed_db [OF p(1,2)] show ?thesis
    by (intro dead_permit_stays_dead) auto
qed

text \<open>
  C30. Voiding is final: after the unconsumed permits of an intent were voided, no permit of that intent that was
  recorded before can be consumed in any later state; consumption and voiding exclude
  each other whichever came first.
\<close>

theorem void_beats_late_consumption:
  assumes "db_ok (db s)" and "permit_of (db s) pid = Some p" and "pr_intent_id p = iid"
    and "void_unconsumed_permits iid s = (Inr n, t)"
  shows "consume_execution_permit c pid who gid v epoch fence h (run_actions as t) \<noteq> (Inr (True, rs), u)"
proof -
  have t: "db t = (db s)\<lparr>permits := upd (voidable iid) (\<lambda>p. p\<lparr>pr_voided_at := Some (wall s)\<rparr>) (permits (db s))\<rparr>"
    using assms(4) by (auto simp: void_unconsumed_permits_def op_simps)
  define q where "q = (if voidable iid p then p\<lparr>pr_voided_at := Some (wall s)\<rparr> else p)"
  have "permit_of (db t) pid = Some q"
    using assms(2) by (simp add: t permit_of_def find_upd q_def)
  moreover have "db_ok (db t)"
    by (rule keeps_okD [OF void_unconsumed_permits_keeps assms(4,1)])
  moreover have "pr_consumed_at q \<noteq> None \<or> pr_voided_at q \<noteq> None"
    using assms(3) by (auto simp: q_def voidable_def)
  ultimately show ?thesis by (intro dead_permit_stays_dead)
qed

section \<open>Revocation and halt fences\<close>

lemma grant_of_upd:
  assumes "\<And>q. gr_grant_id (f q) = gr_grant_id q \<and> gr_version (f q) = gr_version q"
  shows "grant_of (d\<lparr>grants := upd P f (grants d)\<rparr>) gid v = map_option (\<lambda>q. if P q then f q else q) (grant_of d gid v)"
  using assms by (simp add: grant_of_def grant_key_def find_upd)

lemma grant_of_key: "grant_of d gid v = Some r \<Longrightarrow> grant_key gid v r"
  using find_SomeD unfolding grant_of_def by fastforce

text \<open>Whatever \<open>set_grant_status\<close> reports as done is in the database, also when the anchor write failed.\<close>

lemma set_grant_status_done:
  assumes "set_grant_status c who gid v status s = (r, t)" and "r = Inr () \<or> r = Inl AnchorUnavailableAfterCommit"
  obtains q where "grant_of (db t) gid v = Some q" and "gr_status q = status"
proof -
  define D where "D = (\<lambda>t :: sys. \<exists>q. grant_of (db t) gid v = Some q \<and> gr_status q = status)"
  have "wp (transaction (set_grant_status_txn c who gid v status))
      (\<lambda>r t. case r of Inl e \<Rightarrow> e \<noteq> AnchorUnavailableAfterCommit | Inr b \<Rightarrow> D t) s"
    unfolding set_grant_status_txn_def D_def
    by (auto simp: wp_simps grant_of_upd grant_of_key split: option.splits sum.splits
        dest: reg_res_error rec_res_error)
  then have "wp (set_grant_status c who gid v status)
      (\<lambda>r t. r = Inr () \<or> r = Inl AnchorUnavailableAfterCommit \<longrightarrow> D t) s"
    unfolding set_grant_status_def
    by (auto simp: wp_simps intro: wp_mono split: sum.splits)
  from wpD [OF this assms(1)] assms(2) that show ?thesis by (auto simp: D_def)
qed

text \<open>
  C20. Revocation is a fence: once \<open>set_grant_status(..., REVOKED)\<close> has returned, or has reported that only the
  anchor could not be updated, no permit under that grant version is consumed and no
  execution fence is issued for it in any later state, through any instance.
\<close>

theorem revocation_is_final:
  assumes "db_ok (db s)" and "set_grant_status c who gid v GS_REVOKED s = (r, t)"
    and "r = Inr () \<or> r = Inl AnchorUnavailableAfterCommit"
  shows "consume_execution_permit c' pid who' gid v epoch fence h (run_actions as t) \<noteq> (Inr (True, rs), u)
    \<and> (g_grant_id g = gid \<longrightarrow> g_version g = v \<longrightarrow> next_execution_fence c' g (run_actions as t) \<noteq> (Inr ef, u'))"
proof -
  let ?w = "run_actions as t"
  obtain q where q: "grant_of (db t) gid v = Some q" "gr_status q = GS_REVOKED"
    using set_grant_status_done [OF assms(2,3)] by blast
  have ok: "db_ok (db t)" by (rule keeps_okD [OF set_grant_status_keeps assms(2,1)])
  obtain q' where q': "grant_of (db ?w) gid v = Some q'" "gr_status q' = GS_REVOKED"
    using grant_of_evolves [OF run_evolves(2,1) [OF ok] q(1)] q(2) by (metis grant_evolves_def)
  have "wp (next_execution_fence c' g) (\<lambda>r t. \<forall>ef. r \<noteq> Inr ef) ?w" if "g_grant_id g = gid" "g_version g = v"
    unfolding next_execution_fence_def using q' that by (auto simp: wp_simps split: option.splits sum.splits)
  then have "next_execution_fence c' g ?w \<noteq> (Inr ef, u')" if "g_grant_id g = gid" "g_version g = v"
    using that wpD by fastforce
  moreover have "consume_execution_permit c' pid who' gid v epoch fence h ?w \<noteq> (Inr (True, rs), u)"
    using q' by (auto elim!: consume_TrueE)
  ultimately show ?thesis by blast
qed

text \<open>The grant rows in the scope of a halt that has committed.\<close>

lemma halt_done:
  assumes "halt c scope reason allow s = (r, t)" and "r = Inr n \<or> r = Inl AnchorUnavailableAfterCommit"
  obtains who where "validate_control_scope scope = Inr who"
    and "\<And>gid v. grant_of (db t) gid v =
      map_option (\<lambda>q. if in_scope who q then q\<lparr>gr_epoch := gr_epoch q + 1\<rparr> else q) (grant_of (db s) gid v)"
proof -
  define D where "D = (\<lambda>t :: sys. \<exists>who. validate_control_scope scope = Inr who \<and>
     (\<forall>gid v. grant_of (db t) gid v =
       map_option (\<lambda>q. if in_scope who q then q\<lparr>gr_epoch := gr_epoch q + 1\<rparr> else q) (grant_of (db s) gid v)))"
  have upd: "grant_of ((db s)\<lparr>controls := ct, grants := upd (in_scope who) (\<lambda>q. q\<lparr>gr_epoch := gr_epoch q + 1\<rparr>) (grants (db s))\<rparr>) gid v
      = map_option (\<lambda>q. if in_scope who q then q\<lparr>gr_epoch := gr_epoch q + 1\<rparr> else q) (grant_of (db s) gid v)" for ct who gid v
    by (simp add: grant_of_def grant_key_def find_upd)
  have scope_error: "validate_control_scope scope = Inl e \<Longrightarrow> e = ValueError" for e
    by (auto simp: validate_control_scope_def split: if_splits)
  have "wp (halt c scope reason allow) (\<lambda>r t. r = Inr n \<or> r = Inl AnchorUnavailableAfterCommit \<longrightarrow> D t) s"
    unfolding halt_def
    by (auto simp: wp_simps D_def upd intro!: wp_record_rows dest!: scope_error split: sum.splits option.splits)
  from wpD [OF this assms(1)] assms(2) that show ?thesis by (auto simp: D_def)
qed

text \<open>
  C19. The kill switch kills issued permits for good: once a halt of the global scope or of the
  grant's principal has committed, a permit bound to an epoch that the grant had reached before the
  halt is never consumed again, in any later state, also after the halt is lifted.
\<close>

theorem halt_kills_issued_permits:
  assumes "db_ok (db s)" and "halt c scope reason allow s = (r, t)"
    and "r = Inr n \<or> r = Inl AnchorUnavailableAfterCommit"
    and "grant_of (db s) gid v = Some g" and "epoch \<le> gr_epoch g"
    and "scope = GLOBAL_CONTROL_SCOPE \<or> scope = PRINCIPAL_CONTROL_PREFIX @ gr_principal_id g"
  shows "consume_execution_permit c' pid who gid v epoch fence h (run_actions as t) \<noteq> (Inr (True, rs), u)"
proof -
  obtain w where w: "validate_control_scope scope = Inr w"
    and rows: "\<And>gid v. grant_of (db t) gid v =
      map_option (\<lambda>q. if in_scope w q then q\<lparr>gr_epoch := gr_epoch q + 1\<rparr> else q) (grant_of (db s) gid v)"
    using halt_done [OF assms(2,3)] by blast
  have "in_scope w g"
    using w assms(6) by (auto simp: validate_control_scope_def in_scope_def split: if_splits)
  then have row: "grant_of (db t) gid v = Some (g\<lparr>gr_epoch := gr_epoch g + 1\<rparr>)" using rows assms(4) by simp
  have ok: "db_ok (db t)" by (rule keeps_okD [OF halt_keeps assms(2,1)])
  obtain q where "grant_of (db (run_actions as t)) gid v = Some q" "epoch < gr_epoch q"
  proof (rule grant_of_evolves [OF run_evolves(2,1) [OF ok] row])
    fix q assume "grant_of (db (run_actions as t)) gid v = Some q" "grant_evolves (g\<lparr>gr_epoch := gr_epoch g + 1\<rparr>) q"
    then show thesis using that [of q] assms(5) by (simp add: grant_evolves_def)
  qed
  then show ?thesis by (auto elim!: consume_TrueE)
qed

section \<open>Restored databases\<close>

lemma regressed_below: "a < b \<Longrightarrow> mark_le (Some b) m \<Longrightarrow> regressed a m"
  by (cases m) (auto simp: regressed_def simp del: less_prod_simp less_eq_prod_simp)

text \<open>
  C24. A restored backup cannot replay consumed authority: after an anchored consumption under a grant version,
  and any further history, replace the database by any earlier state of it. Then an
  instance that holds the anchor consumes no permit and issues no fence under that grant
  version from the restored database.
\<close>

theorem restore_cannot_replay:
  assumes "db_ok (db s)" and "consume_execution_permit c pid who gid v epoch fence h s = (Inr (True, rs), t)"
    and "c_has_anchor c" and "db_ok d" and "db_evolves d (db s)" and "c_has_anchor c'"
  shows "consume_execution_permit c' pid' who' gid v epoch' fence' h' ((run_actions as t)\<lparr>db := d\<rparr>) \<noteq> (Inr (True, rs'), u)
    \<and> (g_grant_id g = gid \<longrightarrow> g_version g = v \<longrightarrow>
        next_execution_fence c' g ((run_actions as t)\<lparr>db := d\<rparr>) \<noteq> (Inr ef, u'))"
proof -
  let ?w = "(run_actions as t)\<lparr>db := d\<rparr>"
  obtain r where r: "grant_of (db s) gid v = Some r" "gr_epoch r = epoch"
    "mark_le (Some (epoch, gr_fence r + 1)) (marks t gid v)"
    using consume_TrueE [OF assms(2)] assms(3) by metis
  have ok: "db_ok (db t)"
    by (rule keeps_okD [OF consume_execution_permit_keeps assms(2,1)])
  have "mark_le (marks t gid v) (marks ?w gid v)"
    using run_evolves(3) [OF ok, of as] by (simp add: anchor_evolves_def marks_def)
  with r(3) have mark: "mark_le (Some (epoch, gr_fence r + 1)) (marks ?w gid v)" by (rule mark_le_trans)
  have behind: "regressed (row_mark q) (marks ?w gid v)" if q: "grant_of d gid v = Some q" for q
  proof -
    obtain q' where "grant_of (db s) gid v = Some q'" "grant_evolves q q'"
      using grant_of_evolves [OF assms(5,1) q] by blast
    with r have "row_mark q < (epoch, gr_fence r + 1)" by (auto simp: grant_evolves_def row_mark_def)
    then show ?thesis using mark by (rule regressed_below)
  qed
  have "consume_execution_permit c' pid' who' gid v epoch' fence' h' ?w \<noteq> (Inr (True, rs'), u)"
    using behind assms(6) by (auto elim!: consume_TrueE)
  moreover have "wp (next_execution_fence c' g) (\<lambda>r t. \<forall>ef. r \<noteq> Inr ef) ?w" if "g_grant_id g = gid" "g_version g = v"
    unfolding next_execution_fence_def
    using that behind assms(6)
    by (auto simp: wp_simps marks_def row_mark_def split: option.splits sum.splits dest!: reg_res_value)
  then have "next_execution_fence c' g ?w \<noteq> (Inr ef, u')" if "g_grant_id g = gid" "g_version g = v"
    using that wpD by fastforce
  ultimately show ?thesis by blast
qed

section \<open>Terminal intents\<close>

text \<open>
  A terminal intent is closed: once an intent is DENIED, DEFERRED, STOPPED, FINALIZED or FAILED_SAFE, every later
  state still has it with the same principal, payload hash and state.
\<close>

lemma terminal_intent_is_closed:
  assumes "db_ok (db s)" and "intent_of (db s) iid = Some r" and "is_terminal (it_state r)"
  shows "\<exists>q. intent_of (db (run_actions as s)) iid = Some q \<and> it_state q = it_state r
    \<and> it_principal_id q = it_principal_id r \<and> it_hash q = it_hash r"
  using intent_of_evolves [OF run_evolves(2,1) [OF assms(1)] assms(2)] assms(3) terminal_absorbing
  unfolding intent_evolves_def by metis

section \<open>A concrete system\<close>

text \<open>
  The theorems above at one state: the demo grant, provisioned and active, and one live
  permit under it, with the anchor at the grant's marks.
\<close>

definition demo_cfg :: cfg where
  "demo_cfg = \<lparr>c_has_anchor = True, c_anchor_required = True, c_evidence_key = Some ''0123456789abcdef'',
     c_heads_since = 0, c_instance = ''worker-1'', c_host = ''host-1'', c_pid = 7, c_crypto = demo_crypto\<rparr>"

definition demo_grant_row :: grant_row where
  "demo_grant_row =
     \<lparr>gr_grant_id = ''grant-1'', gr_version = 1, gr_principal_id = ''principal:alice'', gr_hash = ''grant-hash'',
      gr_json = ''{}'', gr_status = GS_ACTIVE, gr_epoch = 1, gr_fence = 1, gr_provisioned_at = secs 1000\<rparr>"

definition demo_permit_row :: permit_row where
  "demo_permit_row =
     \<lparr>pr_permit_id = ''permit-1'', pr_intent_id = ''intent-0000000001'', pr_principal_id = ''principal:alice'',
      pr_grant_id = ''grant-1'', pr_grant_version = 1, pr_grant_epoch = 1, pr_fence = 1, pr_hash = ''permit-hash'',
      pr_issued_at = secs 1005, pr_expires_at = Some (secs 1035), pr_consumed_at = None, pr_voided_at = None\<rparr>"

definition demo_sys :: sys where
  "demo_sys =
     \<lparr>db = empty_db\<lparr>grants := [demo_grant_row], permits := [demo_permit_row]\<rparr>,
      anchor = Memory \<lparr>ma_marks = [((''grant-1'', 1), (1, 1))], ma_identity = Some ''anchor-1''\<rparr>, wall = secs 1006\<rparr>"

definition demo_consume :: "(sys, bool \<times> string list) op" where
  "demo_consume = consume_execution_permit demo_cfg ''permit-1'' ''principal:alice'' ''grant-1'' 1 1 1 ''permit-hash''"

lemma demo_sys_ok: "db_ok (db demo_sys)"
  by (simp add: db_ok_def demo_sys_def empty_db_def effects_unique_def demo_permit_row_def)

lemma demo_consumed: "demo_consume demo_sys = (Inr (True, []), snd (demo_consume demo_sys))"
  by (rule run_eqI) code_simp

theorem permit_single_use_witness:
  "fst (demo_consume demo_sys) = Inr (True, [])
    \<and> fst (demo_consume (run_actions [ClockMoves 0] (snd (demo_consume demo_sys)))) \<noteq> Inr (True, [])"
proof (intro conjI run_neqI)
  fix u show "demo_consume (run_actions [ClockMoves 0] (snd (demo_consume demo_sys))) \<noteq> (Inr (True, []), u)"
    using permit_single_use [OF demo_sys_ok demo_consumed [unfolded demo_consume_def]] unfolding demo_consume_def .
qed (use demo_consumed in \<open>metis fst_conv\<close>)

theorem void_beats_late_consumption_witness:
  "fst (demo_consume (run_actions [] (snd (void_unconsumed_permits ''intent-0000000001'' demo_sys)))) \<noteq> Inr (True, [])"
proof (rule run_neqI)
  have "permit_of (db demo_sys) ''permit-1'' = Some demo_permit_row" by code_simp
  moreover have "pr_intent_id demo_permit_row = ''intent-0000000001''" by (simp add: demo_permit_row_def)
  moreover have "void_unconsumed_permits ''intent-0000000001'' demo_sys =
      (Inr 1, snd (void_unconsumed_permits ''intent-0000000001'' demo_sys))"
    by (rule run_eqI) code_simp
  ultimately show "demo_consume (run_actions [] (snd (void_unconsumed_permits ''intent-0000000001'' demo_sys)))
      \<noteq> (Inr (True, []), u)" for u
    unfolding demo_consume_def by (rule void_beats_late_consumption [OF demo_sys_ok])
qed

theorem revocation_is_final_witness:
  "fst (set_grant_status demo_cfg ''principal:alice'' ''grant-1'' 1 GS_REVOKED demo_sys) = Inr ()
    \<and> fst (demo_consume (run_actions [] (snd (set_grant_status demo_cfg ''principal:alice'' ''grant-1'' 1 GS_REVOKED demo_sys))))
        \<noteq> Inr (True, [])"
proof -
  let ?r = "set_grant_status demo_cfg ''principal:alice'' ''grant-1'' 1 GS_REVOKED demo_sys"
  have r: "fst ?r = Inr ()" by code_simp
  have "demo_consume (run_actions [] (snd ?r)) \<noteq> (Inr (True, []), u)" for u
    using revocation_is_final [OF demo_sys_ok run_eqI [OF r]] unfolding demo_consume_def by blast
  with r show ?thesis by (intro conjI run_neqI)
qed

theorem halt_kills_issued_permits_witness:
  "fst (halt demo_cfg ''global'' ''drill'' False demo_sys) = Inr 1
    \<and> fst (demo_consume (run_actions [Resume demo_cfg ''global''] (snd (halt demo_cfg ''global'' ''drill'' False demo_sys))))
        \<noteq> Inr (True, [])"
proof -
  let ?r = "halt demo_cfg ''global'' ''drill'' False demo_sys"
  have r: "fst ?r = Inr 1" by code_simp
  have "grant_of (db demo_sys) ''grant-1'' 1 = Some demo_grant_row" by code_simp
  then have "demo_consume (run_actions [Resume demo_cfg ''global''] (snd ?r)) \<noteq> (Inr (True, []), u)" for u
    using halt_kills_issued_permits [OF demo_sys_ok run_eqI [OF r], where gid = "''grant-1''" and v = 1 and g = demo_grant_row]
    unfolding demo_consume_def by (metis demo_grant_row_def grant_row.select_convs(7) order_refl GLOBAL_CONTROL_SCOPE_def)
  with r show ?thesis by (intro conjI run_neqI)
qed

theorem restore_cannot_replay_witness:
  "fst (demo_consume demo_sys) = Inr (True, [])
    \<and> fst (demo_consume ((run_actions [] (snd (demo_consume demo_sys)))\<lparr>db := db demo_sys\<rparr>)) \<noteq> Inr (True, [])"
proof -
  have anchored: "c_has_anchor demo_cfg" by (simp add: demo_cfg_def)
  have "demo_consume ((run_actions [] (snd (demo_consume demo_sys)))\<lparr>db := db demo_sys\<rparr>) \<noteq> (Inr (True, []), u)" for u
    using restore_cannot_replay [OF demo_sys_ok demo_consumed [unfolded demo_consume_def] anchored demo_sys_ok db_evolves_refl anchored]
    unfolding demo_consume_def by blast
  with demo_consumed show ?thesis by (intro conjI run_neqI) (metis fst_conv)
qed

definition demo_closed :: sys where
  "demo_closed = demo_sys\<lparr>db := (db demo_sys)\<lparr>intents := [(new_intent_row demo_intent ''hash'' ''{}'' 0)\<lparr>it_state := S_FINALIZED\<rparr>]\<rparr>\<rparr>"

lemma terminal_intent_is_closed_witness:
  "\<exists>q. intent_of (db (run_actions [Transition (i_intent_id demo_intent) [S_FINALIZED] S_SUBMITTED no_args] demo_closed))
      (i_intent_id demo_intent) = Some q \<and> it_state q = S_FINALIZED"
proof -
  let ?r = "(new_intent_row demo_intent ''hash'' ''{}'' 0)\<lparr>it_state := S_FINALIZED\<rparr>"
  have "db_ok (db demo_closed)"
    by (simp add: db_ok_def demo_closed_def demo_sys_def empty_db_def effects_unique_def demo_permit_row_def)
  moreover have "intent_of (db demo_closed) (i_intent_id demo_intent) = Some ?r"
    by (simp add: demo_closed_def intent_of_def new_intent_row_def)
  moreover have "is_terminal (it_state ?r)" by (simp add: is_terminal_def TERMINAL_STATES_def)
  ultimately show ?thesis
    using terminal_intent_is_closed [of demo_closed "i_intent_id demo_intent" ?r
       "[Transition (i_intent_id demo_intent) [S_FINALIZED] S_SUBMITTED no_args]"] by auto
qed

end
