(* ===== verification/Store_Frames.thy ===== *)
theory Store_Frames
  imports Store_System
begin

text \<open>
  Frame lemmas: which tables an operation leaves alone.

  \<open>same f\<close> relates two states whose databases look the same through \<open>f\<close>. For an
  operation, \<open>same f\<close> is guaranteed as soon as \<open>f\<close> does not see the columns the operation
  writes; the premises of each lemma are the operation's write set. The last section
  instantiates them for the reservation, attempt and evidence tables.
\<close>

definition same :: "(db \<Rightarrow> 'b) \<Rightarrow> sys \<Rightarrow> sys \<Rightarrow> bool" where
  "same f s t \<longleftrightarrow> f (db t) = f (db s)"

interpretation framing: step_preorder "same f" for f
  by unfold_locales (simp_all add: same_def)

lemma same_transaction: "guarantees (same f) m \<Longrightarrow> guarantees (same f) (transaction m)"
  unfolding guarantees_def transaction_def
  by (auto simp: same_def split: prod.splits sum.splits) (metis snd_conv)

lemma same_read_db: "guarantees (same f) (read_db h)"
  by (simp add: guarantees_wp wp_simps same_def)

lemma same_write_db: "(\<And>d. f (h d) = f d) \<Longrightarrow> guarantees (same f) (write_db h)"
  by (simp add: guarantees_wp wp_simps same_def)

lemma same_store_now: "guarantees (same f) store_now"
  by (simp add: guarantees_wp wp_simps same_def)

lemma same_anchor: "guarantees (same f) (on_anchor_of m)"
  by (auto simp: guarantees_def on_anchor_of_def same_def split: prod.splits)

lemma same_require_anchor: "guarantees (same f) (require_anchor c)"
  by (simp add: guarantees_wp wp_simps same_def)

lemma same_anchor_record: "guarantees (same f) (anchor_record c g v e k)"
  by (simp add: guarantees_wp wp_simps same_def)

lemma same_anchor_regressed: "guarantees (same f) (anchor_regressed c g v e k)"
  by (simp add: guarantees_wp wp_simps same_def)

lemmas same_rules =
  framing.guar_rules same_transaction same_read_db same_store_now same_anchor same_require_anchor
  same_anchor_record same_anchor_regressed same_write_db

section \<open>Grants, controls, caps\<close>

lemma raise_marks_behind_same: "guarantees (same f) (raise_marks_behind rows)"
proof (induction rows)
  case (Cons r rows)
  have rest: "same f s (snd (raise_marks_behind rows t))" if "same f s t" for s t
    using Cons.IH that by (auto simp: guarantees_def same_def)
  have mark: "same f s (s\<lparr>anchor := b\<rparr>)" for s b by (simp add: same_def)
  show ?case
    unfolding guarantees_def
    by (auto simp: on_anchor_of_high_water on_anchor_of_def [of "record_mark g v k" for g v k]
        intro!: rest mark framing.step_refl split: sum.splits prod.splits)
qed (simp add: same_rules)

lemma open_store_same:
  assumes "\<And>d x. f (d\<lparr>set_anchor_id := x\<rparr>) = f d" and "\<And>d x. f (d\<lparr>set_anchor_required := x\<rparr>) = f d"
    and "\<And>d x. f (d\<lparr>set_heads_since := x\<rparr>) = f d"
  shows "guarantees (same f) (open_store ha key fresh inst host pid L)"
  unfolding open_store_def bind_anchor_setting_def bind_heads_since_def raise_anchor_marks_behind_rows_def
  by (intro same_rules assms raise_marks_behind_same)

lemma record_rows_same: "guarantees (same f) (record_rows c rows)"
  by (auto simp: guarantees_wp same_def intro!: wp_record_rows)

lemma grant_ops_same:
  assumes "\<And>d x. f (d\<lparr>grants := x\<rparr>) = f d"
  shows "guarantees (same f) (provision_grant c g h)" and "guarantees (same f) (set_grant_status c who gid v st)"
    and "guarantees (same f) (next_execution_fence c g)" and "guarantees (same f) (revoke_after_restore c gid v)"
  unfolding provision_grant_def set_grant_status_def set_grant_status_txn_def next_execution_fence_def
    revoke_after_restore_def
  by (intro same_rules assms)+

lemma control_ops_same:
  assumes "\<And>d x y. f (d\<lparr>controls := x, grants := y\<rparr>) = f d" and "\<And>d x. f (d\<lparr>controls := x\<rparr>) = f d"
  shows "guarantees (same f) (halt c scope reason allow)" and "guarantees (same f) (resume c scope)"
  unfolding halt_def resume_def by (intro same_rules assms record_rows_same)+

lemma set_exposure_cap_same:
  assumes "\<And>d x. f (d\<lparr>caps := x\<rparr>) = f d" and "\<And>d x. f (d\<lparr>set_caps_version := x\<rparr>) = f d"
  shows "guarantees (same f) (set_exposure_cap c scope amount allow)"
  unfolding set_exposure_cap_def set_cap_txn_def bump_caps_version_def by (intro same_rules assms)

section \<open>Budgets and permits\<close>

lemma reserve_usage_same:
  assumes "\<And>d x y. f (d\<lparr>risk_claims := x, usage := y\<rparr>) = f d"
  shows "guarantees (same f) (reserve_usage c i g r now)"
  unfolding reserve_usage_def exposure_caps_regressed_def by (intro same_rules assms)

lemma settle_ops_same:
  assumes "\<And>d st iid ts. f (settle_usage st iid ts d) = f d"
  shows "guarantees (same f) (commit_usage iid)" and "guarantees (same f) (release_usage iid)"
  unfolding commit_usage_def release_usage_def by (intro same_rules assms)+

lemma claim_permit_risk_state_same:
  assumes "\<And>d x. f (d\<lparr>permit_claims := x\<rparr>) = f d"
  shows "guarantees (same f) (claim_permit_risk_state i g r)"
  unfolding claim_permit_risk_state_def by (intro same_rules assms)

lemma record_execution_permit_same:
  assumes "\<And>d x. f (d\<lparr>permits := x\<rparr>) = f d"
    and "\<And>d P e. f (d\<lparr>intents := upd P (\<lambda>r. r\<lparr>it_ambiguity_until := e\<rparr>) (intents d)\<rparr>) = f d"
  shows "guarantees (same f) (record_execution_permit pid i g epoch fence h expires now)"
  unfolding record_execution_permit_def by (intro same_rules assms)

lemma consume_execution_permit_same:
  assumes "\<And>d x y. f (d\<lparr>permits := x, grants := y\<rparr>) = f d"
  shows "guarantees (same f) (consume_execution_permit c pid who gid v epoch fence h)"
proof -
  have "f (consumed_db pid gid v ts d) = f d" for pid gid v ts d by (simp add: consumed_db_def assms)
  then show ?thesis
    unfolding consume_execution_permit_def commit_consumption_def by (intro same_rules)
qed

lemma void_unconsumed_permits_same:
  assumes "\<And>d x. f (d\<lparr>permits := x\<rparr>) = f d"
  shows "guarantees (same f) (void_unconsumed_permits iid)"
  unfolding void_unconsumed_permits_def by (intro same_rules assms)

section \<open>Intents and evidence\<close>

lemma append_evidence_same:
  assumes "\<And>d iid who etype p now. f (add_event c iid who etype p now d) = f d"
  shows "guarantees (same f) (append_evidence_in_txn c iid who etype payload)"
  unfolding append_evidence_in_txn_def by (intro same_rules assms)

lemma evidence_ops_same:
  assumes "\<And>d iid who etype p now. f (add_event c iid who etype p now d) = f d" and "\<And>d x. f (d\<lparr>heads := x\<rparr>) = f d"
  shows "guarantees (same f) (add_evidence c iid etype payload)"
    and "guarantees (same f) (rebuild_evidence_head c iid allow)"
    and "guarantees (same f) (rebuild_evidence_heads c allow)"
proof -
  show "guarantees (same f) (add_evidence c iid etype payload)"
    unfolding add_evidence_def by (intro same_rules append_evidence_same assms)
  have head: "guarantees (same f) (rebuild_evidence_head c iid allow)" for iid
    unfolding rebuild_evidence_head_def by (intro same_rules append_evidence_same assms)
  then show "guarantees (same f) (rebuild_evidence_head c iid allow)" .
  have "guarantees (same f) (rebuild_each c allow iids)" for iids
    by (induction iids) (auto intro!: same_rules head)
  then show "guarantees (same f) (rebuild_evidence_heads c allow)"
    unfolding rebuild_evidence_heads_def by (intro same_rules)
qed

lemma register_same:
  assumes "\<And>d iid who etype p now. f (add_event c iid who etype p now d) = f d" and "\<And>d x. f (d\<lparr>intents := x\<rparr>) = f d"
  shows "guarantees (same f) (register c i h)"
  unfolding register_def get_intent_def by (intro same_rules append_evidence_same assms)

lemma transition_same:
  assumes "\<And>d st a now r. f (d\<lparr>intents := upd (\<lambda>q. it_intent_id q = iid) (\<lambda>_. transition_row st a now r) (intents d)\<rparr>) = f d"
    and "\<And>d st iid ts. f (settle_usage st iid ts d) = f d"
  shows "guarantees (same f) (transition iid expected st a)"
  unfolding transition_def by (intro same_rules assms)

lemma begin_submission_same:
  assumes "\<And>d x y z. f (d\<lparr>attempts := x, intents := y, usage := z\<rparr>) = f d"
  shows "guarantees (same f) (begin_submission iid expected n now)"
  unfolding begin_submission_def by (intro same_rules assms)

lemma lease_ops_same:
  assumes "\<And>d x. f (d\<lparr>leases := x\<rparr>) = f d"
  shows "guarantees (same f) (acquire_lease c iid)" and "guarantees (same f) (release_lease c iid)"
    and "guarantees (same f) (clear_stale_intent_lease c alive iid owner force)"
  unfolding acquire_lease_def release_lease_def clear_stale_intent_lease_def by (intro same_rules assms)+

section \<open>The tables under every action\<close>

lemma exec_same: "guarantees (same f) m \<Longrightarrow> f (db (exec m s)) = f (db s)"
  by (simp add: guarantees_def exec_def same_def)

lemmas all_same =
  open_store_same grant_ops_same control_ops_same set_exposure_cap_same reserve_usage_same settle_ops_same
  claim_permit_risk_state_same record_execution_permit_same consume_execution_permit_same
  void_unconsumed_permits_same evidence_ops_same register_same transition_same begin_submission_same
  lease_ops_same

lemma add_event_frame [simp]:
  "usage (add_event c iid who etype p now d) = usage d" "attempts (add_event c iid who etype p now d) = attempts d"
  "intents (add_event c iid who etype p now d) = intents d" "grants (add_event c iid who etype p now d) = grants d"
  "permits (add_event c iid who etype p now d) = permits d"
  by (simp_all add: add_event_def Let_def)

lemma settle_usage_frame [simp]:
  "length (usage (settle_usage st iid ts d)) = length (usage d)" "attempts (settle_usage st iid ts d) = attempts d"
  "evidence (settle_usage st iid ts d) = evidence d" "heads (settle_usage st iid ts d) = heads d"
  "intents (settle_usage st iid ts d) = intents d" "permits (settle_usage st iid ts d) = permits d"
  by (simp_all add: settle_usage_def)

text \<open>Only a reservation adds a row to the usage table, only the start of an attempt one to the attempts.\<close>

fun is_reserve :: "store_action \<Rightarrow> bool" where
  "is_reserve (Reserve c i g r now) = True"
| "is_reserve a = False"

fun is_begin :: "store_action \<Rightarrow> bool" where
  "is_begin (BeginSubmission iid expected n now) = True"
| "is_begin a = False"

lemma begin_submission_usage_length:
  "guarantees (same (\<lambda>d. length (usage d))) (begin_submission iid expected n now)"
  unfolding begin_submission_def by (intro same_rules) simp

lemma perform_usage_length: "\<not> is_reserve a \<Longrightarrow> length (usage (db (perform a s))) = length (usage (db s))"
  by (cases a) (simp_all add: exec_same [where f = "\<lambda>d. length (usage d)"] all_same begin_submission_usage_length)

lemma perform_attempts: "\<not> is_begin a \<Longrightarrow> attempts (db (perform a s)) = attempts (db s)"
  by (cases a) (simp_all add: exec_same [where f = attempts] all_same)

end
