(* ===== verification/Store_Budget.thy ===== *)
theory Store_Budget
  imports Store_Frames
begin

text \<open>
  The budget guarantees of the store over every interleaving of transactions.

  Turnover: for every grant and principal, the amounts held or committed inside any
  window of 24 hours stay inside the daily limit. Velocity: the venue attempts inside any
  window of the configured length stay inside the action limit. Both hold whatever the
  clocks of the workers say, because each admission looks at everything not older than
  one window before its own time stamp.

  Amounts are compared exactly, in units of \<open>10^-8\<close>: the sums the code forms round to 28
  significant digits, which is exact for amounts of the money grammar.
\<close>

section \<open>Windows\<close>

definition in_window :: "int \<Rightarrow> int \<Rightarrow> int \<Rightarrow> bool" where
  "in_window a w t \<longleftrightarrow> a \<le> t \<and> t \<le> a + w"

definition window_rows :: "db \<Rightarrow> string \<Rightarrow> string \<Rightarrow> int \<Rightarrow> usage_row list" where
  "window_rows d gid who a =
     filter (\<lambda>r. us_grant_id r = gid \<and> us_principal_id r = who \<and> counted r \<and>
       (case us_velocity_ts r of None \<Rightarrow> False | Some t \<Rightarrow> in_window a TURNOVER_WINDOW_SECONDS t)) (usage d)"

definition window_turnover :: "db \<Rightarrow> string \<Rightarrow> string \<Rightarrow> int \<Rightarrow> int" where
  "window_turnover d gid who a = sum_list (map (\<lambda>r. cents (us_amount r)) (window_rows d gid who a))"

definition window_attempts :: "db \<Rightarrow> string \<Rightarrow> string \<Rightarrow> int \<Rightarrow> int \<Rightarrow> int" where
  "window_attempts d gid who w a =
     sum_list (map sa_count (filter (\<lambda>r. sa_grant_id r = gid \<and> sa_principal_id r = who \<and> in_window a w (sa_attempted_at r))
       (attempts d)))"

section \<open>The effect of a reservation\<close>

lemma reserve_effect:
  assumes "reserve_usage c i g r now s = (q, t)"
  obtains "usage (db t) = usage (db s)"
  | amount where "reservation_amount i = Some amount"
    and "usage (db t) = usage (db s) @ [new_usage i g amount now (wall s)]"
    and "claim_reasons (db s) i g r = []" and "turnover_reasons (db s) g amount now = []"
    and "cap_reasons (db s) (i_principal_id i) amount (epoch_seconds now) (exposure_caps_of (db s) (i_principal_id i)) = []"
    and "velocity_reasons (db s) g now = []" and "q = Inr (True, [])"
proof -
  define D where "D = (\<lambda>(q :: exn + bool \<times> string list) t :: sys. usage (db t) = usage (db s) \<or>
    (\<exists>amount. reservation_amount i = Some amount
      \<and> usage (db t) = usage (db s) @ [new_usage i g amount now (wall s)]
      \<and> claim_reasons (db s) i g r = [] \<and> turnover_reasons (db s) g amount now = []
      \<and> cap_reasons (db s) (i_principal_id i) amount (epoch_seconds now) (exposure_caps_of (db s) (i_principal_id i)) = []
      \<and> velocity_reasons (db s) g now = [] \<and> q = Inr (True, [])))"
  have "wp (reserve_usage c i g r now) D s"
    unfolding reserve_usage_def
    by (auto simp: wp_simps D_def split: option.splits sum.splits)
  from wpD [OF this assms] that show ?thesis unfolding D_def by blast
qed

lemma sum_list_filter_mono:
  fixes f :: "'a \<Rightarrow> int"
  assumes "\<And>x. x \<in> set xs \<Longrightarrow> 0 \<le> f x" and "\<And>x. x \<in> set xs \<Longrightarrow> P x \<Longrightarrow> Q x"
  shows "sum_list (map f (filter P xs)) \<le> sum_list (map f (filter Q xs))"
  using assms by (induction xs) (auto intro: add_increasing)

lemma reservation_amount_positive:
  assumes "reservation_amount i = Some a" and "micro a"
  shows "0 \<le> cents a"
proof (cases "is_monetary (i_primitive i)")
  case True
  then have "\<not> dle a dzero" using assms(1) by (auto simp: reservation_amount_def split: option.splits if_splits)
  then have "dlt dzero a" by (simp add: dlt_def dle_def)
  then show ?thesis using dlt_cents [of dzero a] assms(2) by (simp add: dzero_def)
qed (use assms in \<open>auto simp: reservation_amount_def dzero_def\<close>)

section \<open>Turnover\<close>

definition amounts_ok :: "db \<Rightarrow> bool" where
  "amounts_ok d \<longleftrightarrow> (\<forall>r \<in> set (usage d). micro (us_amount r) \<and> 0 \<le> cents (us_amount r))"

text \<open>
  What is assumed of the admissions: amounts are multiples of \<open>10^-8\<close> (every amount of the
  money grammar is), and every reservation for this grant and principal is made under a
  grant of that principal whose daily limit is at most \<open>limit\<close>.
\<close>

fun budget_action :: "string \<Rightarrow> string \<Rightarrow> int \<Rightarrow> store_action \<Rightarrow> bool" where
  "budget_action gid who limit (Reserve c i g r now) =
     ((case reservation_amount i of None \<Rightarrow> True | Some a \<Rightarrow> micro a) \<and>
      (g_grant_id g = gid \<and> i_principal_id i = who \<longrightarrow>
         g_principal_id g = who \<and>
         (case max_daily_turnover_usd (g_limits g) of None \<Rightarrow> False | Some m \<Rightarrow> micro m \<and> cents m \<le> limit)))"
| "budget_action gid who limit a = True"

lemma usage_evolves_fields:
  assumes "usage_evolves r q"
  shows "us_amount q = us_amount r" and "us_grant_id q = us_grant_id r" and "us_principal_id q = us_principal_id r"
    and "us_velocity_ts q = us_velocity_ts r" and "us_max_actions q = us_max_actions r" and "us_window q = us_window r"
    and "counted q \<Longrightarrow> counted r"
proof -
  have core: "usage_core q = usage_core r" using assms by (simp add: usage_evolves_def)
  show "us_amount q = us_amount r" using arg_cong [OF core, of us_amount] by (simp add: usage_core_def)
  show "us_grant_id q = us_grant_id r" using arg_cong [OF core, of us_grant_id] by (simp add: usage_core_def)
  show "us_principal_id q = us_principal_id r" using arg_cong [OF core, of us_principal_id] by (simp add: usage_core_def)
  show "us_velocity_ts q = us_velocity_ts r" using arg_cong [OF core, of us_velocity_ts] by (simp add: usage_core_def)
  show "us_max_actions q = us_max_actions r" using arg_cong [OF core, of us_max_actions] by (simp add: usage_core_def)
  show "us_window q = us_window r" using arg_cong [OF core, of us_window] by (simp add: usage_core_def)
  show "counted q \<Longrightarrow> counted r" using assms by (cases "us_status r") (auto simp: usage_evolves_def counted_def)
qed

text \<open>Rows that only evolve, with none added, carry no more turnover.\<close>

lemma evolved_rows_sum:
  assumes "list_all2 usage_evolves xs ys" and "\<forall>r \<in> set xs. 0 \<le> cents (us_amount r)"
  shows "sum_list (map (\<lambda>r. cents (us_amount r)) (filter (\<lambda>r. us_grant_id r = gid \<and> us_principal_id r = who \<and> counted r \<and> P (us_velocity_ts r)) ys))
    \<le> sum_list (map (\<lambda>r. cents (us_amount r)) (filter (\<lambda>r. us_grant_id r = gid \<and> us_principal_id r = who \<and> counted r \<and> P (us_velocity_ts r)) xs))"
  using assms
proof (induction rule: list_all2_induct)
  case (Cons x xs y ys)
  note e = usage_evolves_fields [OF Cons.hyps(1)]
  show ?case using Cons e by (auto intro: add_increasing)
qed simp

lemma grows_list_all2: "grows R xs ys \<Longrightarrow> length ys = length xs \<Longrightarrow> list_all2 R xs ys"
  by (simp add: grows_def list_all2_conv_all_nth)

lemma evolved_amounts_ok:
  assumes "list_all2 usage_evolves (usage d) (usage e)" and "amounts_ok d"
  shows "amounts_ok e"
  unfolding amounts_ok_def
proof
  fix q assume "q \<in> set (usage e)"
  then obtain r where "r \<in> set (usage d)" "usage_evolves r q"
    using assms(1) by (metis list_all2_conv_all_nth in_set_conv_nth)
  with usage_evolves_fields(1) assms(2) show "micro (us_amount q) \<and> 0 \<le> cents (us_amount q)"
    by (simp add: amounts_ok_def)
qed

definition turnover_inv :: "string \<Rightarrow> string \<Rightarrow> int \<Rightarrow> db \<Rightarrow> bool" where
  "turnover_inv gid who limit d \<longleftrightarrow> amounts_ok d \<and> (\<forall>a. window_turnover d gid who a \<le> limit)"

lemma reserve_turnover_inv:
  assumes inv: "turnover_inv gid who limit (db s)" and limit: "0 \<le> limit" "limit < 10 ^ 28"
    and act: "budget_action gid who limit (Reserve c i g r now)"
    and step: "reserve_usage c i g r now s = (q, t)"
  shows "turnover_inv gid who limit (db t)"
  using step
proof (cases rule: reserve_effect)
  case 1
  then show ?thesis using inv by (simp add: turnover_inv_def amounts_ok_def window_turnover_def window_rows_def)
next
  case (2 amount)
  have am: "micro amount" "0 \<le> cents amount"
    using act 2(1) reservation_amount_positive [OF 2(1)] by auto
  let ?new = "new_usage i g amount now (wall s)"
  have ok: "amounts_ok (db t)"
    using inv am unfolding turnover_inv_def amounts_ok_def 2(2) by (auto simp: new_usage_def)
  have "window_turnover (db t) gid who a \<le> limit" for a
  proof (cases "g_grant_id g = gid \<and> i_principal_id i = who \<and> in_window a TURNOVER_WINDOW_SECONDS (epoch_seconds now)")
    case False
    then have "window_turnover (db t) gid who a = window_turnover (db s) gid who a"
      by (auto simp: window_turnover_def window_rows_def 2(2) new_usage_def)
    then show ?thesis using inv by (simp add: turnover_inv_def)
  next
    case True
    then obtain m where m: "max_daily_turnover_usd (g_limits g) = Some m" "micro m" "cents m \<le> limit"
      and who: "g_principal_id g = who"
      using act by (auto split: option.splits)
    let ?rows = "turnover_rows (db s) gid who (epoch_seconds now - TURNOVER_WINDOW_SECONDS) (date_isoformat now)"
    have all: "\<forall>r \<in> set (usage (db s)). micro (us_amount r) \<and> 0 \<le> cents (us_amount r)"
      using inv by (simp add: turnover_inv_def amounts_ok_def)
    have "\<not> dlt m (dec_add (dec_sum (map us_amount ?rows)) amount)"
      using 2(4) m(1) who True by (auto simp: turnover_reasons_def Let_def split: if_splits)
    then have check: "sum_list (map cents (map us_amount ?rows)) + cents amount \<le> cents m"
      using all am m limit by (intro limit_check_exact) (auto simp: turnover_rows_def)
    have "window_turnover (db s) gid who a \<le> sum_list (map (\<lambda>r. cents (us_amount r)) ?rows)"
      unfolding window_turnover_def window_rows_def turnover_rows_def
      using all True by (intro sum_list_filter_mono)
        (auto simp: own_or_legacy_def in_window_def split: option.splits)
    moreover have "window_turnover (db t) gid who a = window_turnover (db s) gid who a + cents amount"
      using True am(1) by (simp add: window_turnover_def window_rows_def 2(2) new_usage_def counted_def)
    ultimately show ?thesis using check m(3) by (simp add: comp_def)
  qed
  with ok show ?thesis by (simp add: turnover_inv_def)
qed

lemma perform_turnover_inv:
  assumes inv: "turnover_inv gid who limit (db s)" and ok: "db_ok (db s)" and limit: "0 \<le> limit" "limit < 10 ^ 28"
    and act: "budget_action gid who limit a"
  shows "turnover_inv gid who limit (db (perform a s))"
proof (cases "is_reserve a")
  case True
  then obtain c i g r now where a: "a = Reserve c i g r now" by (cases a) auto
  obtain q t where "reserve_usage c i g r now s = (q, t)" by (cases "reserve_usage c i g r now s")
  with reserve_turnover_inv [OF inv limit] act a show ?thesis by (simp add: exec_def)
next
  case False
  have "db_evolves (db s) (db (perform a s))" using perform_keeps [of s a] ok by (simp add: keeps_def)
  then have l2: "list_all2 usage_evolves (usage (db s)) (usage (db (perform a s)))"
    using perform_usage_length [OF False] by (auto simp: db_evolves_def intro: grows_list_all2)
  have "window_turnover (db (perform a s)) gid who b \<le> window_turnover (db s) gid who b" for b
    unfolding window_turnover_def window_rows_def
    using evolved_rows_sum [OF l2] inv by (simp add: turnover_inv_def amounts_ok_def)
  then show ?thesis
    using inv evolved_amounts_ok [OF l2] by (auto simp: turnover_inv_def intro: order_trans)
qed

text \<open>
  C21. The daily limit is never exceeded: after any sequence of store transactions that admits
  money only through reservations under grants whose daily limit is at most \<open>limit\<close>, the
  amounts held or committed for the grant and principal inside any 24-hour window sum to
  at most \<open>limit\<close>, in every reachable state, for all versions of the grant together, in any
  interleaving and with any clock values.
\<close>

theorem turnover_never_exceeded:
  assumes "0 \<le> limit" and "limit < 10 ^ 28" and "list_all (budget_action gid who limit) as"
  shows "window_turnover (db (run_actions as (fresh_sys an t0))) gid who a \<le> limit"
proof -
  have "turnover_inv gid who limit (db (run_actions as s))"
    if "turnover_inv gid who limit (db s)" "db_ok (db s)" for s
    using that assms(3)
  proof (induction as arbitrary: s)
    case (Cons b bs)
    have "turnover_inv gid who limit (db (perform b s))"
      using Cons.prems assms(1,2) by (intro perform_turnover_inv) auto
    moreover have "db_ok (db (perform b s))" using perform_keeps [of s b] Cons.prems by (simp add: keeps_def)
    ultimately show ?case using Cons by simp
  qed simp
  moreover have "turnover_inv gid who limit (db (fresh_sys an t0))"
    using assms(1) by (simp add: turnover_inv_def amounts_ok_def fresh_sys_def empty_db_def window_turnover_def window_rows_def)
  ultimately show ?thesis by (simp add: turnover_inv_def fresh_sys_def)
qed

section \<open>Action velocity\<close>

lemma begin_effect:
  assumes "begin_submission iid expected n now s = (q, t)"
  obtains "attempts (db t) = attempts (db s)"
  | u row where "find (\<lambda>u. us_intent_id u = iid) (usage (db s)) = Some u"
    and "attempts (db t) = attempts (db s) @ [row]"
    and "sa_grant_id row = us_grant_id u" and "sa_principal_id row = us_principal_id u"
    and "sa_attempted_at row = epoch_seconds now" and "sa_count row = 1"
    and "\<And>cap w. us_max_actions u = Some cap \<Longrightarrow> us_window u = Some w \<Longrightarrow>
      action_velocity_count (db s) (us_grant_id u) (us_principal_id u) (epoch_seconds now - w) (Some iid) + 1 \<le> cap"
proof -
  define D where "D = (\<lambda>t :: sys. attempts (db t) = attempts (db s) \<or>
    (\<exists>u row. find (\<lambda>u. us_intent_id u = iid) (usage (db s)) = Some u
      \<and> attempts (db t) = attempts (db s) @ [row]
      \<and> sa_grant_id row = us_grant_id u \<and> sa_principal_id row = us_principal_id u
      \<and> sa_attempted_at row = epoch_seconds now \<and> sa_count row = 1
      \<and> (\<forall>cap w. us_max_actions u = Some cap \<longrightarrow> us_window u = Some w \<longrightarrow>
          action_velocity_count (db s) (us_grant_id u) (us_principal_id u) (epoch_seconds now - w) (Some iid) + 1 \<le> cap)))"
  have "wp (begin_submission iid expected n now) (\<lambda>q. D) s"
    unfolding begin_submission_def
    by (auto simp: wp_simps D_def Let_def split: option.splits)
  from wpD [OF this assms] that show ?thesis unfolding D_def by blast
qed

definition velocity_inv :: "string \<Rightarrow> string \<Rightarrow> int \<Rightarrow> int \<Rightarrow> db \<Rightarrow> bool" where
  "velocity_inv gid who n w d \<longleftrightarrow>
     (\<forall>r \<in> set (usage d). us_grant_id r = gid \<and> us_principal_id r = who \<longrightarrow>
        (\<exists>m x. us_max_actions r = Some m \<and> m \<le> n \<and> us_window r = Some x \<and> w \<le> x))
     \<and> (\<forall>r \<in> set (attempts d). 0 \<le> sa_count r)
     \<and> (\<forall>a. window_attempts d gid who w a \<le> n)"

fun velocity_action :: "string \<Rightarrow> string \<Rightarrow> int \<Rightarrow> int \<Rightarrow> store_action \<Rightarrow> bool" where
  "velocity_action gid who n w (Reserve c i g r now) =
     (g_grant_id g = gid \<and> i_principal_id i = who \<longrightarrow>
        (case (max_actions_per_window (g_limits g), action_window_seconds (g_limits g)) of
           (Some m, Some x) \<Rightarrow> m \<le> n \<and> w \<le> x | _ \<Rightarrow> False))"
| "velocity_action gid who n w a = True"

lemma begin_velocity_inv:
  assumes inv: "velocity_inv gid who n w (db s)"
    and step: "begin_submission iid expected k now s = (q, t)"
  shows "\<forall>a. window_attempts (db t) gid who w a \<le> n"
    and "\<forall>r \<in> set (attempts (db t)). 0 \<le> sa_count r"
proof -
  have "(\<forall>a. window_attempts (db t) gid who w a \<le> n) \<and> (\<forall>r \<in> set (attempts (db t)). 0 \<le> sa_count r)"
    using step
  proof (cases rule: begin_effect)
    case 1
    then show ?thesis using inv by (simp add: velocity_inv_def window_attempts_def)
  next
    case (2 u row)
    have pos: "\<forall>r \<in> set (attempts (db t)). 0 \<le> sa_count r" using inv 2(2,6) by (auto simp: velocity_inv_def)
    have "window_attempts (db t) gid who w a \<le> n" for a
    proof (cases "us_grant_id u = gid \<and> us_principal_id u = who \<and> in_window a w (epoch_seconds now)")
      case False
      then have "window_attempts (db t) gid who w a = window_attempts (db s) gid who w a"
        using 2 by (auto simp: window_attempts_def)
      then show ?thesis using inv by (simp add: velocity_inv_def)
    next
      case True
      then obtain m x where m: "us_max_actions u = Some m" "m \<le> n" "us_window u = Some x" "w \<le> x"
        using inv find_SomeD [OF 2(1)] unfolding velocity_inv_def by blast
      have "window_attempts (db s) gid who w a \<le> attempted_actions (db s) gid who (epoch_seconds now - x)"
        unfolding window_attempts_def attempted_actions_def
        using inv True m(4) by (intro sum_list_filter_mono) (auto simp: velocity_inv_def own_or_legacy_def in_window_def)
      also have "\<dots> \<le> action_velocity_count (db s) gid who (epoch_seconds now - x) (Some iid)"
        by (simp add: action_velocity_count_def pending_actions_def)
      finally have "window_attempts (db s) gid who w a + 1 \<le> m"
        using 2(7) [OF m(1,3)] True by simp
      moreover have "window_attempts (db t) gid who w a = window_attempts (db s) gid who w a + 1"
        using 2(2-6) True by (simp add: window_attempts_def)
      ultimately show ?thesis using m(2) by linarith
    qed
    with pos show ?thesis by blast
  qed
  then show "\<forall>a. window_attempts (db t) gid who w a \<le> n" "\<forall>r \<in> set (attempts (db t)). 0 \<le> sa_count r" by auto
qed

lemma reserve_usage_snapshots:
  assumes "reserve_usage c i g r now s = (q, t)" and "velocity_action gid who n w (Reserve c i g r now)"
    and "u \<in> set (usage (db t))" and "us_grant_id u = gid" and "us_principal_id u = who"
  shows "u \<in> set (usage (db s)) \<or> (\<exists>m x. us_max_actions u = Some m \<and> m \<le> n \<and> us_window u = Some x \<and> w \<le> x)"
  using assms(1)
proof (cases rule: reserve_effect)
  case (2 amount)
  then show ?thesis using assms(2-) by (auto simp: new_usage_def split: option.splits)
qed (use assms(3) in simp)

lemma perform_velocity_inv:
  assumes inv: "velocity_inv gid who n w (db s)" and ok: "db_ok (db s)" and act: "velocity_action gid who n w a"
  shows "velocity_inv gid who n w (db (perform a s))"
proof -
  let ?t = "perform a s"
  have grow: "grows usage_evolves (usage (db s)) (usage (db ?t))"
    using perform_keeps [of s a] ok by (simp add: keeps_def db_evolves_def)
  have snap: "\<exists>m x. us_max_actions u = Some m \<and> m \<le> n \<and> us_window u = Some x \<and> w \<le> x"
    if u: "u \<in> set (usage (db ?t))" "us_grant_id u = gid" "us_principal_id u = who" for u
  proof (cases "is_reserve a")
    case True
    then obtain c i g r now where a: "a = Reserve c i g r now" by (cases a) auto
    obtain q t where "reserve_usage c i g r now s = (q, t)" by (cases "reserve_usage c i g r now s")
    with reserve_usage_snapshots [of c i g r now s q t gid who n w u] act a u inv show ?thesis
      by (auto simp: exec_def velocity_inv_def)
  next
    case False
    then have "list_all2 usage_evolves (usage (db s)) (usage (db ?t))"
      using perform_usage_length grow by (intro grows_list_all2)
    then obtain r where r: "r \<in> set (usage (db s))" "usage_evolves r u"
      using u(1) unfolding list_all2_conv_all_nth in_set_conv_nth by metis
    note e = usage_evolves_fields [OF r(2)]
    have "\<exists>m x. us_max_actions r = Some m \<and> m \<le> n \<and> us_window r = Some x \<and> w \<le> x"
      using inv r(1) u(2,3) e(2,3) unfolding velocity_inv_def by metis
    then show ?thesis using e(5,6) by simp
  qed
  have "(\<forall>a. window_attempts (db ?t) gid who w a \<le> n) \<and> (\<forall>r \<in> set (attempts (db ?t)). 0 \<le> sa_count r)"
  proof (cases "is_begin a")
    case True
    then obtain iid expected k now where a: "a = BeginSubmission iid expected k now" by (cases a) auto
    obtain q t where "begin_submission iid expected k now s = (q, t)" by (cases "begin_submission iid expected k now s")
    with begin_velocity_inv [OF inv] a show ?thesis by (simp add: exec_def)
  next
    case False
    then show ?thesis using inv perform_attempts by (simp add: velocity_inv_def window_attempts_def)
  qed
  with snap show ?thesis unfolding velocity_inv_def by blast
qed

text \<open>
  C22. The action limit is never exceeded: after any sequence of store transactions in which every reservation for
  the grant and principal carries an action limit of at most \<open>n\<close> over a window of at
  least \<open>w\<close> seconds, at most \<open>n\<close> submission attempts start inside any window of \<open>w\<close>
  seconds, retries included, in any interleaving and with any clock values.
\<close>

theorem velocity_never_exceeded:
  assumes "0 \<le> n" and "list_all (velocity_action gid who n w) as"
  shows "window_attempts (db (run_actions as (fresh_sys an t0))) gid who w a \<le> n"
proof -
  have run: "velocity_inv gid who n w (db (run_actions as s))"
    if "velocity_inv gid who n w (db s)" "db_ok (db s)" for s
    using that assms(2)
  proof (induction as arbitrary: s)
    case (Cons b bs)
    have "velocity_inv gid who n w (db (perform b s))"
      using Cons.prems by (intro perform_velocity_inv) auto
    moreover have "db_ok (db (perform b s))" using perform_keeps [of s b] Cons.prems by (simp add: keeps_def)
    ultimately show ?case using Cons by simp
  qed simp
  have init: "velocity_inv gid who n w (db (fresh_sys an t0))"
    using assms(1) by (simp add: velocity_inv_def fresh_sys_def empty_db_def window_attempts_def)
  have "db_ok (db (fresh_sys an t0))" by (simp add: fresh_sys_def)
  from run [OF init this] show ?thesis unfolding velocity_inv_def by blast
qed

section \<open>At a concrete system\<close>

definition demo_reserve :: store_action where
  "demo_reserve = Reserve demo_cfg demo_intent demo_grant demo_risk (secs 1005)"

theorem turnover_never_exceeded_witness:
  "window_turnover (db (run_actions [demo_reserve, demo_reserve] (fresh_sys (Memory ma_new) (secs 1005))))
     ''grant-1'' ''principal:alice'' 1000 \<le> cents (usd 200)"
proof (rule turnover_never_exceeded)
  show "0 \<le> cents (usd 200)" by code_simp
  show "cents (usd 200) < 10 ^ 28" by code_simp
  show "list_all (budget_action ''grant-1'' ''principal:alice'' (cents (usd 200))) [demo_reserve, demo_reserve]" by code_simp
qed

theorem velocity_never_exceeded_witness:
  "window_attempts (db (run_actions [demo_reserve, demo_reserve] (fresh_sys (Memory ma_new) (secs 1005))))
     ''grant-1'' ''principal:alice'' 60 1000 \<le> 2"
proof (rule velocity_never_exceeded)
  show "list_all (velocity_action ''grant-1'' ''principal:alice'' 2 60) [demo_reserve, demo_reserve]" by code_simp
qed simp

end
