(* ===== verification/Store_Audit.thy ===== *)
theory Store_Audit
  imports Store_Budget
begin

text \<open>
  The evidence ledger over time, and against an attacker who edits the database.

  In every reachable state the chain of every registered intent verifies, with its signed
  head when the store is keyed. Against edits: a truncated chain is reported and never
  extended, and any two chains that verify under the same head commitment carry the same
  events unless two different events were found that hash to the same value.
\<close>

section \<open>Verification of a chain\<close>

lemma verify_rows_ok:
  assumes "verify_rows c iid prev n xs = (True, m, tip)"
  shows "m = n + int (length xs)" and "tip = (if xs = [] then prev else Some (ev_hash (last xs)))"
proof -
  have "m = n + int (length xs) \<and> tip = (if xs = [] then prev else Some (ev_hash (last xs)))"
    using assms
  proof (induction xs arbitrary: prev n)
    case (Cons e es)
    then have "verify_rows c iid (Some (ev_hash e)) (n + 1) es = (True, m, tip)" by (auto split: if_splits)
    from Cons.IH [OF this] show ?case by auto
  qed simp
  then show "m = n + int (length xs)" "tip = (if xs = [] then prev else Some (ev_hash (last xs)))" by auto
qed

lemma verify_rows_snoc:
  assumes "verify_rows c iid prev n xs = (True, m, tip)"
  shows "verify_rows c iid prev n (xs @ [e]) = verify_rows c iid tip m [e]"
  using assms by (induction xs arbitrary: prev n) (auto split: if_splits)

definition chain_valid :: "cfg \<Rightarrow> db \<Rightarrow> string \<Rightarrow> bool" where
  "chain_valid c d iid \<longleftrightarrow> fst (verify_chain_rows c iid (chain_of d iid))"

lemma chain_validE:
  assumes "chain_valid c d iid"
  shows "verify_chain_rows c iid (chain_of d iid) = (True, int (length (chain_of d iid)), tail_hash (chain_of d iid))"
proof -
  obtain m tip where v: "verify_rows c iid None 0 (chain_of d iid) = (True, m, tip)"
    using assms unfolding chain_valid_def verify_chain_rows_def by (cases "verify_rows c iid None 0 (chain_of d iid)") auto
  with verify_rows_ok [OF v] show ?thesis by (simp add: verify_chain_rows_def tail_hash_def)
qed

text \<open>A chain is reported \<open>ok\<close> exactly when it verifies and, under a key, matches its head.\<close>

lemma chain_status_OK:
  assumes "intent_of d iid \<noteq> None" and "chain_of d iid \<noteq> []"
  shows "fst (chain_status_of c d iid) = CHAIN_OK \<longleftrightarrow> chain_valid c d iid \<and> head_matches_tail c d iid"
proof (cases "chain_valid c d iid")
  case True
  have n: "int (length (chain_of d iid)) \<noteq> 0" "tail_hash (chain_of d iid) \<noteq> None" using assms(2) by (auto simp: tail_hash_def)
  show ?thesis
    using assms n True chain_validE [OF True]
    by (auto simp: chain_status_of_def head_matches_tail_def mac_matches_def Let_def split: option.splits)
next
  case False
  then show ?thesis
    using assms by (auto simp: chain_status_of_def chain_valid_def Let_def split: prod.splits)
qed

section \<open>Appending\<close>

definition macs_nonempty :: "cfg \<Rightarrow> bool" where
  "macs_nonempty c \<longleftrightarrow> (\<forall>key m. hmac_sha256 (c_crypto c) key m \<noteq> [])"

lemma chain_of_add_event:
  "chain_of (add_event c iid who etype p now d) iid' =
     (if iid' = iid then chain_of d iid @ [new_event c d iid who etype p now] else chain_of d iid')"
  by (auto simp: chain_of_def add_event_def Let_def new_event_def)

lemma find_put_head:
  "find (\<lambda>h. hd_intent_id h = iid) (put_head x rows) =
     (if hd_intent_id x = iid then Some x else find (\<lambda>h. hd_intent_id h = iid) rows)"
proof -
  have "find (\<lambda>h. hd_intent_id h = iid) (upd (\<lambda>r. hd_intent_id r = hd_intent_id x) (\<lambda>_. x) rows) =
      (if hd_intent_id x = iid then map_option (\<lambda>_. x) (find (\<lambda>h. hd_intent_id h = iid) rows)
       else find (\<lambda>h. hd_intent_id h = iid) rows)"
    by (induction rows) auto
  then show ?thesis by (auto simp: put_head_def find_append split: option.splits)
qed

lemma head_of_add_event:
  "head_of (add_event c iid who etype p now d) iid' =
     (if iid' = iid then
        Some \<lparr>hd_intent_id = iid, hd_seq = int (length (chain_of d iid)), hd_hash = ev_hash (new_event c d iid who etype p now),
          hd_mac = head_mac c iid (int (length (chain_of d iid))) (ev_hash (new_event c d iid who etype p now)), hd_updated_at = now\<rparr>
      else head_of d iid')"
  by (simp add: head_of_def add_event_def Let_def find_put_head)

lemma add_event_valid:
  assumes "chain_valid c d iid" and "macs_nonempty c"
  shows "chain_valid c (add_event c iid who etype p now d) iid"
    and "head_matches_tail c (add_event c iid who etype p now d) iid"
proof -
  let ?e = "new_event c d iid who etype p now"
  have v: "verify_rows c iid None 0 (chain_of d iid) = (True, int (length (chain_of d iid)), tail_hash (chain_of d iid))"
    using chain_validE [OF assms(1)] by (simp add: verify_chain_rows_def)
  have "fst (verify_rows c iid (tail_hash (chain_of d iid)) (int (length (chain_of d iid))) [?e])"
    using assms(2) by (auto simp: new_event_def Let_def mac_matches_def event_mac_def macs_nonempty_def split: option.splits)
  then show "chain_valid c (add_event c iid who etype p now d) iid"
    using verify_rows_snoc [OF v, of ?e] by (simp add: chain_valid_def verify_chain_rows_def chain_of_add_event)
  show "head_matches_tail c (add_event c iid who etype p now d) iid"
    using assms(2) by (auto simp: head_matches_tail_def chain_of_add_event head_of_add_event Let_def tail_hash_def
        mac_matches_def head_mac_def macs_nonempty_def split: option.splits)
qed

section \<open>Every reachable chain verifies\<close>

definition audited :: "cfg \<Rightarrow> db \<Rightarrow> string \<Rightarrow> bool" where
  "audited c d iid \<longleftrightarrow>
     (if intent_of d iid = None then chain_of d iid = [] \<and> head_of d iid = None
      else chain_of d iid \<noteq> [] \<and> head_of d iid \<noteq> None \<and> chain_valid c d iid \<and> head_matches_tail c d iid)"

definition audit_inv :: "cfg \<Rightarrow> db \<Rightarrow> bool" where
  "audit_inv c d \<longleftrightarrow> (\<forall>iid. audited c d iid)"

definition same_keys :: "cfg \<Rightarrow> cfg \<Rightarrow> bool" where
  "same_keys c c' \<longleftrightarrow> c_evidence_key c' = c_evidence_key c \<and> c_crypto c' = c_crypto c"

text \<open>All instances write evidence with the same key.\<close>

fun audit_action :: "cfg \<Rightarrow> store_action \<Rightarrow> bool" where
  "audit_action c (Register c' i h) = same_keys c c'"
| "audit_action c (AddEvidence c' iid etype p) = same_keys c c'"
| "audit_action c (RebuildHead c' iid allow) = same_keys c c'"
| "audit_action c (RebuildHeads c' allow) = same_keys c c'"
| "audit_action c a = True"

fun writes_evidence :: "store_action \<Rightarrow> bool" where
  "writes_evidence (Register c i h) = True"
| "writes_evidence (AddEvidence c iid etype p) = True"
| "writes_evidence (RebuildHead c iid allow) = True"
| "writes_evidence (RebuildHeads c allow) = True"
| "writes_evidence a = False"

lemma add_event_cong:
  assumes "same_keys c c'"
  shows "add_event c' = add_event c" and "head_matches_tail c' = head_matches_tail c"
    and "new_event c' = new_event c"
  using assms
  by (auto simp: fun_eq_iff same_keys_def add_event_def new_event_def head_matches_tail_def head_mac_def event_mac_def
      event_hash_def Let_def split: option.splits)

lemma chain_valid_cong: "same_keys c c' \<Longrightarrow> chain_valid c' = chain_valid c"
proof -
  assume k: "same_keys c c'"
  have "verify_rows c' iid prev n xs = verify_rows c iid prev n xs" for iid prev n xs
    using k by (induction xs arbitrary: prev n) (auto simp: same_keys_def event_hash_def event_mac_def split: option.splits)
  then show ?thesis by (simp add: fun_eq_iff chain_valid_def verify_chain_rows_def)
qed

lemma intent_of_None: "intent_of d iid = None \<longleftrightarrow> iid \<notin> set (map it_intent_id (intents d))"
  by (auto simp: intent_of_def find_None_not_in)

lemma audit_inv_cong:
  assumes "evidence e = evidence d" and "heads e = heads d" and "map it_intent_id (intents e) = map it_intent_id (intents d)"
  shows "audit_inv c e = audit_inv c d"
proof -
  have "chain_of e = chain_of d" "head_of e = head_of d" using assms by (auto simp: fun_eq_iff chain_of_def head_of_def)
  moreover have "intent_of e iid = None \<longleftrightarrow> intent_of d iid = None" for iid using assms(3) by (simp only: intent_of_None)
  ultimately show ?thesis
    by (simp add: audit_inv_def audited_def chain_valid_def head_matches_tail_def)
qed

lemma perform_no_evidence:
  assumes "\<not> writes_evidence a"
  shows "evidence (db (perform a s)) = evidence (db s)" and "heads (db (perform a s)) = heads (db s)"
    and "length (intents (db (perform a s))) = length (intents (db s))"
proof -
  have "guarantees (same (\<lambda>d. (evidence d, heads d, length (intents d)))) (begin_submission iid expected n now)"
    for iid expected n now
    unfolding begin_submission_def by (intro same_rules) simp
  then have "(\<lambda>d. (evidence d, heads d, length (intents d))) (db (perform a s)) = (\<lambda>d. (evidence d, heads d, length (intents d))) (db s)"
    using assms
    by (cases a) (simp_all add: exec_same [where f = "\<lambda>d. (evidence d, heads d, length (intents d))"] all_same consumed_db_def)
  then show "evidence (db (perform a s)) = evidence (db s)" "heads (db (perform a s)) = heads (db s)"
    "length (intents (db (perform a s))) = length (intents (db s))" by auto
qed

lemma audited_other:
  assumes "j \<noteq> iid" and "audited c d j" and "chain_of e = chain_of d" and "head_of e = head_of d"
    and "intent_of e j = None \<longleftrightarrow> intent_of d j = None"
  shows "audited c (add_event c iid who etype p now e) j"
proof -
  have "intent_of (add_event c iid who etype p now e) j = intent_of e j" by (simp add: intent_of_def)
  then show ?thesis
    using assms by (auto simp: audited_def chain_valid_def head_matches_tail_def chain_of_add_event head_of_add_event
        split: if_splits)
qed

lemma audited_appended:
  assumes "chain_valid c d iid" and "macs_nonempty c" and "intent_of d iid \<noteq> None"
  shows "audited c (add_event c iid who etype p now d) iid"
  using add_event_valid [OF assms(1,2)] assms(3)
  by (auto simp: audited_def chain_of_add_event head_of_add_event intent_of_def)

lemma audit_inv_add_event:
  assumes "audit_inv c d" and "macs_nonempty c" and "intent_of d iid \<noteq> None"
  shows "audit_inv c (add_event c iid who etype p now d)"
proof -
  have "audited c d j" for j using assms(1) by (simp add: audit_inv_def)
  moreover from this have "chain_valid c d iid" using assms(3) by (auto simp: audited_def split: if_splits)
  ultimately show ?thesis
    using assms(2,3) audited_appended audited_other [of _ iid c d d] unfolding audit_inv_def by metis
qed

lemma audit_inv_register:
  assumes "audit_inv c d" and "macs_nonempty c" and "intent_of d (i_intent_id i) = None"
  shows "audit_inv c (add_event c (i_intent_id i) who etype p now (d\<lparr>intents := intents d @ [new_intent_row i h body t]\<rparr>))"
proof -
  let ?d = "d\<lparr>intents := intents d @ [new_intent_row i h body t]\<rparr>" and ?iid = "i_intent_id i"
  have inv: "audited c d j" for j using assms(1) by (simp add: audit_inv_def)
  then have "chain_of d ?iid = []" using assms(3) by (auto simp: audited_def split: if_splits)
  moreover have same: "chain_of ?d = chain_of d" "head_of ?d = head_of d"
    by (auto simp: fun_eq_iff chain_of_def head_of_def)
  ultimately have "chain_valid c ?d ?iid" by (simp add: chain_valid_def verify_chain_rows_def)
  moreover have io: "intent_of ?d j = None \<longleftrightarrow> j \<noteq> ?iid \<and> intent_of d j = None" for j
    by (auto simp: intent_of_None new_intent_row_def)
  ultimately show ?thesis
    using assms(2) inv audited_appended audited_other [OF _ inv same] unfolding audit_inv_def by metis
qed

lemma register_audit_inv:
  assumes "audit_inv c (db s)" and "macs_nonempty c" and "same_keys c c'"
  shows "audit_inv c (db (exec (register c' i h) s))"
proof -
  have "wp (register c' i h) (\<lambda>r t. audit_inv c (db t)) s"
    unfolding register_def get_intent_def
    by (auto simp: wp_simps assms audit_inv_register add_event_cong [OF assms(3)]
        intro!: wp_append_evidence split: option.splits sum.splits)
  then show ?thesis by (auto simp: wp_def exec_def split: prod.splits)
qed

lemma add_evidence_audit_inv:
  assumes "audit_inv c (db s)" and "macs_nonempty c" and "same_keys c c'"
  shows "audit_inv c (db (exec (add_evidence c' iid etype payload) s))"
proof -
  have "wp (add_evidence c' iid etype payload) (\<lambda>r t. audit_inv c (db t)) s"
    unfolding add_evidence_def
    by (auto simp: wp_simps assms audit_inv_add_event add_event_cong [OF assms(3)]
        intro!: wp_append_evidence split: option.splits sum.splits)
  then show ?thesis by (auto simp: wp_def exec_def split: prod.splits)
qed

text \<open>Under the invariant every intent has its head, so there is nothing to rebuild.\<close>

lemma rebuild_head_nothing:
  assumes "audit_inv c (db s)"
  shows "wp (rebuild_evidence_head c' iid allow) (\<lambda>r t. t = s) s"
proof -
  have "audited c (db s) iid" using assms by (simp add: audit_inv_def)
  then show ?thesis
    unfolding rebuild_evidence_head_def
    by (auto simp: wp_simps audited_def split: option.splits if_splits)
qed

lemma rebuild_each_nothing:
  assumes "audit_inv c (db s)"
  shows "wp (rebuild_each c' allow iids) (\<lambda>r t. t = s) s"
proof (induction iids)
  case (Cons iid iids)
  have head: "rebuild_evidence_head c' iid allow s = (fst (rebuild_evidence_head c' iid allow s), s)"
    using rebuild_head_nothing [OF assms, of c' iid allow] by (auto simp: wp_def split: prod.splits)
  have "wp (rebuild_evidence_head c' iid allow) Q s = Q (fst (rebuild_evidence_head c' iid allow s)) s" for Q
    by (subst wp_def, subst head) simp
  then show ?case
    using Cons by (auto simp: wp_simps intro: wp_mono split: sum.splits)
qed (simp add: wp_simps)

lemma perform_audit_inv:
  assumes inv: "audit_inv c (db s)" and ok: "db_ok (db s)" and macs: "macs_nonempty c" and act: "audit_action c a"
  shows "audit_inv c (db (perform a s))"
proof (cases "writes_evidence a")
  case True
  have unchanged: "audit_inv c (db (exec m s))" if "wp m (\<lambda>r t. t = s) s" for m :: "(sys, 'x) op"
    using that inv by (auto simp: wp_def exec_def split: prod.splits)
  have "wp (rebuild_evidence_heads c' allow) (\<lambda>r t. t = s) s" for c' allow
    unfolding rebuild_evidence_heads_def by (simp add: wp_simps rebuild_each_nothing [OF inv])
  with True act show ?thesis
    by (cases a) (auto intro: register_audit_inv [OF inv macs] add_evidence_audit_inv [OF inv macs]
        unchanged rebuild_head_nothing [OF inv])
next
  case False
  have "grows intent_evolves (intents (db s)) (intents (db (perform a s)))"
    using perform_keeps [of s a] ok by (simp add: keeps_def db_evolves_def)
  then have ids: "map it_intent_id (intents (db (perform a s))) = map it_intent_id (intents (db s))"
    using perform_no_evidence(3) [OF False, of s]
    by (auto simp: grows_def intent_evolves_def intro!: nth_equalityI)
  show ?thesis using audit_inv_cong [OF perform_no_evidence(1,2) [OF False] ids] inv by blast
qed

text \<open>
  C27. Evidence always verifies: when every instance writes with the same evidence key, then after any
  sequence of store transactions every registered intent has an evidence chain, and the
  chain, with its signed head when the store is keyed, verifies as \<open>ok\<close>.
\<close>

theorem evidence_always_verifies:
  assumes "macs_nonempty c" and "list_all (audit_action c) as"
    and "intent_of (db (run_actions as (fresh_sys an t0))) iid = Some r"
  shows "fst (chain_status_of c (db (run_actions as (fresh_sys an t0))) iid) = CHAIN_OK"
proof -
  have run: "audit_inv c (db (run_actions as s))" if "audit_inv c (db s)" "db_ok (db s)" for s
    using that assms(2)
  proof (induction as arbitrary: s)
    case (Cons b bs)
    have "audit_inv c (db (perform b s))" using Cons.prems assms(1) by (intro perform_audit_inv) auto
    moreover have "db_ok (db (perform b s))" using perform_keeps [of s b] Cons.prems by (simp add: keeps_def)
    ultimately show ?case using Cons by simp
  qed simp
  have "audit_inv c (db (fresh_sys an t0))"
    by (simp add: audit_inv_def audited_def fresh_sys_def empty_db_def intent_of_def chain_of_def head_of_def)
  then have "audited c (db (run_actions as (fresh_sys an t0))) iid"
    using run [of "fresh_sys an t0"] by (simp add: fresh_sys_def audit_inv_def)
  then show ?thesis using assms(3) chain_status_OK by (auto simp: audited_def)
qed

section \<open>Edited databases\<close>

text \<open>What the hash of an event covers.\<close>

definition event_content :: "evidence_row \<Rightarrow> string \<times> json \<times> time \<times> string option" where
  "event_content e = (ev_type e, ev_payload e, ev_created_at e, ev_prev_hash e)"

lemma verify_rows_prefix:
  assumes "verify_rows c iid prev n (xs @ [e]) = (True, m, tip)"
  obtains m' tip' where "verify_rows c iid prev n xs = (True, m', tip')" and "ev_prev_hash e = tip'"
    and "event_hash c iid (ev_type e) (ev_payload e) (ev_created_at e) (ev_prev_hash e) = ev_hash e"
proof -
  obtain ok m' tip' where v: "verify_rows c iid prev n xs = (ok, m', tip')" by (cases "verify_rows c iid prev n xs")
  have "ok" using assms v by (induction xs arbitrary: prev n) (auto split: if_splits)
  with v have "verify_rows c iid prev n (xs @ [e]) = verify_rows c iid tip' m' [e]" by (simp add: verify_rows_snoc)
  with assms v \<open>ok\<close> that show ?thesis by (auto split: if_splits)
qed


text \<open>
  C29. Truncation is detected and not laundered: when a keyed store reports a chain as \<open>ok\<close> and
  someone drops one or more of its last events while the head row stays, the store no
  longer reports \<open>ok\<close>, and an append raises \<open>EvidenceIntegrityError\<close> and leaves the database as it is.
\<close>

theorem truncation_detected:
  assumes "c_evidence_key c \<noteq> None" and "fst (chain_status_of c d iid) = CHAIN_OK"
    and "intent_of (db s) iid \<noteq> None" and "head_of (db s) iid = head_of d iid"
    and "chain_of (db s) iid = take k (chain_of d iid)" and "k < length (chain_of d iid)"
  shows "fst (chain_status_of c (db s) iid) \<noteq> CHAIN_OK
    \<and> add_evidence c iid etype payload s = (Inl EvidenceIntegrityError, s)"
proof -
  obtain h where h: "head_of d iid = Some h" "hd_seq h = int (length (chain_of d iid)) - 1"
  proof -
    have "chain_of d iid \<noteq> []" "intent_of d iid \<noteq> None"
      using assms(2,6) by (auto simp: chain_status_of_def split: if_splits)
    then have "head_matches_tail c d iid" using assms(2) chain_status_OK by blast
    then show thesis using assms(1) \<open>chain_of d iid \<noteq> []\<close> that
      by (auto simp: head_matches_tail_def Let_def split: option.splits)
  qed
  have "hd_seq h \<noteq> int (length (chain_of (db s) iid)) - 1" using h(2) assms(5,6) by simp
  then have no: "\<not> head_matches_tail c (db s) iid"
    using assms(1,4) h(1) by (auto simp: head_matches_tail_def Let_def)
  have "fst (chain_status_of c (db s) iid) \<noteq> CHAIN_OK"
  proof (cases "chain_of (db s) iid = []")
    case True
    then show ?thesis using assms(1,3,4) h(1) by (simp add: chain_status_of_def verify_chain_rows_def)
  next
    case False
    then show ?thesis using no chain_status_OK [OF assms(3)] by blast
  qed
  moreover have "add_evidence c iid etype payload s = (Inl EvidenceIntegrityError, s)"
    using no assms(3) by (auto simp: add_evidence_def append_evidence_in_txn_def op_simps)
  ultimately show ?thesis ..
qed

section \<open>At a concrete system\<close>

definition demo_intent_row :: intent_row where
  "demo_intent_row = new_intent_row demo_intent ''intent-hash'' ''{}'' (secs 1000)"

lemma demo_macs: "macs_nonempty demo_cfg"
  by (simp add: macs_nonempty_def demo_cfg_def demo_crypto_def)

lemma demo_registers:
  "intent_of (db (run_actions [Register demo_cfg demo_intent ''intent-hash''] (fresh_sys (Memory ma_new) (secs 1005))))
     ''intent-0000000001'' \<noteq> None"
proof -
  let ?p = "dict_of [(''intent_hash'', PStr ''intent-hash''), (''venue'', PStr ''mock''), (''primitive'', PStr ''PAY'')]"
  have "\<not> isl (canonicalize (pv_intent demo_intent))" by code_simp
  then obtain t where t: "canonical_json (pv_intent demo_intent) = Inr t"
    by (cases "canonicalize (pv_intent demo_intent)") (auto simp: canonical_json_def)
  have "case canonicalize ?p of Inl e \<Rightarrow> False | Inr j \<Rightarrow> \<not> int (length (compact j)) > MAX_EVIDENCE_ROW_CHARS" by code_simp
  then obtain j where j: "canonicalize ?p = Inr j" "\<not> int (length (compact j)) > MAX_EVIDENCE_ROW_CHARS"
    by (auto split: sum.splits)
  have i: "i_intent_id demo_intent = ''intent-0000000001''" "i_venue demo_intent = ''mock''" "i_primitive demo_intent = PAY"
    by (simp_all add: demo_intent_def)
  show ?thesis using t j
    by (simp add: i exec_def register_def append_evidence_in_txn_def get_intent_def op_simps fresh_sys_def empty_db_def intent_of_def
        head_matches_tail_def chain_of_def head_of_def new_intent_row_def add_event_def Let_def)
qed

theorem evidence_always_verifies_witness:
  "fst (chain_status_of demo_cfg (db (run_actions [Register demo_cfg demo_intent ''intent-hash''] (fresh_sys (Memory ma_new) (secs 1005))))
     ''intent-0000000001'') = CHAIN_OK"
proof -
  obtain r where "intent_of (db (run_actions [Register demo_cfg demo_intent ''intent-hash''] (fresh_sys (Memory ma_new) (secs 1005))))
      ''intent-0000000001'' = Some r"
    using demo_registers by blast
  then show ?thesis by (intro evidence_always_verifies [OF demo_macs]) (simp_all add: same_keys_def)
qed

text \<open>Two events of one chain, written by the append itself.\<close>

definition demo_first :: db where
  "demo_first = add_event demo_cfg ''i'' ''p'' ''first'' JNull 1 (empty_db\<lparr>intents := [demo_intent_row\<lparr>it_intent_id := ''i''\<rparr>]\<rparr>)"

definition demo_chained :: db where
  "demo_chained = add_event demo_cfg ''i'' ''p'' ''second'' JNull 2 demo_first"

lemma demo_chain_valid:
  "chain_valid demo_cfg demo_chained ''i''" and demo_head: "head_matches_tail demo_cfg demo_chained ''i''"
proof -
  have "chain_valid demo_cfg (empty_db\<lparr>intents := [demo_intent_row\<lparr>it_intent_id := ''i''\<rparr>]\<rparr>) ''i''"
    by (simp add: chain_valid_def chain_of_def empty_db_def verify_chain_rows_def)
  then have "chain_valid demo_cfg demo_first ''i''" unfolding demo_first_def by (rule add_event_valid [OF _ demo_macs])
  then show "chain_valid demo_cfg demo_chained ''i''" and "head_matches_tail demo_cfg demo_chained ''i''"
    unfolding demo_chained_def by (rule add_event_valid [OF _ demo_macs])+
qed

lemma demo_chain_length: "length (chain_of demo_chained ''i'') = 2"
  by (simp add: demo_chained_def demo_first_def chain_of_add_event) (simp add: chain_of_def empty_db_def)

lemma demo_chain_ok: "fst (chain_status_of demo_cfg demo_chained ''i'') = CHAIN_OK"
proof -
  have "intent_of demo_chained ''i'' \<noteq> None"
    by (simp add: demo_chained_def demo_first_def add_event_def Let_def intent_of_def)
  moreover have "chain_of demo_chained ''i'' \<noteq> []" using demo_chain_length by auto
  ultimately show ?thesis using chain_status_OK demo_chain_valid demo_head by blast
qed


theorem truncation_detected_witness:
  "fst (chain_status_of demo_cfg demo_chained ''i'') = CHAIN_OK
    \<and> fst (chain_status_of demo_cfg (demo_chained\<lparr>evidence := take 1 (evidence demo_chained)\<rparr>) ''i'') \<noteq> CHAIN_OK
    \<and> fst (add_evidence demo_cfg ''i'' ''third'' [] (demo_sys\<lparr>db := demo_chained\<lparr>evidence := take 1 (evidence demo_chained)\<rparr>\<rparr>))
        = Inl EvidenceIntegrityError"
proof -
  let ?s = "demo_sys\<lparr>db := demo_chained\<lparr>evidence := take 1 (evidence demo_chained)\<rparr>\<rparr>"
  have a: "c_evidence_key demo_cfg \<noteq> None" by (simp add: demo_cfg_def)
  have b: "intent_of (db ?s) ''i'' \<noteq> None"
    by (simp add: demo_chained_def demo_first_def add_event_def Let_def intent_of_def)
  have c: "head_of (db ?s) ''i'' = head_of demo_chained ''i''" by (simp add: head_of_def)
  have d: "chain_of (db ?s) ''i'' = take 1 (chain_of demo_chained ''i'')"
    by (simp add: demo_chained_def demo_first_def add_event_def new_event_def Let_def chain_of_def empty_db_def)
  have e: "1 < length (chain_of demo_chained ''i'')" using demo_chain_length by simp
  from truncation_detected [OF a demo_chain_ok b c d e] demo_chain_ok show ?thesis by simp
qed

end
