(* ===== verification/World.thy ===== *)
theory World
  imports Store_System
begin

text \<open>
  The world a worker runs in: the shared store, a venue, and everybody else.

  A worker's operation is a sequence of store calls, clock readings and calls to an
  adapter and a settlement verifier. Between any two of them other workers, operators and
  the venue act. \<open>w_env\<close> is the script of that interference: before each step its next
  entry is played, a list of events (store transactions of others, changes at the venue,
  abandoned adapter calls that end) and, for a store call, a possible refusal of the
  datastore with the exception it raises, nothing changed. A theorem for every script is
  a theorem for every interleaving; a script that has run out means no more interference.

  \<open>w_active\<close> are the intents whose guard this thread holds, \<open>w_orphans\<close> is the process
  counter of abandoned adapter calls, \<open>w_late\<close> says of the next adapter calls whether they
  outlive the deadline, and \<open>w_calls\<close> is a history variable: the adapter
  calls made so far, which no definition reads.
\<close>

section \<open>Reading a successful run backwards\<close>

named_theorems inr_simps \<open>an operation returned a value: what its parts did\<close>

lemma bindE_eq_Inr [inr_simps]:
  "bindE m f s = (Inr b, t) \<longleftrightarrow> (\<exists>a u. m s = (Inr a, u) \<and> f a u = (Inr b, t))"
  by (auto simp: bindE_def split: prod.splits sum.splits)

lemma seqE_eq_Inr [inr_simps]:
  "seqE m n s = (Inr b, t) \<longleftrightarrow> (\<exists>a u. m s = (Inr a, u) \<and> n u = (Inr b, t))"
  by (simp add: seqE_def bindE_eq_Inr)

lemma ret_eq_Inr [inr_simps]: "ret a s = (Inr b, t) \<longleftrightarrow> b = a \<and> t = s"
  by (auto simp: ret_def)

lemma raise_eq_Inr [inr_simps]: "raise_exn e s = (Inr b, t) \<longleftrightarrow> False"
  by (simp add: raise_exn_def)

lemma lift_sum_eq_Inr [inr_simps]: "lift_sum r s = (Inr b, t) \<longleftrightarrow> r = Inr b \<and> t = s"
  by (auto simp: lift_sum_def)

lemma catch_raise_eq_Inr [inr_simps]: "catch m (\<lambda>e. raise_exn (f e)) s = (Inr b, t) \<longleftrightarrow> m s = (Inr b, t)"
  by (auto simp: catch_def raise_exn_def split: prod.splits sum.splits)

lemma catch_eq_Inr:
  "catch m h s = (Inr b, t) \<longleftrightarrow> m s = (Inr b, t) \<or> (\<exists>e u. m s = (Inl e, u) \<and> h e u = (Inr b, t))"
  by (auto simp: catch_def split: prod.splits sum.splits)

lemma if_eq_Inr [inr_simps]:
  "(if c then m else n) s = (Inr b, t) \<longleftrightarrow> (if c then m s = (Inr b, t) else n s = (Inr b, t))"
  by simp

lemma prod_eq_Inr [inr_simps]: "(case p of (x, y) \<Rightarrow> f x y) s = (Inr b, t) \<longleftrightarrow> f (fst p) (snd p) s = (Inr b, t)"
  by (cases p) simp

lemma option_eq_Inr [inr_simps]:
  "(case v of None \<Rightarrow> m | Some x \<Rightarrow> f x) s = (Inr b, t) \<longleftrightarrow>
     (case v of None \<Rightarrow> m s = (Inr b, t) | Some x \<Rightarrow> f x s = (Inr b, t))"
  by (cases v) simp_all

section \<open>Events and state\<close>

datatype 'v event =
    StoreStep store_action
  | VenueStep "'v \<Rightarrow> 'v"
  | OrphansNow int

record adapter_call =
  ac_request :: execution_request
  ac_permit :: signed_permit

record 'v world =
  w_sys :: sys
  w_venue :: 'v
  w_orphans :: int
  w_active :: "string list"
  w_env :: "('v event list \<times> exn option) list"
  w_late :: "bool list"
  w_calls :: "adapter_call list"

fun happen :: "'v event \<Rightarrow> 'v world \<Rightarrow> 'v world" where
  "happen (StoreStep a) w = w\<lparr>w_sys := perform a (w_sys w)\<rparr>"
| "happen (VenueStep f) w = w\<lparr>w_venue := f (w_venue w)\<rparr>"
| "happen (OrphansNow n) w = w\<lparr>w_orphans := n\<rparr>"

definition disturb :: "('v world, unit) op" where
  "disturb w = (case w_env w of
     [] \<Rightarrow> (Inr (), w)
   | (es, fault) # rest \<Rightarrow>
       ((case fault of None \<Rightarrow> Inr () | Some e \<Rightarrow> Inl e), fold happen es (w\<lparr>w_env := rest\<rparr>)))"

definition on_sys :: "(sys, 'a) op \<Rightarrow> ('v world, 'a) op" where
  "on_sys m w = (case m (w_sys w) of (r, s) \<Rightarrow> (r, w\<lparr>w_sys := s\<rparr>))"

text \<open>One call of a store method, and one reading of the clock.\<close>

definition call :: "(sys, 'a) op \<Rightarrow> ('v world, 'a) op" where
  "call m = seqE disturb (on_sys m)"

definition read_clock :: "('v world, time) op" where
  "read_clock w = (let w' = snd (disturb w) in (Inr (wall (w_sys w')), w'))"

lemma on_sys_eq_Inr: "on_sys m w = (Inr b, t) \<longleftrightarrow> (\<exists>s. m (w_sys w) = (Inr b, s) \<and> t = w\<lparr>w_sys := s\<rparr>)"
  by (cases "m (w_sys w)") (auto simp: on_sys_def)

lemma call_eq_Inr:
  "call m w = (Inr b, t) \<longleftrightarrow> (\<exists>u s. disturb w = (Inr (), u) \<and> m (w_sys u) = (Inr b, s) \<and> t = u\<lparr>w_sys := s\<rparr>)"
  by (auto simp: call_def inr_simps on_sys_eq_Inr)

section \<open>What a worker and its environment do to the store\<close>

text \<open>
  \<open>acts P s t\<close>: if every store transaction of the environment satisfies \<open>P\<close>, the store of
  \<open>t\<close> comes from that of \<open>s\<close> by a sequence of transactions that satisfy \<open>P\<close>, and the rest
  of the script is the environment's still.
\<close>

fun event_ok :: "(store_action \<Rightarrow> bool) \<Rightarrow> 'v event \<Rightarrow> bool" where
  "event_ok P (StoreStep a) = P a"
| "event_ok P (VenueStep f) = True"
| "event_ok P (OrphansNow n) = True"

definition env_ok :: "(store_action \<Rightarrow> bool) \<Rightarrow> ('v event list \<times> exn option) list \<Rightarrow> bool" where
  "env_ok P env \<longleftrightarrow> list_all (\<lambda>(es, fault). list_all (event_ok P) es) env"

definition acts :: "(store_action \<Rightarrow> bool) \<Rightarrow> 'v world \<Rightarrow> 'v world \<Rightarrow> bool" where
  "acts P s t \<longleftrightarrow> (env_ok P (w_env s) \<longrightarrow>
     env_ok P (w_env t) \<and> (\<exists>as. list_all P as \<and> w_sys t = run_actions as (w_sys s)))"

lemma acts_refl: "acts P s s"
  unfolding acts_def by (auto intro: exI [of _ "[]"])

lemma acts_trans: "acts P s t \<Longrightarrow> acts P t u \<Longrightarrow> acts P s u"
  unfolding acts_def by (metis list_all_append run_actions_simps(3))

interpretation acting: step_preorder "acts P"
  by unfold_locales (fact acts_refl, fact acts_trans)

lemma happen_acts: "event_ok P e \<Longrightarrow> acts P s (happen e s)"
  by (cases e) (auto simp: acts_def intro: exI [of _ "[_]"] exI [of _ "[]"])

lemma fold_happen_acts: "list_all (event_ok P) es \<Longrightarrow> acts P s (fold happen es s)"
  by (induction es arbitrary: s) (auto intro: acts_refl acts_trans happen_acts)

lemma fold_happen_frame [simp]:
  "w_active (fold happen es w) = w_active w" "w_env (fold happen es w) = w_env w" "w_calls (fold happen es w) = w_calls w"
proof -
  have "w_active (happen e w) = w_active w \<and> w_env (happen e w) = w_env w \<and> w_calls (happen e w) = w_calls w" for e and w :: "'a world"
    by (cases e) simp_all
  then show "w_active (fold happen es w) = w_active w" "w_env (fold happen es w) = w_env w" "w_calls (fold happen es w) = w_calls w"
    by (induction es arbitrary: w) simp_all
qed

lemma disturb_acts: "guarantees (acts P) disturb"
proof (rule guaranteesI)
  fix w :: "'v world"
  show "acts P w (snd (disturb w))"
  proof (cases "w_env w")
    case (Cons x rest)
    obtain es fault where x: "x = (es, fault)" by (cases x)
    have "env_ok P (w_env w) \<longleftrightarrow> list_all (event_ok P) es \<and> env_ok P rest" using Cons x by (simp add: env_ok_def)
    then show ?thesis using fold_happen_acts [of P es "w\<lparr>w_env := rest\<rparr>"] Cons x
      by (auto simp: disturb_def acts_def)
  qed (simp add: disturb_def acts_refl)
qed

lemma on_sys_acts:
  assumes "\<And>s. exec m s = s \<or> (\<exists>a. P a \<and> exec m s = perform a s)"
  shows "guarantees (acts P) (on_sys m)"
proof (rule guaranteesI)
  fix w :: "'v world"
  have "w_sys (snd (on_sys m w)) = exec m (w_sys w)" "w_env (snd (on_sys m w)) = w_env w"
    by (auto simp: on_sys_def exec_def split: prod.splits)
  then show "acts P w (snd (on_sys m w))"
    using assms [of "w_sys w"] by (auto simp: acts_def intro: exI [of _ "[]"] exI [of _ "[_]"])
qed

lemma call_acts:
  assumes "\<And>s. exec m s = s \<or> (\<exists>a. P a \<and> exec m s = perform a s)"
  shows "guarantees (acts P) (call m)"
  unfolding call_def by (intro acting.guar_seqE disturb_acts on_sys_acts assms)

lemma read_clock_acts: "guarantees (acts P) read_clock"
  using disturb_acts [of P] by (simp add: guarantees_def read_clock_def Let_def)

text \<open>The calls of a worker leave the history, its guards and its counters alone, and use up the script.\<close>

definition frame :: "'v world \<Rightarrow> 'v world \<Rightarrow> bool" where
  "frame s t \<longleftrightarrow> w_calls t = w_calls s \<and> w_active t = w_active s"

lemma frame_refl: "frame s s" and frame_trans: "frame s t \<Longrightarrow> frame t u \<Longrightarrow> frame s u"
  by (simp_all add: frame_def)

interpretation framing: step_preorder frame
  by unfold_locales (auto intro: frame_refl frame_trans)

lemma disturb_frame: "frame w (snd (disturb w))"
  by (auto simp: disturb_def frame_def split: list.splits)

lemma call_frame: "guarantees frame (call m)"
  unfolding call_def
  by (intro framing.guar_seqE) (auto simp: guarantees_def on_sys_def frame_def disturb_frame [unfolded frame_def] split: prod.splits)

lemma read_clock_frame: "guarantees frame read_clock"
  by (simp add: guarantees_def read_clock_def disturb_frame Let_def)

end
