(* ===== verification/Base64url.thy ===== *)
theory Base64url
  imports FAAR_Prelude
begin

text \<open>
  The part of Python's \<open>base64\<close> module that \<open>faar/attestation.py\<close> uses, and the strict
  signature codec on top of it.

  A byte string is a \<open>string\<close>: a character is one byte. \<open>b64_decode\<close> is
  \<open>b64decode(\<dots>, validate=True)\<close>: it refuses a foreign character and a wrong length or
  padding, and ignores the bits of the last digit that no byte uses. The codec accepts
  exactly one text per signature: what it accepts is what the encoder writes.
\<close>

section \<open>Base64\<close>

definition b64_alphabet :: string where
  "b64_alphabet = ''ABCDEFGHIJKLMNOPQRSTUVWXYZabcdefghijklmnopqrstuvwxyz0123456789+/''"

fun index_in :: "'a \<Rightarrow> 'a list \<Rightarrow> nat option" where
  "index_in c [] = None"
| "index_in c (x # xs) = (if c = x then Some 0 else map_option Suc (index_in c xs))"

definition b64_digit :: "nat \<Rightarrow> char" where
  "b64_digit n = b64_alphabet ! n"

definition b64_value :: "char \<Rightarrow> nat option" where
  "b64_value c = index_in c b64_alphabet"

fun b64_encode :: "string \<Rightarrow> string" where
  "b64_encode [] = []"
| "b64_encode [a] =
     (let x = of_char a in [b64_digit (x div 4), b64_digit (x mod 4 * 16), CHR ''='', CHR ''=''])"
| "b64_encode [a, b] =
     (let x = of_char a; y = of_char b
      in [b64_digit (x div 4), b64_digit (x mod 4 * 16 + y div 16), b64_digit (y mod 16 * 4), CHR ''=''])"
| "b64_encode (a # b # c # rest) =
     (let x = of_char a; y = of_char b; z = of_char c
      in [b64_digit (x div 4), b64_digit (x mod 4 * 16 + y div 16), b64_digit (y mod 16 * 4 + z div 64),
          b64_digit (z mod 64)] @ b64_encode rest)"

fun b64_decode :: "string \<Rightarrow> string option" where
  "b64_decode [] = Some []"
| "b64_decode (p # q # r # s # rest) =
     (case (b64_value p, b64_value q) of
        (Some i, Some j) \<Rightarrow>
          (case (b64_value r, b64_value s) of
             (Some k, Some l) \<Rightarrow>
               map_option (\<lambda>bytes. char_of (i * 4 + j div 16) # char_of (j mod 16 * 16 + k div 4) #
                 char_of (k mod 4 * 64 + l) # bytes) (b64_decode rest)
           | (Some k, None) \<Rightarrow>
               if s = CHR ''='' \<and> rest = [] then Some [char_of (i * 4 + j div 16), char_of (j mod 16 * 16 + k div 4)]
               else None
           | (None, _) \<Rightarrow>
               if r = CHR ''='' \<and> s = CHR ''='' \<and> rest = [] then Some [char_of (i * 4 + j div 16)] else None)
      | _ \<Rightarrow> None)"
| "b64_decode _ = None"

lemma b64_value_digit: "n < 64 \<Longrightarrow> b64_value (b64_digit n) = Some n"
proof -
  have "list_all (\<lambda>n. b64_value (b64_digit n) = Some n) [0..<64]" by code_simp
  then show "n < 64 \<Longrightarrow> ?thesis" by (simp add: list_all_iff)
qed

lemma b64_digit_not_pad: "n < 64 \<Longrightarrow> b64_digit n \<noteq> CHR ''=''"
proof -
  have "list_all (\<lambda>n. b64_digit n \<noteq> CHR ''='') [0..<64]" by code_simp
  then show "n < 64 \<Longrightarrow> ?thesis" by (simp add: list_all_iff)
qed

lemma b64_value_pad [simp]: "b64_value CHR ''='' = None"
  by (simp add: b64_value_def b64_alphabet_def)

text \<open>The bit regrouping, as arithmetic on bytes.\<close>

lemma regroup:
  fixes x y z :: nat
  assumes "x < 256" and "y < 256" and "z < 256"
  shows "x div 4 < 64" and "x mod 4 * 16 < 64" and "x mod 4 * 16 + y div 16 < 64" and "y mod 16 * 4 < 64"
    and "y mod 16 * 4 + z div 64 < 64" and "z mod 64 < 64"
    and "x div 4 * 4 + x mod 4 * 16 div 16 = x"
    and "x div 4 * 4 + (x mod 4 * 16 + y div 16) div 16 = x"
    and "(x mod 4 * 16 + y div 16) mod 16 * 16 + y mod 16 * 4 div 4 = y"
    and "(x mod 4 * 16 + y div 16) mod 16 * 16 + (y mod 16 * 4 + z div 64) div 4 = y"
    and "(y mod 16 * 4 + z div 64) mod 4 * 64 + z mod 64 = z"
proof -
  have x: "x mod 4 < 4" and y: "y div 16 < 16" "y mod 16 < 16" and z: "z div 64 < 4"
    using assms by (simp_all add: less_mult_imp_div_less)
  have high: "(x mod 4 * 16 + y div 16) div 16 = x mod 4" "(x mod 4 * 16 + y div 16) mod 16 = y div 16"
    "(y mod 16 * 4 + z div 64) div 4 = y mod 16" "(y mod 16 * 4 + z div 64) mod 4 = z div 64"
    using y z by (simp_all add: div_mult_self3 mod_mult_self3)
  show "x div 4 < 64" using assms(1) by (simp add: less_mult_imp_div_less)
  show "x mod 4 * 16 < 64" "x mod 4 * 16 + y div 16 < 64" using x y by linarith+
  show "y mod 16 * 4 < 64" "y mod 16 * 4 + z div 64 < 64" using y z by linarith+
  show "z mod 64 < 64" by simp
  show "x div 4 * 4 + x mod 4 * 16 div 16 = x" by simp
  show "x div 4 * 4 + (x mod 4 * 16 + y div 16) div 16 = x"
    "(x mod 4 * 16 + y div 16) mod 16 * 16 + y mod 16 * 4 div 4 = y"
    "(x mod 4 * 16 + y div 16) mod 16 * 16 + (y mod 16 * 4 + z div 64) div 4 = y"
    "(y mod 16 * 4 + z div 64) mod 4 * 64 + z mod 64 = z"
    unfolding high by simp_all
qed

lemma b64_roundtrip: "b64_decode (b64_encode xs) = Some xs"
proof (induction xs rule: b64_encode.induct)
  case (2 a)
  note r = regroup [OF nat_of_char_less_256 [of a] nat_of_char_less_256 [of a] nat_of_char_less_256 [of a]]
  show ?case using r(7) by (simp add: Let_def b64_value_digit r(1,2))
next
  case (3 a b)
  note r = regroup [OF nat_of_char_less_256 [of a] nat_of_char_less_256 [of b] nat_of_char_less_256 [of b]]
  show ?case using r(8,9) by (simp add: Let_def b64_value_digit r(1,3,4))
next
  case (4 a b c rest)
  note r = regroup [OF nat_of_char_less_256 [of a] nat_of_char_less_256 [of b] nat_of_char_less_256 [of c]]
  show ?case using 4 r(8,10,11) by (simp add: Let_def b64_value_digit r(1,3,5,6))
qed simp

section \<open>The signature codec\<close>

definition ED25519_SIGNATURE_BYTES :: nat where "ED25519_SIGNATURE_BYTES = 64"
definition ED25519_SIGNATURE_CHARS :: nat where "ED25519_SIGNATURE_CHARS = 86"

definition to_url :: "char \<Rightarrow> char" where
  "to_url c = (if c = CHR ''+'' then CHR ''-'' else if c = CHR ''/'' then CHR ''_'' else c)"

text \<open>\<open>str.translate(_B64URL_TO_STD)\<close>.\<close>

definition to_std :: "char \<Rightarrow> char" where
  "to_std c = (if c = CHR ''-'' then CHR ''+'' else if c = CHR ''_'' then CHR ''/'' else c)"

definition rstrip :: "char \<Rightarrow> string \<Rightarrow> string" where
  "rstrip c s = rev (dropWhile (\<lambda>x. x = c) (rev s))"

definition encode_ed25519_signature :: "string \<Rightarrow> string" where
  "encode_ed25519_signature raw = rstrip CHR ''='' (map to_url (b64_encode raw))"

definition decode_ed25519_signature :: "string \<Rightarrow> string option" where
  "decode_ed25519_signature signature =
     (if length signature \<noteq> ED25519_SIGNATURE_CHARS then None
      else (case b64_decode (map to_std signature @ ''=='') of
        None \<Rightarrow> None
      | Some raw \<Rightarrow>
          if length raw \<noteq> ED25519_SIGNATURE_BYTES \<or> encode_ed25519_signature raw \<noteq> signature then None
          else Some raw))"

lemma to_std_url: "n < 64 \<Longrightarrow> to_std (to_url (b64_digit n)) = b64_digit n"
proof -
  have "list_all (\<lambda>n. to_std (to_url (b64_digit n)) = b64_digit n) [0..<64]" by code_simp
  then show "n < 64 \<Longrightarrow> ?thesis" by (simp add: list_all_iff)
qed

lemma to_url_digit_not_pad: "n < 64 \<Longrightarrow> to_url (b64_digit n) \<noteq> CHR ''=''"
  using b64_digit_not_pad by (auto simp: to_url_def)

lemma digit_in_range: "n < 64 \<Longrightarrow> \<exists>m < 64. b64_digit n = b64_digit m"
  by blast

text \<open>One byte past a multiple of three: two digits and two pads at the end.\<close>

lemma encode_one_past:
  "length xs mod 3 = 1 \<Longrightarrow>
     \<exists>ys. b64_encode xs = ys @ ''=='' \<and> (\<forall>c \<in> set ys. \<exists>n < 64. c = b64_digit n) \<and> length ys = 4 * (length xs div 3) + 2"
proof (induction xs rule: b64_encode.induct)
  case (2 a)
  note r = regroup [OF nat_of_char_less_256 [of a] nat_of_char_less_256 [of a] nat_of_char_less_256 [of a]]
  show ?case
    by (rule exI [of _ "[b64_digit (of_char a div 4), b64_digit (of_char a mod 4 * 16)]"])
      (use digit_in_range [OF r(1)] digit_in_range [OF r(2)] in \<open>auto simp: Let_def\<close>)
next
  case (4 a b c rest)
  note r = regroup [OF nat_of_char_less_256 [of a] nat_of_char_less_256 [of b] nat_of_char_less_256 [of c]]
  from 4(2) obtain ys where ys: "b64_encode rest = ys @ ''==''" "\<forall>c \<in> set ys. \<exists>n < 64. c = b64_digit n"
    "length ys = 4 * (length rest div 3) + 2"
    using "4.IH" [OF refl refl refl] by (auto simp: mod_Suc split: if_splits)
  show ?case
    by (rule exI [of _ "take 4 (b64_encode (a # b # c # rest)) @ ys"])
      (use ys digit_in_range [OF r(1)] digit_in_range [OF r(3)] digit_in_range [OF r(5)] digit_in_range [OF r(6)] in \<open>auto simp: Let_def\<close>)
qed simp_all

lemma rstrip_pads: "list_all (\<lambda>x. x \<noteq> c) s \<Longrightarrow> rstrip c (s @ [c, c]) = s"
  by (cases s rule: rev_cases) (auto simp: rstrip_def)

lemma codec_inverts:
  assumes "length raw = ED25519_SIGNATURE_BYTES"
  shows "decode_ed25519_signature (encode_ed25519_signature raw) = Some raw"
proof -
  obtain ys where ys: "b64_encode raw = ys @ ''==''" "\<forall>c \<in> set ys. \<exists>n < 64. c = b64_digit n" "length ys = 86"
    using assms encode_one_past [of raw] by (auto simp: ED25519_SIGNATURE_BYTES_def)
  have "list_all (\<lambda>c. c \<noteq> CHR ''='') (map to_url ys)"
    using ys(2) to_url_digit_not_pad by (auto simp: list_all_iff)
  then have enc: "encode_ed25519_signature raw = map to_url ys"
    using rstrip_pads by (simp add: encode_ed25519_signature_def ys(1) to_url_def [of "CHR ''=''"])
  have "map to_std (map to_url ys) = ys" using ys(2) to_std_url by (auto simp: comp_def intro!: map_idI)
  then show ?thesis
    using b64_roundtrip [of raw] assms ys enc
    by (simp add: decode_ed25519_signature_def ED25519_SIGNATURE_CHARS_def)
qed

text \<open>
  C33. One signature has one accepted text: the strict decoder inverts the encoder on every
  64-byte signature, and it accepts no other text: whatever it decodes is, character for character,
  the encoder's output for the bytes it returns.
\<close>

theorem signature_codec_bijective:
  "(length raw = ED25519_SIGNATURE_BYTES \<longrightarrow>
      decode_ed25519_signature (encode_ed25519_signature raw) = Some raw)
    \<and> (decode_ed25519_signature shown = Some bytes \<longrightarrow>
      encode_ed25519_signature bytes = shown \<and> length bytes = ED25519_SIGNATURE_BYTES)"
proof (intro conjI impI)
  show "length raw = ED25519_SIGNATURE_BYTES \<Longrightarrow>
      decode_ed25519_signature (encode_ed25519_signature raw) = Some raw"
    by (rule codec_inverts)
next
  assume "decode_ed25519_signature shown = Some bytes"
  then show "encode_ed25519_signature bytes = shown" and "length bytes = ED25519_SIGNATURE_BYTES"
    by (auto simp: decode_ed25519_signature_def split: if_splits option.splits)
qed

theorem signature_codec_bijective_witness:
  "decode_ed25519_signature (encode_ed25519_signature (replicate 64 CHR ''A'')) = Some (replicate 64 CHR ''A'')
    \<and> length (replicate 64 CHR ''A'') = ED25519_SIGNATURE_BYTES"
  using signature_codec_bijective [of "replicate 64 CHR ''A''" "encode_ed25519_signature (replicate 64 CHR ''A'')" "replicate 64 CHR ''A''"]
  by (simp add: ED25519_SIGNATURE_BYTES_def)

end
