(* ===== verification/Attestation.thy ===== *)
theory Attestation
  imports Models Base64url
begin

text \<open>
  \<open>faar/attestation.py\<close>: signed statements about a subject and an intent.

  The Ed25519 primitive is a parameter (\<open>ed25519\<close>: signing, the public half of a private
  key, verification); HMAC is the one of \<open>crypto\<close>. A key object is private (it signs and
  has a public half), public (it only verifies) or opaque (it signs and has no public
  half). A verifier returns a verdict with reason codes, or raises when the subject or
  the intent cannot be canonicalized.

  Shown here: what an accepted attestation proves, for both verifiers; that a signed
  attestation is accepted by the signer's own public verifier during its lifetime; how
  long a retired key stays usable; and that a public verifier holds no key that signs.
\<close>

record ed25519 =
  ed_sign :: "string \<Rightarrow> string \<Rightarrow> string"
  ed_public :: "string \<Rightarrow> string"
  ed_verify :: "string \<Rightarrow> string \<Rightarrow> string \<Rightarrow> bool"

section \<open>Keys and scopes\<close>

datatype key_object = PrivateKey string | PublicKey string | OpaqueSigner string

fun has_signing_api :: "key_object \<Rightarrow> bool" where
  "has_signing_api (PrivateKey k) = True"
| "has_signing_api (PublicKey k) = False"
| "has_signing_api (OpaqueSigner k) = True"

text \<open>\<open>key.public_key() if hasattr(key, "public_key") else key\<close>, then \<open>verify\<close>; an opaque signer cannot verify.\<close>

definition key_verifies :: "ed25519 \<Rightarrow> key_object \<Rightarrow> string \<Rightarrow> string \<Rightarrow> bool" where
  "key_verifies E key raw msg = (case key of
     PrivateKey k \<Rightarrow> ed_verify E (ed_public E k) raw msg
   | PublicKey k \<Rightarrow> ed_verify E k raw msg
   | OpaqueSigner k \<Rightarrow> False)"

definition normalize_kinds ::
    "string list \<Rightarrow> (string \<times> attestation_kind list) list \<Rightarrow> exn + (string \<times> attestation_kind list) list" where
  "normalize_kinds ids kinds =
     (if set (map fst kinds) \<noteq> set ids then Inl ValueError
      else if list_ex (\<lambda>p. snd p = []) kinds then Inl ValueError
      else Inr kinds)"

definition normalize_validity ::
    "string list \<Rightarrow> (string \<times> key_validity) list \<Rightarrow> exn + (string \<times> key_validity) list" where
  "normalize_validity ids validity =
     (if list_ex (\<lambda>p. fst p \<notin> set ids) validity then Inl ValueError else Inr validity)"

definition kind_allowed :: "(string \<times> attestation_kind list) list \<Rightarrow> string \<Rightarrow> attestation_kind \<Rightarrow> bool" where
  "kind_allowed kinds key_id kind = (case map_of kinds key_id of None \<Rightarrow> False | Some ks \<Rightarrow> kind \<in> set ks)"

definition DEFAULT_MAX_ATTESTATION_LIFETIME_SECONDS :: int where
  "DEFAULT_MAX_ATTESTATION_LIFETIME_SECONDS = 86400"

section \<open>The signed payload\<close>

definition attestation_payload ::
    "signature_algorithm \<Rightarrow> attestation_kind \<Rightarrow> string \<Rightarrow> string \<Rightarrow> string \<Rightarrow> time \<Rightarrow> time \<Rightarrow> exn + string" where
  "attestation_payload alg kind key_id subject_hash intent_hash issued_at expires_at = canonical_json (dict_of
     [(''algorithm'', PStr (algorithm_str alg)), (''kind'', PStr (kind_str kind)), (''key_id'', PStr key_id),
      (''subject_hash'', PStr subject_hash), (''intent_hash'', PStr intent_hash),
      (''issued_at'', PTime issued_at), (''expires_at'', PTime expires_at)])"

definition payload_of :: "attestation \<Rightarrow> exn + string" where
  "payload_of a = attestation_payload (at_algorithm a) (at_kind a) (at_key_id a) (at_subject_hash a)
     (at_intent_hash a) (at_issued_at a) (at_expires_at a)"

section \<open>HMACTrustStore\<close>

record hmac_store =
  hs_keys :: "(string \<times> string) list"
  hs_kinds :: "(string \<times> attestation_kind list) list"
  hs_skew :: int

definition hmac_store_init ::
    "(string \<times> string) list \<Rightarrow> (string \<times> attestation_kind list) list \<Rightarrow> int \<Rightarrow> exn + hmac_store" where
  "hmac_store_init keys kinds skew =
     (if keys = [] then Inl ValueError
      else if list_ex (\<lambda>p. length (snd p) < 16) keys then Inl ValueError
      else (case normalize_kinds (map fst keys) kinds of
        Inl e \<Rightarrow> Inl e
      | Inr ks \<Rightarrow>
          if \<not> (0 \<le> skew \<and> skew \<le> MAX_CLOCK_SKEW_SECONDS) then Inl ValueError
          else Inr \<lparr>hs_keys = keys, hs_kinds = ks, hs_skew = skew\<rparr>))"

text \<open>The construction of a signed attestation, shared by the two \<open>sign\<close> methods.\<close>

definition sign_with ::
    "crypto \<Rightarrow> signature_algorithm \<Rightarrow> (string \<Rightarrow> string) \<Rightarrow> string \<Rightarrow> attestation_kind \<Rightarrow> pyval \<Rightarrow> intent \<Rightarrow> time \<Rightarrow> int
      \<Rightarrow> exn + attestation" where
  "sign_with L alg sign key_id kind subject i issued_at ttl =
     (let expires_at = issued_at + secs ttl in
      case canonical_hash L subject of Inl e \<Rightarrow> Inl e | Inr sh \<Rightarrow>
      (case canonical_hash L (pv_intent i) of Inl e \<Rightarrow> Inl e | Inr ih \<Rightarrow>
      (case attestation_payload alg kind key_id sh ih issued_at expires_at of Inl e \<Rightarrow> Inl e | Inr payload \<Rightarrow>
        attestation_init \<lparr>at_kind = kind, at_key_id = key_id, at_algorithm = alg, at_subject_hash = sh,
          at_intent_hash = ih, at_issued_at = issued_at, at_expires_at = expires_at, at_signature = sign payload\<rparr>)))"

definition hmac_sign ::
    "crypto \<Rightarrow> hmac_store \<Rightarrow> string \<Rightarrow> attestation_kind \<Rightarrow> pyval \<Rightarrow> intent \<Rightarrow> time \<Rightarrow> int \<Rightarrow> exn + attestation" where
  "hmac_sign L st key_id kind subject i issued_at ttl =
     (if ttl \<le> 0 then Inl ValueError
      else (case map_of (hs_keys st) key_id of
        None \<Rightarrow> Inl KeyError
      | Some key \<Rightarrow>
          if \<not> kind_allowed (hs_kinds st) key_id kind then Inl PermissionError
          else sign_with L HMAC_SHA256 (hmac_sha256 L key) key_id kind subject i issued_at ttl))"

definition flag_if :: "bool \<Rightarrow> string \<Rightarrow> string list" where
  "flag_if c r = (if c then [r] else [])"

lemma flag_if_Nil [simp]: "flag_if c r = [] \<longleftrightarrow> \<not> c"
  by (simp add: flag_if_def)

text \<open>The reasons both verifiers collect before they look at the signature.\<close>

definition binding_reasons :: "attestation \<Rightarrow> string \<Rightarrow> string \<Rightarrow> int \<Rightarrow> time \<Rightarrow> string list" where
  "binding_reasons a subject_hash intent_hash skew now =
     flag_if (at_subject_hash a \<noteq> subject_hash) ''ATTESTATION_SUBJECT_MISMATCH'' @
     flag_if (at_intent_hash a \<noteq> intent_hash) ''ATTESTATION_INTENT_MISMATCH'' @
     flag_if (at_issued_at a > now + secs skew) ''ATTESTATION_FROM_FUTURE'' @
     flag_if (now > at_expires_at a) ''ATTESTATION_EXPIRED''"

definition verdict_of :: "string list \<Rightarrow> bool \<times> string list" where
  "verdict_of reasons = (reasons = [], reasons)"

text \<open>\<open>hmac.compare_digest\<close> raises on a text that is not ASCII.\<close>

definition hmac_verify ::
    "crypto \<Rightarrow> hmac_store \<Rightarrow> attestation \<Rightarrow> attestation_kind \<Rightarrow> pyval \<Rightarrow> intent \<Rightarrow> time \<Rightarrow> exn + bool \<times> string list" where
  "hmac_verify L st a kind subject i now =
     (let r0 = flag_if (at_algorithm a \<noteq> HMAC_SHA256) ''ATTESTATION_ALGORITHM_MISMATCH'' @
               flag_if (at_kind a \<noteq> kind) ''ATTESTATION_KIND_MISMATCH'' in
      case map_of (hs_keys st) (at_key_id a) of
        None \<Rightarrow> Inr (False, r0 @ [''ATTESTATION_KEY_UNKNOWN''])
      | Some key \<Rightarrow>
          let r1 = r0 @ flag_if (\<not> kind_allowed (hs_kinds st) (at_key_id a) kind) ''ATTESTATION_KEY_KIND_NOT_ALLOWED'' in
          (case canonical_hash L subject of Inl e \<Rightarrow> Inl e | Inr sh \<Rightarrow>
          (case canonical_hash L (pv_intent i) of Inl e \<Rightarrow> Inl e | Inr ih \<Rightarrow>
            let r2 = r1 @ binding_reasons a sh ih (hs_skew st) now in
            (case payload_of a of
               Inl e \<Rightarrow> Inr (False, r2 @ [''ATTESTATION_MALFORMED''])
             | Inr payload \<Rightarrow>
                 if list_ex (\<lambda>c. 128 \<le> (of_char c :: int)) (at_signature a) then Inl TypeError
                 else Inr (verdict_of (r2 @ flag_if (hmac_sha256 L key payload \<noteq> at_signature a) ''ATTESTATION_SIGNATURE_INVALID''))))))"

section \<open>Ed25519\<close>

text \<open>The fields shared by \<open>Ed25519TrustStore\<close> and \<open>Ed25519AttestationVerifier\<close>.\<close>

record ed_store =
  es_keys :: "(string \<times> key_object) list"
  es_kinds :: "(string \<times> attestation_kind list) list"
  es_validity :: "(string \<times> key_validity) list"
  es_skew :: int
  es_lifetime :: int

definition verify_ed25519_attestation ::
    "crypto \<Rightarrow> ed25519 \<Rightarrow> ed_store \<Rightarrow> attestation \<Rightarrow> attestation_kind \<Rightarrow> pyval \<Rightarrow> intent \<Rightarrow> time \<Rightarrow> exn + bool \<times> string list" where
  "verify_ed25519_attestation L E st a kind subject i now =
     (let r0 = flag_if (at_algorithm a \<noteq> ED25519) ''ATTESTATION_ALGORITHM_MISMATCH'' @
               flag_if (at_kind a \<noteq> kind) ''ATTESTATION_KIND_MISMATCH'' in
      case map_of (es_keys st) (at_key_id a) of
        None \<Rightarrow> Inr (False, r0 @ [''ATTESTATION_KEY_UNKNOWN''])
      | Some key \<Rightarrow>
          let r1 = r0 @
            flag_if (\<not> kind_allowed (es_kinds st) (at_key_id a) kind) ''ATTESTATION_KEY_KIND_NOT_ALLOWED'' @
            (case map_of (es_validity st) (at_key_id a) of
               None \<Rightarrow> []
             | Some v \<Rightarrow> (case rejection v (at_issued_at a) of None \<Rightarrow> [] | Some r \<Rightarrow> [''ATTESTATION_'' @ r])) in
          (case canonical_hash L subject of Inl e \<Rightarrow> Inl e | Inr sh \<Rightarrow>
          (case canonical_hash L (pv_intent i) of Inl e \<Rightarrow> Inl e | Inr ih \<Rightarrow>
            let r2 = r1 @ binding_reasons a sh ih (es_skew st) now @
              flag_if (at_expires_at a - at_issued_at a > secs (es_lifetime st)) ''ATTESTATION_TTL_EXCEEDED'' in
            (case payload_of a of
               Inl e \<Rightarrow> Inr (False, r2 @ [''ATTESTATION_MALFORMED''])
             | Inr payload \<Rightarrow>
                 (case decode_ed25519_signature (at_signature a) of
                    None \<Rightarrow> Inr (False, r2 @ [''ATTESTATION_SIGNATURE_INVALID''])
                  | Some raw \<Rightarrow>
                      Inr (verdict_of (r2 @ flag_if (\<not> key_verifies E key raw payload) ''ATTESTATION_SIGNATURE_INVALID'')))))))"

definition bounded_store :: "ed_store \<Rightarrow> exn + ed_store" where
  "bounded_store st =
     (if \<not> (0 \<le> es_skew st \<and> es_skew st \<le> MAX_CLOCK_SKEW_SECONDS) then Inl ValueError
      else if es_lifetime st \<le> 0 then Inl ValueError
      else Inr st)"

definition scoped_store ::
    "(string \<times> key_object) list \<Rightarrow> (string \<times> attestation_kind list) list \<Rightarrow> int \<Rightarrow> (string \<times> key_validity) list \<Rightarrow> int
      \<Rightarrow> exn + ed_store" where
  "scoped_store keys kinds skew validity lifetime =
     (case normalize_kinds (map fst keys) kinds of Inl e \<Rightarrow> Inl e | Inr ks \<Rightarrow>
      (case normalize_validity (map fst keys) validity of Inl e \<Rightarrow> Inl e | Inr vs \<Rightarrow>
        Inr \<lparr>es_keys = keys, es_kinds = ks, es_validity = vs, es_skew = skew, es_lifetime = lifetime\<rparr>))"

text \<open>\<open>Ed25519TrustStore.__init__\<close>: private and public keys cannot be mixed.\<close>

definition trust_store_init ::
    "(string \<times> key_object) list \<Rightarrow> (string \<times> attestation_kind list) list \<Rightarrow> int \<Rightarrow> (string \<times> key_validity) list \<Rightarrow> int
      \<Rightarrow> exn + ed_store" where
  "trust_store_init keys kinds skew validity lifetime =
     (if keys = [] then Inl ValueError
      else (case scoped_store keys kinds skew validity lifetime of Inl e \<Rightarrow> Inl e | Inr st \<Rightarrow>
        if length (remdups (map (\<lambda>p. has_signing_api (snd p)) keys)) \<noteq> 1 then Inl ValueError
        else bounded_store st))"

definition can_sign :: "ed_store \<Rightarrow> bool" where
  "can_sign st \<longleftrightarrow> list_all (\<lambda>p. has_signing_api (snd p)) (es_keys st)"

text \<open>\<open>Ed25519AttestationVerifier.__init__\<close>.\<close>

definition attestation_verifier_init ::
    "(string \<times> key_object) list \<Rightarrow> (string \<times> attestation_kind list) list \<Rightarrow> int \<Rightarrow> (string \<times> key_validity) list \<Rightarrow> int
      \<Rightarrow> exn + ed_store" where
  "attestation_verifier_init keys kinds skew validity lifetime =
     (if keys = [] then Inl ValueError
      else if list_ex (\<lambda>p. has_signing_api (snd p)) keys then Inl ValueError
      else (case scoped_store keys kinds skew validity lifetime of Inl e \<Rightarrow> Inl e | Inr st \<Rightarrow> bounded_store st))"

definition with_key_validity :: "ed_store \<Rightarrow> (string \<times> key_validity) list \<Rightarrow> exn + ed_store" where
  "with_key_validity st validity =
     attestation_verifier_init (es_keys st) (es_kinds st) (es_skew st) validity (es_lifetime st)"

definition public_half :: "ed25519 \<Rightarrow> key_object \<Rightarrow> key_object" where
  "public_half E key = (case key of PrivateKey k \<Rightarrow> PublicKey (ed_public E k) | _ \<Rightarrow> key)"

definition public_verifier ::
    "ed25519 \<Rightarrow> ed_store \<Rightarrow> (string \<times> key_validity) list option \<Rightarrow> int option \<Rightarrow> exn + ed_store" where
  "public_verifier E st validity lifetime =
     (if list_ex (\<lambda>p. case snd p of OpaqueSigner k \<Rightarrow> True | _ \<Rightarrow> False) (es_keys st) then Inl ValueError
      else attestation_verifier_init (map (\<lambda>p. (fst p, public_half E (snd p))) (es_keys st)) (es_kinds st) (es_skew st)
             (case validity of None \<Rightarrow> es_validity st | Some v \<Rightarrow> v)
             (case lifetime of None \<Rightarrow> es_lifetime st | Some n \<Rightarrow> n))"

definition key_signs :: "ed25519 \<Rightarrow> key_object \<Rightarrow> string \<Rightarrow> string" where
  "key_signs E key msg = (case key of PrivateKey k \<Rightarrow> ed_sign E k msg | OpaqueSigner k \<Rightarrow> ed_sign E k msg | PublicKey k \<Rightarrow> [])"

definition ed_store_sign ::
    "crypto \<Rightarrow> ed25519 \<Rightarrow> ed_store \<Rightarrow> string \<Rightarrow> attestation_kind \<Rightarrow> pyval \<Rightarrow> intent \<Rightarrow> time \<Rightarrow> int \<Rightarrow> exn + attestation" where
  "ed_store_sign L E st key_id kind subject i issued_at ttl =
     (if \<not> can_sign st then Inl PermissionError
      else if ttl \<le> 0 then Inl ValueError
      else (case map_of (es_keys st) key_id of
        None \<Rightarrow> Inl KeyError
      | Some key \<Rightarrow>
          if \<not> kind_allowed (es_kinds st) key_id kind then Inl PermissionError
          else sign_with L ED25519 (\<lambda>payload. encode_ed25519_signature (key_signs E key payload)) key_id kind subject i issued_at ttl))"

section \<open>What an accepted attestation proves\<close>

text \<open>
  The contract the runtime, the permit authority and the outcome check rely on: an
  accepted attestation is of the kind asked for, has not expired, and is bound to the
  hashes of the subject and the intent presented with it.
\<close>

locale attestation_verifier =
  fixes L :: crypto
    and verify :: "attestation \<Rightarrow> attestation_kind \<Rightarrow> pyval \<Rightarrow> intent \<Rightarrow> time \<Rightarrow> exn + bool \<times> string list"
  assumes accept: "verify a kind subject i now = Inr (True, rs) \<Longrightarrow>
      at_kind a = kind \<and> now \<le> at_expires_at a \<and> canonical_hash L subject = Inr (at_subject_hash a)
      \<and> canonical_hash L (pv_intent i) = Inr (at_intent_hash a) \<and> rs = []"
    and reject: "verify a kind subject i now = Inr (False, rs) \<Longrightarrow> rs \<noteq> []"
begin

text \<open>An attestation cannot be moved to another subject or intent unless the hash collides.\<close>

lemma no_substitution:
  assumes "verify a kind subject i now = Inr (True, rs)" and "verify a kind' subject' i' now' = Inr (True, rs')"
  shows "kind' = kind \<and> canonical_hash L subject' = canonical_hash L subject
    \<and> canonical_hash L (pv_intent i') = canonical_hash L (pv_intent i)"
  using accept [OF assms(1)] accept [OF assms(2)] by simp

end

lemma binding_reasons_Nil:
  "binding_reasons a sh ih skew now = [] \<longleftrightarrow>
     at_subject_hash a = sh \<and> at_intent_hash a = ih \<and> at_issued_at a \<le> now + secs skew \<and> now \<le> at_expires_at a"
  by (auto simp: binding_reasons_def)

interpretation hmac: attestation_verifier L "hmac_verify L st"
  by unfold_locales
    (auto simp: hmac_verify_def verdict_of_def binding_reasons_Nil Let_def split: option.splits sum.splits if_splits)

text \<open>An acceptance of the Ed25519 verifier, read backwards.\<close>

lemma ed_accept:
  assumes "verify_ed25519_attestation L E st a kind subject i now = Inr (True, rs)"
  shows "at_algorithm a = ED25519 \<and> at_kind a = kind \<and> kind_allowed (es_kinds st) (at_key_id a) kind
    \<and> canonical_hash L subject = Inr (at_subject_hash a) \<and> canonical_hash L (pv_intent i) = Inr (at_intent_hash a)
    \<and> at_issued_at a \<le> now + secs (es_skew st) \<and> now \<le> at_expires_at a
    \<and> at_expires_at a - at_issued_at a \<le> secs (es_lifetime st)
    \<and> (\<forall>v. map_of (es_validity st) (at_key_id a) = Some v \<longrightarrow> rejection v (at_issued_at a) = None)
    \<and> (\<exists>key raw payload. map_of (es_keys st) (at_key_id a) = Some key \<and> payload_of a = Inr payload
         \<and> decode_ed25519_signature (at_signature a) = Some raw \<and> key_verifies E key raw payload)
    \<and> rs = []"
  using assms
  by (auto simp: verify_ed25519_attestation_def verdict_of_def binding_reasons_Nil Let_def split: option.splits sum.splits if_splits)

interpretation ed: attestation_verifier L "verify_ed25519_attestation L E st"
proof unfold_locales
  fix a kind subject i now rs
  show "verify_ed25519_attestation L E st a kind subject i now = Inr (True, rs) \<Longrightarrow>
      at_kind a = kind \<and> now \<le> at_expires_at a \<and> canonical_hash L subject = Inr (at_subject_hash a)
      \<and> canonical_hash L (pv_intent i) = Inr (at_intent_hash a) \<and> rs = []"
    by (drule ed_accept) blast
  show "verify_ed25519_attestation L E st a kind subject i now = Inr (False, rs) \<Longrightarrow> rs \<noteq> []"
    by (auto simp: verify_ed25519_attestation_def verdict_of_def Let_def split: option.splits sum.splits if_splits)
qed

text \<open>
  C31. An accepted attestation proves what it is used for: it is an Ed25519 statement of the requested kind, by a
  configured key whose scope has that kind and whose lifecycle admits the issue time, its
  signature is the canonical text of bytes that verify over the payload, and the payload
  binds the hash of the very subject and intent presented. It is neither expired nor from
  the future, and a key that is revoked is never accepted; a key that expired at \<open>t\<close> is
  accepted at the latest at \<open>t\<close> plus the artifact lifetime bound.
\<close>

theorem attestation_accept_sound:
  assumes "verify_ed25519_attestation L E st a kind subject i now = Inr (True, rs)"
  shows "at_kind a = kind \<and> kind_allowed (es_kinds st) (at_key_id a) kind
    \<and> canonical_hash L subject = Inr (at_subject_hash a) \<and> canonical_hash L (pv_intent i) = Inr (at_intent_hash a)
    \<and> at_issued_at a \<le> now + secs (es_skew st) \<and> now \<le> at_expires_at a
    \<and> (\<exists>key raw payload. map_of (es_keys st) (at_key_id a) = Some key \<and> payload_of a = Inr payload
         \<and> at_signature a = encode_ed25519_signature raw \<and> key_verifies E key raw payload)
    \<and> (\<forall>v. map_of (es_validity st) (at_key_id a) = Some v \<longrightarrow>
         \<not> kv_revoked v \<and> (\<forall>t. kv_not_after v = Some t \<longrightarrow> now \<le> t + secs (es_lifetime st)))"
proof -
  note acc = ed_accept [OF assms]
  have "at_signature a = encode_ed25519_signature raw" if "decode_ed25519_signature (at_signature a) = Some raw" for raw
    using that by (auto simp: decode_ed25519_signature_def split: if_splits option.splits)
  moreover have "\<not> kv_revoked v \<and> (\<forall>t. kv_not_after v = Some t \<longrightarrow> now \<le> t + secs (es_lifetime st))"
    if "map_of (es_validity st) (at_key_id a) = Some v" for v
    using acc that by (auto simp: rejection_def split: if_splits option.splits)
  ultimately show ?thesis using acc by blast
qed

section \<open>Signing and verifying\<close>

text \<open>What is assumed of the Ed25519 library: a signature has 64 bytes and verifies under the public half.\<close>

definition ed_correct :: "ed25519 \<Rightarrow> bool" where
  "ed_correct E \<longleftrightarrow> (\<forall>k m. length (ed_sign E k m) = ED25519_SIGNATURE_BYTES \<and> ed_verify E (ed_public E k) (ed_sign E k m) m)"

lemma map_of_public: "map_of (map (\<lambda>p. (fst p, f (snd p))) xs) k = map_option f (map_of xs k)"
  by (induction xs) auto

lemma signature_decodes:
  assumes "length raw = ED25519_SIGNATURE_BYTES"
  shows "decode_ed25519_signature (encode_ed25519_signature raw) = Some raw"
  using codec_inverts [OF assms] .

lemma sign_then_verify:
  assumes "ed_correct E" and "public_verifier E st None None = Inr ver"
    and "ed_store_sign L E st key_id kind subject i issued_at ttl = Inr a"
    and "ttl \<le> es_lifetime st" and "issued_at \<le> now + secs (es_skew st)" and "now \<le> issued_at + secs ttl"
    and "case map_of (es_validity st) key_id of None \<Rightarrow> True | Some v \<Rightarrow> rejection v issued_at = None"
  shows "verify_ed25519_attestation L E ver a kind subject i now = Inr (True, [])"
proof -
  obtain key where key: "map_of (es_keys st) key_id = Some key" "kind_allowed (es_kinds st) key_id kind" "can_sign st"
    using assms(3) by (auto simp: ed_store_sign_def split: if_splits option.splits)
  have ver: "es_kinds ver = es_kinds st" "es_validity ver = es_validity st" "es_skew ver = es_skew st"
    "es_lifetime ver = es_lifetime st" "es_keys ver = map (\<lambda>p. (fst p, public_half E (snd p))) (es_keys st)"
    "\<forall>p \<in> set (es_keys st). \<forall>k. snd p \<noteq> OpaqueSigner k"
    using assms(2)
    by (auto simp: public_verifier_def attestation_verifier_init_def scoped_store_def bounded_store_def normalize_kinds_def
        normalize_validity_def list_ex_iff split: if_splits sum.splits key_object.splits)
  have "has_signing_api key" using key(1,3) map_of_SomeD by (fastforce simp: can_sign_def list_all_iff)
  moreover have "\<forall>k. key \<noteq> OpaqueSigner k" using key(1) ver(6) map_of_SomeD by fastforce
  ultimately obtain k where k: "key = PrivateKey k" by (cases key) auto
  obtain sh ih payload where s: "canonical_hash L subject = Inr sh" "canonical_hash L (pv_intent i) = Inr ih"
    "attestation_payload ED25519 kind key_id sh ih issued_at (issued_at + secs ttl) = Inr payload"
    "a = \<lparr>at_kind = kind, at_key_id = key_id, at_algorithm = ED25519, at_subject_hash = sh, at_intent_hash = ih,
      at_issued_at = issued_at, at_expires_at = issued_at + secs ttl,
      at_signature = encode_ed25519_signature (ed_sign E k payload)\<rparr>"
    using assms(3) key k
    by (auto simp: ed_store_sign_def sign_with_def attestation_init_def Let_def key_signs_def split: if_splits sum.splits)
  have "map_of (es_keys ver) key_id = Some (PublicKey (ed_public E k))"
    unfolding ver(5) map_of_public using key(1) k by (simp add: public_half_def)
  moreover have "decode_ed25519_signature (at_signature a) = Some (ed_sign E k payload)"
    using assms(1) signature_decodes s(4) by (simp add: ed_correct_def)
  moreover have "rejection v issued_at = None" if "map_of (es_validity st) key_id = Some v" for v
    using that assms(7) by simp
  ultimately show ?thesis
    using assms(1,4,5,6) key(2) s ver(1-4)
    by (auto simp: verify_ed25519_attestation_def verdict_of_def binding_reasons_def flag_if_def payload_of_def key_verifies_def
        ed_correct_def Let_def secs_def split: option.splits)
qed

text \<open>
  C32. Signing round trip: whatever a signing store signs, its own public verifier accepts, at every instant from
  the issue time minus the skew until the expiry, as long as the requested lifetime is
  inside the verifier's bound and the key's lifecycle admits the issue time.
\<close>

theorem signed_attestation_accepted:
  assumes "ed_correct E" and "public_verifier E st None None = Inr ver"
    and "ed_store_sign L E st key_id kind subject i issued_at ttl = Inr a"
    and "ttl \<le> es_lifetime st" and "issued_at \<le> now + secs (es_skew st)" and "now \<le> issued_at + secs ttl"
    and "case map_of (es_validity st) key_id of None \<Rightarrow> True | Some v \<Rightarrow> rejection v issued_at = None"
  shows "verify_ed25519_attestation L E ver a kind subject i now = Inr (True, [])"
  using assms by (rule sign_then_verify)

text \<open>
  A public verifier cannot sign: none of the keys it holds has a signing interface, however
  the store it was derived from was configured, and \<open>sign\<close> on it raises.
\<close>

lemma public_verifier_cannot_sign:
  assumes "public_verifier E st validity lifetime = Inr ver"
  shows "list_all (\<lambda>p. \<not> has_signing_api (snd p)) (es_keys ver)
    \<and> ed_store_sign L E ver key_id kind subject i issued_at ttl = Inl PermissionError"
proof -
  have "es_keys ver \<noteq> [] \<and> list_all (\<lambda>p. \<not> has_signing_api (snd p)) (es_keys ver)"
    using assms
    by (auto simp: public_verifier_def attestation_verifier_init_def scoped_store_def bounded_store_def list_ex_iff list_all_iff
        split: if_splits sum.splits)
  then show ?thesis by (cases "es_keys ver") (auto simp: ed_store_sign_def can_sign_def list_all_iff)
qed

section \<open>A concrete signer\<close>

definition demo_ed :: ed25519 where
  "demo_ed =
     \<lparr>ed_sign = (\<lambda>k m. take 64 (k @ m @ replicate 64 CHR ''.'')), ed_public = (\<lambda>k. k),
      ed_verify = (\<lambda>k raw m. raw = take 64 (k @ m @ replicate 64 CHR ''.''))\<rparr>"

definition demo_signer :: ed_store where
  "demo_signer =
     \<lparr>es_keys = [(''key-1'', PrivateKey ''secret'')], es_kinds = [(''key-1'', [K_AUTHORITY, K_RISK])],
      es_validity = [(''key-1'', \<lparr>kv_not_before = None, kv_not_after = Some (secs 2000), kv_revoked = False\<rparr>)],
      es_skew = 5, es_lifetime = 86400\<rparr>"

definition demo_verifier :: ed_store where
  "demo_verifier = demo_signer\<lparr>es_keys := [(''key-1'', PublicKey ''secret'')]\<rparr>"

definition demo_authority_attestation :: attestation where
  "demo_authority_attestation =
     projr (ed_store_sign demo_crypto demo_ed demo_signer ''key-1'' K_AUTHORITY (pv_authority demo_authority) demo_intent (secs 1000) 30)"

lemma demo_ed_correct: "ed_correct demo_ed"
  by (auto simp: ed_correct_def demo_ed_def ED25519_SIGNATURE_BYTES_def min_def)

lemma demo_public: "public_verifier demo_ed demo_signer None None = Inr demo_verifier"
  by (simp add: public_verifier_def attestation_verifier_init_def scoped_store_def bounded_store_def normalize_kinds_def
      normalize_validity_def demo_signer_def demo_verifier_def demo_ed_def public_half_def MAX_CLOCK_SKEW_SECONDS_def)

lemma demo_signed:
  "ed_store_sign demo_crypto demo_ed demo_signer ''key-1'' K_AUTHORITY (pv_authority demo_authority) demo_intent (secs 1000) 30
     = Inr demo_authority_attestation"
proof -
  have "\<not> isl (ed_store_sign demo_crypto demo_ed demo_signer ''key-1'' K_AUTHORITY (pv_authority demo_authority) demo_intent (secs 1000) 30)"
    by code_simp
  then show ?thesis by (simp add: demo_authority_attestation_def)
qed

theorem signed_attestation_accepted_witness:
  "verify_ed25519_attestation demo_crypto demo_ed demo_verifier demo_authority_attestation K_AUTHORITY (pv_authority demo_authority)
     demo_intent (secs 1010) = Inr (True, [])"
  by (rule signed_attestation_accepted [OF demo_ed_correct demo_public demo_signed])
    (simp_all add: demo_signer_def secs_def rejection_def)

lemma demo_accepted:
  "verify_ed25519_attestation demo_crypto demo_ed demo_verifier demo_authority_attestation K_AUTHORITY (pv_authority demo_authority)
     demo_intent (secs 1010) = Inr (True, [])"
  by (rule sign_then_verify [OF demo_ed_correct demo_public demo_signed])
    (simp_all add: demo_signer_def secs_def rejection_def)

theorem attestation_accept_sound_witness:
  "at_kind demo_authority_attestation = K_AUTHORITY \<and> secs 1010 \<le> at_expires_at demo_authority_attestation
    \<and> canonical_hash demo_crypto (pv_intent demo_intent) = Inr (at_intent_hash demo_authority_attestation)"
  using attestation_accept_sound [OF demo_accepted] by blast

lemma public_verifier_cannot_sign_witness:
  "ed_store_sign demo_crypto demo_ed demo_verifier ''key-1'' K_RISK (pv_risk demo_risk) demo_intent (secs 1000) 30 = Inl PermissionError"
  using public_verifier_cannot_sign [OF demo_public] by blast

end
