(* ===== verification/Permits.thy ===== *)
theory Permits
  imports World Gates Attestation
begin

text \<open>
  \<open>faar/permits.py\<close>: the signer that turns an authorized request into one execution
  permit, and the gateway that verifies and consumes it at the venue.

  A permit backend is one of the three classes of the source: the symmetric test
  fixture, the Ed25519 signer, and the public-key verifier. Both sides reach the store
  through calls that other workers can interleave with.

  Shown here: what an issued permit proves about the request, the gates, the attestations
  and its own bounds, and that it is in the ledger when it leaves the signer; what a
  consumption at the gateway proves; and that the gateway refuses a permit of another
  venue, an unknown signer or a revoked one before the ledger is touched.
\<close>

type_synonym trust = "attestation \<Rightarrow> attestation_kind \<Rightarrow> pyval \<Rightarrow> intent \<Rightarrow> time \<Rightarrow> exn + bool \<times> string list"

section \<open>Signature backends\<close>

datatype permit_backend =
    HMACPermitSignature string string
  | Ed25519PermitSigner string string
  | Ed25519PermitVerifier string string

definition hmac_backend_init :: "string \<Rightarrow> string \<Rightarrow> exn + permit_backend" where
  "hmac_backend_init signer_id key =
     (if signer_id = [] \<or> length key < 16 then Inl ValueError else Inr (HMACPermitSignature signer_id key))"

definition ed25519_verifier_init :: "string \<Rightarrow> key_object \<Rightarrow> exn + permit_backend" where
  "ed25519_verifier_init signer_id key =
     (if signer_id = [] then Inl ValueError
      else (case key of PublicKey k \<Rightarrow> Inr (Ed25519PermitVerifier signer_id k) | _ \<Rightarrow> Inl ValueError))"

fun backend_id :: "permit_backend \<Rightarrow> string" where
  "backend_id (HMACPermitSignature i k) = i"
| "backend_id (Ed25519PermitSigner i k) = i"
| "backend_id (Ed25519PermitVerifier i k) = i"

fun backend_algorithm :: "permit_backend \<Rightarrow> signature_algorithm" where
  "backend_algorithm (HMACPermitSignature i k) = HMAC_SHA256"
| "backend_algorithm (Ed25519PermitSigner i k) = ED25519"
| "backend_algorithm (Ed25519PermitVerifier i k) = ED25519"

fun backend_signs :: "permit_backend \<Rightarrow> bool" where
  "backend_signs (HMACPermitSignature i k) = True"
| "backend_signs (Ed25519PermitSigner i k) = True"
| "backend_signs (Ed25519PermitVerifier i k) = False"

fun backend_symmetric :: "permit_backend \<Rightarrow> bool" where
  "backend_symmetric (HMACPermitSignature i k) = True"
| "backend_symmetric (Ed25519PermitSigner i k) = False"
| "backend_symmetric (Ed25519PermitVerifier i k) = False"

text \<open>A method the class does not have is an error.\<close>

fun backend_sign :: "crypto \<Rightarrow> ed25519 \<Rightarrow> permit_backend \<Rightarrow> string \<Rightarrow> exn + string" where
  "backend_sign L E (HMACPermitSignature i k) payload = Inr (hmac_sha256 L k payload)"
| "backend_sign L E (Ed25519PermitSigner i k) payload = Inr (encode_ed25519_signature (ed_sign E k payload))"
| "backend_sign L E (Ed25519PermitVerifier i k) payload = Inl OtherError"

definition ed25519_verify :: "ed25519 \<Rightarrow> string \<Rightarrow> string \<Rightarrow> string \<Rightarrow> bool" where
  "ed25519_verify E pub payload signature =
     (case decode_ed25519_signature signature of None \<Rightarrow> False | Some raw \<Rightarrow> ed_verify E pub raw payload)"

fun backend_verify :: "crypto \<Rightarrow> ed25519 \<Rightarrow> permit_backend \<Rightarrow> string \<Rightarrow> string \<Rightarrow> exn + bool" where
  "backend_verify L E (HMACPermitSignature i k) payload sig =
     (if list_ex (\<lambda>c. 128 \<le> (of_char c :: int)) sig then Inl TypeError else Inr (hmac_sha256 L k payload = sig))"
| "backend_verify L E (Ed25519PermitSigner i k) payload sig = Inl OtherError"
| "backend_verify L E (Ed25519PermitVerifier i k) payload sig = Inr (ed25519_verify E k payload sig)"

text \<open>\<open>Ed25519PermitSigner.public_verifier\<close>.\<close>

definition backend_public :: "ed25519 \<Rightarrow> permit_backend \<Rightarrow> permit_backend" where
  "backend_public E b = (case b of Ed25519PermitSigner i k \<Rightarrow> Ed25519PermitVerifier i (ed_public E k) | _ \<Rightarrow> b)"

definition signed_permit_payload :: "execution_permit \<Rightarrow> string \<Rightarrow> signature_algorithm \<Rightarrow> exn + string" where
  "signed_permit_payload p signer_id alg = canonical_json (dict_of
     [(''permit'', pv_permit p), (''signer_id'', PStr signer_id), (''algorithm'', PStr (algorithm_str alg))])"

definition request_amount :: "execution_request \<Rightarrow> decimal option" where
  "request_amount r = parse_bounded_decimal (amount_raw (rq_payload r))"

section \<open>ConstrainedPermitAuthority\<close>

record permit_authority =
  pa_cfg :: cfg
  pa_trust :: trust
  pa_ed :: ed25519
  pa_backend :: permit_backend
  pa_ttl :: int

text \<open>\<open>trust_signs\<close> is \<open>has_signing_api(trust)\<close>.\<close>

definition permit_authority_init :: "permit_authority \<Rightarrow> bool \<Rightarrow> bool \<Rightarrow> exn + permit_authority" where
  "permit_authority_init pa trust_signs allow_symmetric =
     (if pa_ttl pa \<le> 0 then Inl ValueError
      else if \<not> backend_signs (pa_backend pa) then Inl ValueError
      else if backend_symmetric (pa_backend pa) \<and> \<not> allow_symmetric then Inl ValueError
      else if trust_signs then Inl ValueError
      else Inr pa)"

definition upper_char :: "char \<Rightarrow> char" where
  "upper_char c = (let n = of_char c :: int in if 97 \<le> n \<and> n \<le> 122 then char_of (n - 32) else c)"

text \<open>The decisions that are not ALLOW, as permit reasons.\<close>

definition decision_reasons :: "decision \<Rightarrow> string list" where
  "decision_reasons d =
     (if d_verdict d \<noteq> V_ALLOW then
        (''PERMIT_'' @ map upper_char (d_layer d) @ ''_'' @ verdict_str (d_verdict d)) #
        map (\<lambda>r. ''PERMIT_'' @ r) (d_reason_codes d)
      else [])"

definition prefixed :: "string \<Rightarrow> bool \<times> string list \<Rightarrow> string list" where
  "prefixed p verdict = (if fst verdict then [] else map (\<lambda>r. p @ r) (snd verdict))"

definition amount_reasons_of :: "intent \<Rightarrow> capability_grant \<Rightarrow> decimal option \<Rightarrow> string list" where
  "amount_reasons_of i g amount =
     (if is_monetary (i_primitive i) then
        flag (case amount of None \<Rightarrow> True | Some a \<Rightarrow> dle a dzero) ''PERMIT_AMOUNT_INVALID'' @
        flag (case max_order_usd (g_limits g) of None \<Rightarrow> True
              | Some m \<Rightarrow> (case amount of None \<Rightarrow> False | Some a \<Rightarrow> dlt m a)) ''PERMIT_AMOUNT_EXCEEDS_GRANT''
      else [])"

text \<open>The checks of \<open>issue\<close> before anything is claimed: the reasons, in order.\<close>

definition issue_reasons ::
    "permit_authority \<Rightarrow> execution_request \<Rightarrow> intent \<Rightarrow> authority_decision \<Rightarrow> capability_grant \<Rightarrow> risk_snapshot
      \<Rightarrow> attestation \<Rightarrow> attestation \<Rightarrow> time \<Rightarrow> ('v world, string list) op" where
  "issue_reasons pa rq i ad g r aa ra now =
     (let L = c_crypto (pa_cfg pa) in
      bindE (lift_sum (canonical_hash L (pv_request rq))) (\<lambda>h.
      bindE (lift_sum (canonical_hash L (pv_request (from_intent i)))) (\<lambda>h'.
      bindE (catch (bindE (lift_sum (canonical_hash L (pv_grant g))) (\<lambda>gh.
                      seqE (call (verify_grant g gh)) (ret [])))
               (\<lambda>e. ret [''PERMIT_GRANT_NOT_TRUSTED''])) (\<lambda>untrusted.
      bindE (lift_sum (pa_trust pa aa K_AUTHORITY (pv_authority ad) i now)) (\<lambda>va.
      bindE (lift_sum (pa_trust pa ra K_RISK (pv_risk r) i now)) (\<lambda>vr.
      bindE (call (verify_usage_held i g)) (\<lambda>held.
      ret (flag (h \<noteq> h') ''PERMIT_REQUEST_NOT_CANONICAL_INTENT_PROJECTION'' @
           flag (rq_principal_id rq \<noteq> i_principal_id i \<or> g_principal_id g \<noteq> i_principal_id i) ''PERMIT_PRINCIPAL_MISMATCH'' @
           untrusted @ prefixed ''PERMIT_AUTHORITY_'' va @ prefixed ''PERMIT_RISK_'' vr @
           decision_reasons (evaluate_authority ad) @ decision_reasons (evaluate_capability i g now) @
           decision_reasons (evaluate_risk i g r now) @
           flag (\<not> held) ''PERMIT_USAGE_RESERVATION_NOT_HELD'' @
           flag (now > i_expires_at i) ''PERMIT_INTENT_EXPIRED'' @
           flag (case g_valid_until g of None \<Rightarrow> False | Some v \<Rightarrow> now > v) ''PERMIT_GRANT_EXPIRED'' @
           amount_reasons_of i g (request_amount rq)))))))))"

definition permit_expiry :: "permit_authority \<Rightarrow> intent \<Rightarrow> capability_grant \<Rightarrow> attestation \<Rightarrow> attestation \<Rightarrow> time \<Rightarrow> time" where
  "permit_expiry pa i g aa ra now =
     min (i_expires_at i) (min (case g_valid_until g of None \<Rightarrow> i_expires_at i | Some v \<Rightarrow> v)
       (min (at_expires_at aa) (min (at_expires_at ra) (now + secs (pa_ttl pa)))))"

text \<open>The permit itself, signed; its id is derived from the grant, the request, the epoch and the fence.\<close>

definition mint ::
    "permit_authority \<Rightarrow> execution_request \<Rightarrow> intent \<Rightarrow> capability_grant \<Rightarrow> attestation \<Rightarrow> attestation \<Rightarrow> time \<Rightarrow> time \<Rightarrow> int \<Rightarrow> int
      \<Rightarrow> exn + signed_permit" where
  "mint pa rq i g aa ra now expires_at epoch fence =
     (let L = c_crypto (pa_cfg pa); b = pa_backend pa in
      case canonical_hash L (pv_request rq) of Inl e \<Rightarrow> Inl e | Inr rh \<Rightarrow>
      (case canonical_hash L (pv_grant g) of Inl e \<Rightarrow> Inl e | Inr gh \<Rightarrow>
      (case canonical_json (dict_of
          [(''principal_id'', PStr (i_principal_id i)), (''intent_id'', PStr (i_intent_id i)), (''grant_hash'', PStr gh),
           (''request_hash'', PStr rh), (''grant_epoch'', PInt epoch), (''fence_token'', PInt fence)]) of
        Inl e \<Rightarrow> Inl e | Inr seed \<Rightarrow>
      (case canonical_hash L (pv_attestation aa) of Inl e \<Rightarrow> Inl e | Inr ah \<Rightarrow>
      (case canonical_hash L (pv_attestation ra) of Inl e \<Rightarrow> Inl e | Inr rah \<Rightarrow>
      (case execution_permit_init
          \<lparr>pm_permit_id = ''permit_'' @ take 32 (sha256 L seed), pm_principal_id = i_principal_id i,
           pm_intent_id = i_intent_id i, pm_grant_id = g_grant_id g, pm_grant_version = g_version g,
           pm_grant_hash = gh, pm_request_hash = rh, pm_authority_attestation_hash = ah,
           pm_risk_attestation_hash = rah, pm_grant_epoch = epoch, pm_fence_token = fence,
           pm_max_amount_usd = request_amount rq, pm_issued_at = now, pm_expires_at = expires_at\<rparr> of
        Inl e \<Rightarrow> Inl e | Inr permit \<Rightarrow>
      (case signed_permit_payload permit (backend_id b) (backend_algorithm b) of Inl e \<Rightarrow> Inl e | Inr payload \<Rightarrow>
      (case backend_sign L (pa_ed pa) b payload of Inl e \<Rightarrow> Inl e | Inr sig \<Rightarrow>
        signed_permit_init \<lparr>sp_permit = permit, sp_signer_id = backend_id b, sp_algorithm = backend_algorithm b,
          sp_signature = sig\<rparr>))))))))"

definition issue ::
    "permit_authority \<Rightarrow> execution_request \<Rightarrow> intent \<Rightarrow> authority_decision \<Rightarrow> capability_grant \<Rightarrow> risk_snapshot
      \<Rightarrow> attestation \<Rightarrow> attestation \<Rightarrow> time \<Rightarrow> ('v world, signed_permit) op" where
  "issue pa rq i ad g r aa ra now =
     (let c = pa_cfg pa; L = c_crypto c in
      bindE (issue_reasons pa rq i ad g r aa ra now) (\<lambda>reasons.
      if reasons \<noteq> [] then raise_exn (PermitIssuanceError (dedup reasons))
      else bindE (catch (call (claim_permit_risk_state i g r))
                    (\<lambda>e. raise_exn (PermitIssuanceError [''PERMIT_RISK_CLAIM_UNAVAILABLE'']))) (\<lambda>(claimed, why).
      if \<not> claimed then raise_exn (PermitIssuanceError (if why = [] then [''PERMIT_RISK_CLAIM_REJECTED''] else why))
      else bindE (catch (call (next_execution_fence c g))
                    (\<lambda>e. raise_exn (PermitIssuanceError [''PERMIT_GRANT_FENCE_UNAVAILABLE'']))) (\<lambda>(epoch, fence).
      bindE (call (get_grant_control c (g_principal_id g) (g_grant_id g) (g_version g))) (\<lambda>(status, current, _).
      if status \<noteq> CS GS_ACTIVE \<or> current \<noteq> epoch then raise_exn (PermitIssuanceError [''PERMIT_GRANT_EPOCH_CHANGED''])
      else let expires_at = permit_expiry pa i g aa ra now in
      if expires_at \<le> now then raise_exn (PermitIssuanceError [''PERMIT_TTL_EMPTY''])
      else bindE (lift_sum (mint pa rq i g aa ra now expires_at epoch fence)) (\<lambda>signed.
      bindE (lift_sum (canonical_hash L (pv_signed_permit signed))) (\<lambda>h.
      seqE (catch (call (record_execution_permit (pm_permit_id (sp_permit signed)) i g epoch fence h (Some expires_at) (Some now)))
              (\<lambda>e. raise_exn (if e = PermitConflict then PermitIssuanceError [''PERMIT_PREVIOUS_ATTEMPT_LIVE''] else e)))
        (ret signed))))))))"

section \<open>ExecutionPermitVerifier\<close>

record permit_gateway =
  pg_cfg :: cfg
  pg_ed :: ed25519
  pg_verifiers :: "(string \<times> permit_backend) list"
  pg_validity :: "(string \<times> key_validity) list"
  pg_skew :: int
  pg_lifetime :: int
  pg_venue :: "string option"

definition permit_gateway_init :: "permit_gateway \<Rightarrow> bool \<Rightarrow> exn + permit_gateway" where
  "permit_gateway_init pg allow_signing =
     (if pg_verifiers pg = [] then Inl ValueError
      else if pg_lifetime pg \<le> 0 then Inl ValueError
      else if \<not> (0 \<le> pg_skew pg \<and> pg_skew pg \<le> MAX_CLOCK_SKEW_SECONDS) then Inl ValueError
      else if list_ex (\<lambda>(sid, b). backend_id b \<noteq> sid) (pg_verifiers pg) then Inl ValueError
      else if list_ex (\<lambda>(sid, b). backend_signs b) (pg_verifiers pg) \<and> \<not> allow_signing then Inl ValueError
      else if list_ex (\<lambda>p. fst p \<notin> set (map fst (pg_verifiers pg))) (pg_validity pg) then Inl ValueError
      else Inr pg)"

definition gateway_with_key_validity :: "permit_gateway \<Rightarrow> (string \<times> key_validity) list \<Rightarrow> exn + permit_gateway" where
  "gateway_with_key_validity pg validity = permit_gateway_init (pg\<lparr>pg_validity := validity\<rparr>) True"

fun status_reason :: "control_status \<Rightarrow> string" where
  "status_reason CS_HALTED = ''PERMIT_HALTED''"
| "status_reason CS_REGRESSED = ''PERMIT_AUTHORITY_REGRESSED''"
| "status_reason CS_ANCHOR_REQUIRED = ''PERMIT_ANCHOR_REQUIRED''"
| "status_reason CS_ANCHOR_UNAVAILABLE = ''PERMIT_ANCHOR_UNAVAILABLE''"
| "status_reason (CS st) = ''PERMIT_GRANT_NOT_ACTIVE''"

text \<open>The checks that need no store.\<close>

definition static_reasons ::
    "permit_gateway \<Rightarrow> permit_backend \<Rightarrow> signed_permit \<Rightarrow> execution_request \<Rightarrow> bool \<Rightarrow> string \<Rightarrow> time \<Rightarrow> string list" where
  "static_reasons pg b signed rq sig_ok rh now =
     (let p = sp_permit signed in
      (case map_of (pg_validity pg) (sp_signer_id signed) of
         None \<Rightarrow> []
       | Some v \<Rightarrow> (case rejection v (pm_issued_at p) of None \<Rightarrow> [] | Some why \<Rightarrow> [''PERMIT_SIGNER_'' @ drop 4 why])) @
      flag (sp_algorithm signed \<noteq> backend_algorithm b) ''PERMIT_ALGORITHM_MISMATCH'' @
      flag (\<not> sig_ok) ''PERMIT_SIGNATURE_INVALID'' @
      flag (pm_request_hash p \<noteq> rh) ''PERMIT_REQUEST_HASH_MISMATCH'' @
      flag (pm_principal_id p \<noteq> rq_principal_id rq \<or> pm_intent_id p \<noteq> rq_intent_id rq) ''PERMIT_REQUEST_IDENTITY_MISMATCH'' @
      flag (pm_issued_at p > now + secs (pg_skew pg)) ''PERMIT_FROM_FUTURE'' @
      flag (now > pm_expires_at p) ''PERMIT_EXPIRED'' @
      flag (pm_expires_at p - pm_issued_at p > secs (pg_lifetime pg)) ''PERMIT_TTL_EXCEEDED'')"

definition control_reasons :: "execution_permit \<Rightarrow> control_status \<times> int \<times> int \<Rightarrow> string list" where
  "control_reasons p ctl = (case ctl of (status, epoch, fence) \<Rightarrow>
     flag (status \<noteq> CS GS_ACTIVE) (status_reason status) @
     flag (epoch \<noteq> pm_grant_epoch p) ''PERMIT_GRANT_EPOCH_STALE'')"

definition envelope_reasons :: "execution_permit \<Rightarrow> decimal option \<Rightarrow> string list" where
  "envelope_reasons p actual = (case pm_max_amount_usd p of
     None \<Rightarrow> []
   | Some m \<Rightarrow> (case actual of
       None \<Rightarrow> [''PERMIT_REQUEST_AMOUNT_INVALID'']
     | Some a \<Rightarrow> if dle a dzero then [''PERMIT_REQUEST_AMOUNT_INVALID'']
                 else flag (dlt m a) ''PERMIT_REQUEST_AMOUNT_EXCEEDED''))"

definition verify_checked ::
    "permit_gateway \<Rightarrow> signed_permit \<Rightarrow> execution_request \<Rightarrow> time \<Rightarrow> string option \<Rightarrow> ('v world, bool \<times> string list) op" where
  "verify_checked pg signed rq now venue =
     (let p = sp_permit signed; L = c_crypto (pg_cfg pg);
          bound = (if venue \<noteq> None then venue else pg_venue pg) in
      if bound \<noteq> None \<and> Some (rq_venue rq) \<noteq> bound then ret (False, [''PERMIT_VENUE_MISMATCH''])
      else case map_of (pg_verifiers pg) (sp_signer_id signed) of
        None \<Rightarrow> ret (False, [''PERMIT_SIGNER_UNKNOWN''])
      | Some b \<Rightarrow>
          bindE (lift_sum (signed_permit_payload p (sp_signer_id signed) (sp_algorithm signed))) (\<lambda>payload.
          bindE (lift_sum (backend_verify L (pg_ed pg) b payload (sp_signature signed))) (\<lambda>sig_ok.
          bindE (lift_sum (canonical_hash L (pv_request rq))) (\<lambda>rh.
          bindE (catch (bindE (call (get_grant_control (pg_cfg pg) (pm_principal_id p) (pm_grant_id p) (pm_grant_version p)))
                          (\<lambda>ctl. ret (control_reasons p ctl)))
                   (\<lambda>e. ret [''PERMIT_GRANT_CONTROL_UNAVAILABLE''])) (\<lambda>control.
          let reasons = static_reasons pg b signed rq sig_ok rh now @ control @ envelope_reasons p (request_amount rq) in
          ret (reasons = [], reasons))))))"

definition gateway_verify ::
    "permit_gateway \<Rightarrow> signed_permit \<Rightarrow> execution_request \<Rightarrow> time \<Rightarrow> string option \<Rightarrow> ('v world, bool \<times> string list) op" where
  "gateway_verify pg signed rq now venue =
     catch (verify_checked pg signed rq now venue) (\<lambda>e. ret (False, [''PERMIT_MALFORMED'']))"

definition gateway_consume ::
    "permit_gateway \<Rightarrow> signed_permit \<Rightarrow> execution_request \<Rightarrow> time \<Rightarrow> string option \<Rightarrow> ('v world, bool \<times> string list) op" where
  "gateway_consume pg signed rq now venue =
     bindE (gateway_verify pg signed rq now venue) (\<lambda>(ok, reasons).
       if \<not> ok then ret (False, reasons)
       else let p = sp_permit signed in
         catch (bindE (lift_sum (canonical_hash (c_crypto (pg_cfg pg)) (pv_signed_permit signed))) (\<lambda>h.
                  call (consume_execution_permit (pg_cfg pg) (pm_permit_id p) (pm_principal_id p) (pm_grant_id p)
                    (pm_grant_version p) (pm_grant_epoch p) (pm_fence_token p) h)))
           (\<lambda>e. ret (False, [''PERMIT_CONSUMPTION_UNAVAILABLE''])))"

section \<open>What an issued permit proves\<close>

lemma decision_reasons_Nil [simp]: "decision_reasons d = [] \<longleftrightarrow> d_verdict d = V_ALLOW"
  by (simp add: decision_reasons_def)

lemma issue_reasons_NilE:
  assumes "issue_reasons pa rq i ad g r aa ra now w = (Inr [], t)"
  shows "canonical_hash (c_crypto (pa_cfg pa)) (pv_request rq) = canonical_hash (c_crypto (pa_cfg pa)) (pv_request (from_intent i))"
    and "g_principal_id g = i_principal_id i"
    and "d_verdict (evaluate_authority ad) = V_ALLOW" and "d_verdict (evaluate_capability i g now) = V_ALLOW"
    and "d_verdict (evaluate_risk i g r now) = V_ALLOW"
    and "\<exists>v. pa_trust pa aa K_AUTHORITY (pv_authority ad) i now = Inr v \<and> prefixed ''PERMIT_AUTHORITY_'' v = []"
    and "\<exists>v. pa_trust pa ra K_RISK (pv_risk r) i now = Inr v \<and> prefixed ''PERMIT_RISK_'' v = []"
    and "amount_reasons_of i g (request_amount rq) = []"
  using assms by (auto simp: issue_reasons_def inr_simps Let_def)

lemma minted:
  assumes "mint pa rq i g aa ra now expires_at epoch fence = Inr signed"
  shows "canonical_hash (c_crypto (pa_cfg pa)) (pv_request rq) = Inr (pm_request_hash (sp_permit signed))"
    and "canonical_hash (c_crypto (pa_cfg pa)) (pv_grant g) = Inr (pm_grant_hash (sp_permit signed))"
    and "pm_principal_id (sp_permit signed) = i_principal_id i" and "pm_intent_id (sp_permit signed) = i_intent_id i"
    and "pm_grant_id (sp_permit signed) = g_grant_id g" and "pm_grant_version (sp_permit signed) = g_version g"
    and "pm_grant_epoch (sp_permit signed) = epoch" and "pm_fence_token (sp_permit signed) = fence"
    and "pm_max_amount_usd (sp_permit signed) = request_amount rq"
    and "pm_issued_at (sp_permit signed) = now" and "pm_expires_at (sp_permit signed) = expires_at"
    and "sp_signer_id signed = backend_id (pa_backend pa)" and "sp_algorithm signed = backend_algorithm (pa_backend pa)"
    and "\<exists>payload. signed_permit_payload (sp_permit signed) (sp_signer_id signed) (sp_algorithm signed) = Inr payload
      \<and> backend_sign (c_crypto (pa_cfg pa)) (pa_ed pa) (pa_backend pa) payload = Inr (sp_signature signed)"
  using assms
  by (auto simp: mint_def execution_permit_init_def signed_permit_init_def Let_def split: sum.splits)

lemma permit_of_append:
  "permit_insertable d row \<Longrightarrow> permit_of (d\<lparr>permits := permits d @ [row]\<rparr>) (pr_permit_id row) = Some row"
  by (auto simp: permit_of_def permit_insertable_def find_append list_all_iff find_None_not_in split: option.splits
      dest!: find_SomeD)

text \<open>A recorded permit is in the ledger, unconsumed and not voided.\<close>

lemma record_permit_effect:
  assumes "record_execution_permit pid i g epoch fence h expires now s = (Inr u, t)"
  shows "\<exists>row. permit_of (db t) pid = Some row \<and> pr_intent_id row = i_intent_id i \<and> pr_principal_id row = i_principal_id i
    \<and> pr_grant_id row = g_grant_id g \<and> pr_grant_version row = g_version g \<and> pr_grant_epoch row = epoch \<and> pr_fence row = fence
    \<and> pr_hash row = h \<and> pr_expires_at row = expires \<and> pr_consumed_at row = None \<and> pr_voided_at row = None"
    and "grants (db t) = grants (db s)" and "controls (db t) = controls (db s)" and "anchor t = anchor s"
proof -
  let ?row = "\<lparr>pr_permit_id = pid, pr_intent_id = i_intent_id i, pr_principal_id = i_principal_id i,
    pr_grant_id = g_grant_id g, pr_grant_version = g_version g, pr_grant_epoch = epoch,
    pr_fence = fence, pr_hash = h, pr_issued_at = wall s, pr_expires_at = expires,
    pr_consumed_at = None, pr_voided_at = None\<rparr>"
  have ins: "permit_insertable (db s) ?row" and
    t: "permits (db t) = permits (db s) @ [?row]" "grants (db t) = grants (db s)" "controls (db t) = controls (db s)" "anchor t = anchor s"
    using assms
    by (auto simp: record_execution_permit_def op_simps Let_def split: if_splits option.splits)
  have "permit_of (db t) pid = permit_of ((db s)\<lparr>permits := permits (db s) @ [?row]\<rparr>) pid"
    by (simp add: permit_of_def t)
  with permit_of_append [OF ins] show "\<exists>row. permit_of (db t) pid = Some row \<and> pr_intent_id row = i_intent_id i
      \<and> pr_principal_id row = i_principal_id i
    \<and> pr_grant_id row = g_grant_id g \<and> pr_grant_version row = g_version g \<and> pr_grant_epoch row = epoch \<and> pr_fence row = fence
    \<and> pr_hash row = h \<and> pr_expires_at row = expires \<and> pr_consumed_at row = None \<and> pr_voided_at row = None"
    by simp
  show "grants (db t) = grants (db s)" "controls (db t) = controls (db s)" "anchor t = anchor s" by (fact t)+
qed

text \<open>An issuance that returned, read backwards.\<close>

lemma issue_InrE:
  assumes "issue pa rq i ad g r aa ra now w = (Inr signed, t)"
  obtains u v epoch fence h s where
    "issue_reasons pa rq i ad g r aa ra now w = (Inr [], u)"
    and "permit_expiry pa i g aa ra now > now"
    and "mint pa rq i g aa ra now (permit_expiry pa i g aa ra now) epoch fence = Inr signed"
    and "canonical_hash (c_crypto (pa_cfg pa)) (pv_signed_permit signed) = Inr h"
    and "record_execution_permit (pm_permit_id (sp_permit signed)) i g epoch fence h
      (Some (permit_expiry pa i g aa ra now)) (Some now) (w_sys v) = (Inr (), s)"
    and "t = v\<lparr>w_sys := s\<rparr>"
  using assms
  by (auto simp: issue_def inr_simps call_eq_Inr Let_def split: if_splits)

lemma issue_amount_Nil:
  "amount_reasons_of i g amount = [] \<Longrightarrow> is_monetary (i_primitive i) \<Longrightarrow>
     \<exists>a m. amount = Some a \<and> max_order_usd (g_limits g) = Some m \<and> \<not> dle a dzero \<and> \<not> dlt m a"
  by (auto simp: amount_reasons_of_def split: option.splits)

lemma permit_expiry_le:
  "permit_expiry pa i g aa ra now \<le> i_expires_at i" "permit_expiry pa i g aa ra now \<le> at_expires_at aa"
  "permit_expiry pa i g aa ra now \<le> at_expires_at ra" "permit_expiry pa i g aa ra now \<le> now + secs (pa_ttl pa)"
  "g_valid_until g = Some v \<Longrightarrow> permit_expiry pa i g aa ra now \<le> v"
  by (auto simp: permit_expiry_def)

text \<open>With the verify-only Ed25519 store an empty list of reasons is an acceptance.\<close>

lemma no_reasons_accepted:
  assumes "trust = verify_ed25519_attestation L E st" and "\<exists>v. trust a k sub i now = Inr v \<and> prefixed p v = []"
  shows "trust a k sub i now = Inr (True, [])"
  using assms(2) ed.accept ed.reject unfolding assms(1) prefixed_def by (fastforce split: if_splits)

text \<open>
  C3. What an issued permit proves: the request is the canonical projection of the intent, the
  authority, capability and risk gates all allow at the decision time, both attestations are accepted for exactly this
  authority and risk state, the permit names this intent, grant, epoch and fence and the hash of
  this request, carries the parsed amount (positive and within the grant's order limit
  for a money-moving primitive), outlives neither the intent, the grant, the attestations nor the
  issuer's own limit, and is in the ledger, unused, under the hash of its signed form.
\<close>

theorem issued_permit_sound:
  assumes "issue pa rq i ad g r aa ra now w = (Inr signed, t)" and "pa_trust pa = verify_ed25519_attestation L E st"
  shows "canonical_hash (c_crypto (pa_cfg pa)) (pv_request rq) = canonical_hash (c_crypto (pa_cfg pa)) (pv_request (from_intent i))
    \<and> d_verdict (evaluate_authority ad) = V_ALLOW \<and> d_verdict (evaluate_capability i g now) = V_ALLOW
    \<and> d_verdict (evaluate_risk i g r now) = V_ALLOW
    \<and> verify_ed25519_attestation L E st aa K_AUTHORITY (pv_authority ad) i now = Inr (True, [])
    \<and> verify_ed25519_attestation L E st ra K_RISK (pv_risk r) i now = Inr (True, [])
    \<and> canonical_hash (c_crypto (pa_cfg pa)) (pv_request rq) = Inr (pm_request_hash (sp_permit signed))
    \<and> pm_intent_id (sp_permit signed) = i_intent_id i \<and> pm_grant_id (sp_permit signed) = g_grant_id g
    \<and> pm_max_amount_usd (sp_permit signed) = request_amount rq
    \<and> (is_monetary (i_primitive i) \<longrightarrow> (\<exists>a m. request_amount rq = Some a \<and> max_order_usd (g_limits g) = Some m
         \<and> \<not> dle a dzero \<and> \<not> dlt m a))
    \<and> now < pm_expires_at (sp_permit signed) \<and> pm_expires_at (sp_permit signed) \<le> i_expires_at i
    \<and> pm_expires_at (sp_permit signed) \<le> at_expires_at aa \<and> pm_expires_at (sp_permit signed) \<le> at_expires_at ra
    \<and> (\<forall>v. g_valid_until g = Some v \<longrightarrow> pm_expires_at (sp_permit signed) \<le> v)
    \<and> pm_expires_at (sp_permit signed) \<le> now + secs (pa_ttl pa)
    \<and> (\<exists>row. permit_of (db (w_sys t)) (pm_permit_id (sp_permit signed)) = Some row \<and> pr_intent_id row = i_intent_id i
         \<and> pr_consumed_at row = None \<and> pr_voided_at row = None
         \<and> canonical_hash (c_crypto (pa_cfg pa)) (pv_signed_permit signed) = Inr (pr_hash row)
         \<and> pr_expires_at row = Some (pm_expires_at (sp_permit signed)))"
proof -
  obtain u v epoch fence h s where iss: "issue_reasons pa rq i ad g r aa ra now w = (Inr [], u)"
    "permit_expiry pa i g aa ra now > now"
    "mint pa rq i g aa ra now (permit_expiry pa i g aa ra now) epoch fence = Inr signed"
    "canonical_hash (c_crypto (pa_cfg pa)) (pv_signed_permit signed) = Inr h"
    "record_execution_permit (pm_permit_id (sp_permit signed)) i g epoch fence h
      (Some (permit_expiry pa i g aa ra now)) (Some now) (w_sys v) = (Inr (), s)" "t = v\<lparr>w_sys := s\<rparr>"
    by (rule issue_InrE [OF assms(1)])
  note no = issue_reasons_NilE [OF iss(1)] and m = minted [OF iss(3)]
  note trust = no_reasons_accepted [OF assms(2)]
  have expiry: "now < pm_expires_at (sp_permit signed)" "pm_expires_at (sp_permit signed) \<le> i_expires_at i"
    "pm_expires_at (sp_permit signed) \<le> at_expires_at aa" "pm_expires_at (sp_permit signed) \<le> at_expires_at ra"
    "\<forall>v. g_valid_until g = Some v \<longrightarrow> pm_expires_at (sp_permit signed) \<le> v"
    "pm_expires_at (sp_permit signed) \<le> now + secs (pa_ttl pa)"
    unfolding m(11) using iss(2) permit_expiry_le by auto
  have row: "\<exists>row. permit_of (db (w_sys t)) (pm_permit_id (sp_permit signed)) = Some row \<and> pr_intent_id row = i_intent_id i
         \<and> pr_consumed_at row = None \<and> pr_voided_at row = None
         \<and> canonical_hash (c_crypto (pa_cfg pa)) (pv_signed_permit signed) = Inr (pr_hash row)
         \<and> pr_expires_at row = Some (pm_expires_at (sp_permit signed))"
    using record_permit_effect(1) [OF iss(5)] iss(4,6) m(11) by auto
  show ?thesis
    using no(1,3-5) trust [OF no(6)] trust [OF no(7)] assms(2) m(1,4,5,9) issue_amount_Nil [OF no(8)] expiry row
    by (intro conjI) simp_all
qed

section \<open>What a consumption at the gateway proves\<close>

lemma verify_True:
  assumes "gateway_verify pg signed rq now venue w = (Inr (True, rs), t)"
  obtains b payload rh where
    "(if venue \<noteq> None then venue else pg_venue pg) \<noteq> None \<longrightarrow> (if venue \<noteq> None then venue else pg_venue pg) = Some (rq_venue rq)"
    and "map_of (pg_verifiers pg) (sp_signer_id signed) = Some b"
    and "signed_permit_payload (sp_permit signed) (sp_signer_id signed) (sp_algorithm signed) = Inr payload"
    and "backend_verify (c_crypto (pg_cfg pg)) (pg_ed pg) b payload (sp_signature signed) = Inr True"
    and "canonical_hash (c_crypto (pg_cfg pg)) (pv_request rq) = Inr rh"
    and "static_reasons pg b signed rq True rh now = []"
    and "envelope_reasons (sp_permit signed) (request_amount rq) = []"
proof -
  have "verify_checked pg signed rq now venue w = (Inr (True, rs), t)"
    using assms by (auto simp: gateway_verify_def catch_eq_Inr ret_def)
  then show thesis using that
    by (auto simp: verify_checked_def inr_simps Let_def static_reasons_def split: if_splits option.splits)
qed

lemma static_reasons_Nil:
  assumes "static_reasons pg b signed rq sig_ok rh now = []"
  shows "pm_request_hash (sp_permit signed) = rh" "pm_principal_id (sp_permit signed) = rq_principal_id rq"
    "pm_intent_id (sp_permit signed) = rq_intent_id rq" "now \<le> pm_expires_at (sp_permit signed)"
    "pm_expires_at (sp_permit signed) - pm_issued_at (sp_permit signed) \<le> secs (pg_lifetime pg)"
    "\<forall>k. map_of (pg_validity pg) (sp_signer_id signed) = Some k \<longrightarrow> \<not> kv_revoked k"
  using assms by (auto simp: static_reasons_def Let_def rejection_def split: option.splits if_splits)

lemma envelope_reasons_Nil:
  "envelope_reasons p amount = [] \<Longrightarrow> pm_max_amount_usd p = Some m \<Longrightarrow> \<exists>a. amount = Some a \<and> \<not> dle a dzero \<and> \<not> dlt m a"
  by (auto simp: envelope_reasons_def split: option.splits if_splits)

text \<open>The parts of a consumption that returned \<open>True\<close>.\<close>

lemma gateway_consume_TrueE:
  assumes "gateway_consume pg signed rq now venue w = (Inr (True, rs), t)"
  obtains rs0 u row where "gateway_verify pg signed rq now venue w = (Inr (True, rs0), u)"
    and "permit_of (db (w_sys t)) (pm_permit_id (sp_permit signed)) = Some row" and "pr_consumed_at row \<noteq> None"
    and "canonical_hash (c_crypto (pg_cfg pg)) (pv_signed_permit signed) = Inr (pr_hash row)"
proof -
  obtain rs0 u h where v: "gateway_verify pg signed rq now venue w = (Inr (True, rs0), u)"
    and h: "canonical_hash (c_crypto (pg_cfg pg)) (pv_signed_permit signed) = Inr h"
    and c: "call (consume_execution_permit (pg_cfg pg) (pm_permit_id (sp_permit signed)) (pm_principal_id (sp_permit signed))
      (pm_grant_id (sp_permit signed)) (pm_grant_version (sp_permit signed)) (pm_grant_epoch (sp_permit signed))
      (pm_fence_token (sp_permit signed)) h) u = (Inr (True, rs), t)"
    using assms by (auto simp: gateway_consume_def inr_simps catch_eq_Inr Let_def split: if_splits)
  obtain x s where s: "consume_execution_permit (pg_cfg pg) (pm_permit_id (sp_permit signed)) (pm_principal_id (sp_permit signed))
      (pm_grant_id (sp_permit signed)) (pm_grant_version (sp_permit signed)) (pm_grant_epoch (sp_permit signed))
      (pm_fence_token (sp_permit signed)) h (w_sys x) = (Inr (True, rs), s)" "t = x\<lparr>w_sys := s\<rparr>"
    using c by (auto simp: call_eq_Inr)
  show thesis
  proof (rule consume_TrueE [OF s(1)])
    fix p gr
    assume "permit_of (db (w_sys x)) (pm_permit_id (sp_permit signed)) = Some p" "pr_consumed_at p = None" "pr_hash p = h"
      "db s = consumed_db (pm_permit_id (sp_permit signed)) (pm_grant_id (sp_permit signed)) (pm_grant_version (sp_permit signed))
        (wall (w_sys x)) (db (w_sys x))"
    then show thesis using that [OF v] permit_of_consumed_db h s(2) by simp
  qed
qed

text \<open>
  C4. What a consumption at the gateway proves: the request is addressed to the gateway's venue, the permit was
  signed over its full contents by a configured signer that is not revoked, it
  binds the hash and the identity of this very request, is not expired and not longer-lived than the
  gateway allows, the amount of the request is positive and within the signed amount, and
  the ledger has the permit consumed, by this consumption.
\<close>

theorem gateway_consume_sound:
  assumes "gateway_consume pg signed rq now venue w = (Inr (True, rs), t)" and "venue = Some v \<or> venue = None \<and> pg_venue pg = Some v"
  shows "rq_venue rq = v
    \<and> (\<exists>b payload. map_of (pg_verifiers pg) (sp_signer_id signed) = Some b
         \<and> signed_permit_payload (sp_permit signed) (sp_signer_id signed) (sp_algorithm signed) = Inr payload
         \<and> backend_verify (c_crypto (pg_cfg pg)) (pg_ed pg) b payload (sp_signature signed) = Inr True)
    \<and> (\<forall>k. map_of (pg_validity pg) (sp_signer_id signed) = Some k \<longrightarrow> \<not> kv_revoked k)
    \<and> canonical_hash (c_crypto (pg_cfg pg)) (pv_request rq) = Inr (pm_request_hash (sp_permit signed))
    \<and> pm_intent_id (sp_permit signed) = rq_intent_id rq \<and> pm_principal_id (sp_permit signed) = rq_principal_id rq
    \<and> now \<le> pm_expires_at (sp_permit signed)
    \<and> pm_expires_at (sp_permit signed) - pm_issued_at (sp_permit signed) \<le> secs (pg_lifetime pg)
    \<and> (\<forall>m. pm_max_amount_usd (sp_permit signed) = Some m \<longrightarrow>
         (\<exists>a. request_amount rq = Some a \<and> \<not> dle a dzero \<and> \<not> dlt m a))
    \<and> (\<exists>row. permit_of (db (w_sys t)) (pm_permit_id (sp_permit signed)) = Some row \<and> pr_consumed_at row \<noteq> None
         \<and> canonical_hash (c_crypto (pg_cfg pg)) (pv_signed_permit signed) = Inr (pr_hash row))"
proof -
  obtain rs0 u row where v: "gateway_verify pg signed rq now venue w = (Inr (True, rs0), u)"
    and row: "permit_of (db (w_sys t)) (pm_permit_id (sp_permit signed)) = Some row" "pr_consumed_at row \<noteq> None"
      "canonical_hash (c_crypto (pg_cfg pg)) (pv_signed_permit signed) = Inr (pr_hash row)"
    by (rule gateway_consume_TrueE [OF assms(1)])
  obtain b payload rh where g: "(if venue \<noteq> None then venue else pg_venue pg) \<noteq> None \<longrightarrow> (if venue \<noteq> None then venue else pg_venue pg) = Some (rq_venue rq)"
    "map_of (pg_verifiers pg) (sp_signer_id signed) = Some b"
    "signed_permit_payload (sp_permit signed) (sp_signer_id signed) (sp_algorithm signed) = Inr payload"
    "backend_verify (c_crypto (pg_cfg pg)) (pg_ed pg) b payload (sp_signature signed) = Inr True"
    "canonical_hash (c_crypto (pg_cfg pg)) (pv_request rq) = Inr rh" "static_reasons pg b signed rq True rh now = []"
    "envelope_reasons (sp_permit signed) (request_amount rq) = []"
    by (rule verify_True [OF v])
  note static = static_reasons_Nil [OF g(6)] and amount = envelope_reasons_Nil [OF g(7)]
  have "rq_venue rq = v" using g(1) assms(2) by auto
  with row static amount g(2-5) show ?thesis by blast
qed

end
