(* ===== verification/Runtime.thy ===== *)
theory Runtime
  imports Permits
begin

text \<open>
  \<open>faar/runtime.py\<close>: the worker that takes an intent from registration through the gates,
  the reservation and the permit to the adapter call and its settlement.

  The adapter and the settlement verifier are components outside the runtime's trust: both
  are operations on the world with any effect and any answer, given with the runtime. An
  exception of either is an answer too. \<open>rt_render\<close> gives the class name and the text of
  an exception, which enter the evidence; \<open>rt_deadline_text\<close> is the text of the deadline
  exception, present when a deadline is configured.

  \<open>_submit\<close> and \<open>reconcile\<close> call each other: a retry follows an authoritative absence. The
  bodies are definitions over the other one; \<open>reconcile\<close> ties the knot with fuel, and
  \<open>Runtime_Progress\<close> shows how much fuel is never used up.

  The grant guard (\<open>execution_guard\<close>) is a lock of one process and has no state here: every
  interleaving it forbids is still considered.
\<close>

section \<open>Adapter, verifier, runtime\<close>

datatype adapter_outcome =
    Receipt execution_receipt
  | NotAReceipt string
  | RaisedAmbiguous string
  | RaisedDeadline string
  | RaisedDeterministic string
  | RaisedOther string string bool

datatype settlement_answer = SettlementAnswer settlement_record | NotARecord string

type_synonym 'v adapter = "execution_request \<Rightarrow> signed_permit \<Rightarrow> ('v world, adapter_outcome) op"
type_synonym 'v settlement_source = "execution_request \<Rightarrow> ('v world, settlement_answer) op"

record 'v runtime =
  rt_cfg :: cfg
  rt_adapters :: "(string \<times> 'v adapter) list"
  rt_trust :: trust
  rt_authority :: permit_authority
  rt_verifiers :: "(string \<times> 'v settlement_source) list"
  rt_allow_test_time_override :: bool
  rt_deadline_text :: "string option"
  rt_max_orphaned :: int
  rt_render :: "exn \<Rightarrow> string \<times> string"

record runtime_result =
  rr_intent_id :: string
  rr_state :: intent_state
  rr_decisions :: "decision list"
  rr_effect_id :: "string option"
  rr_reason_codes :: "string list"
  rr_replayed :: bool
  rr_submission_count :: int

type_synonym reauth = "authority_decision \<times> risk_snapshot \<times> attestation \<times> attestation"

definition MAX_EFFECT_ID_CHARS :: nat where "MAX_EFFECT_ID_CHARS = 512"

definition DETERMINISTIC_FAILURE_BLOCK :: string where
  "DETERMINISTIC_FAILURE_BLOCK = ''EXECUTION_DETERMINISTIC_FAILURE''"

definition RESUBMIT_BLOCKING_REASONS :: "string list" where
  "RESUBMIT_BLOCKING_REASONS = [DETERMINISTIC_FAILURE_BLOCK, ''EXECUTION_DETERMINISTIC_FAILURE_UNVERIFIED'']"

definition SETTLEMENT_DERIVED_PREFIXES :: "string list" where
  "SETTLEMENT_DERIVED_PREFIXES = [''SETTLED_'', ''SETTLEMENT_'', ''EFFECT_ID_'', ''PAYMENT_'', ''UNHANDLED_SETTLEMENT'']"

definition valid_effect_id :: "string \<Rightarrow> bool" where
  "valid_effect_id e \<longleftrightarrow> e \<noteq> [] \<and> length e \<le> MAX_EFFECT_ID_CHARS"

definition grant_bound :: "intent \<Rightarrow> capability_grant \<Rightarrow> bool" where
  "grant_bound i g \<longleftrightarrow> g_grant_id g = i_grant_id i \<and> g_version g = i_grant_version i"

definition untrusted_repr :: "string option \<Rightarrow> pyval" where
  "untrusted_repr v = (case v of None \<Rightarrow> PNone | Some s \<Rightarrow> PStr (take MAX_EFFECT_ID_CHARS s))"

definition untrusted_message :: "string \<Rightarrow> pyval" where
  "untrusted_message m = PStr (take MAX_EFFECT_ID_CHARS m)"

definition amount_text :: "decimal option \<Rightarrow> pyval" where
  "amount_text a = (case a of None \<Rightarrow> PNone | Some d \<Rightarrow> PStr (format_f d))"

text \<open>\<open>str\<close> of an effective grant status.\<close>

fun control_str :: "control_status \<Rightarrow> string" where
  "control_str (CS st) = grant_status_str st"
| "control_str CS_HALTED = ''HALTED''"
| "control_str CS_REGRESSED = ''REGRESSED''"
| "control_str CS_ANCHOR_REQUIRED = ''ANCHOR_REQUIRED''"
| "control_str CS_ANCHOR_UNAVAILABLE = ''ANCHOR_UNAVAILABLE''"

section \<open>Helpers of the worker\<close>

definition attempt :: "('s, 'a) op \<Rightarrow> ('s, exn + 'a) op" where
  "attempt m = catch (bindE m (\<lambda>a. ret (Inr a))) (\<lambda>e. ret (Inl e))"

text \<open>\<open>try: m finally: f\<close>.\<close>

definition finally_do :: "('s, 'a) op \<Rightarrow> ('s, unit) op \<Rightarrow> ('s, 'a) op" where
  "finally_do m f = bindE (attempt m) (\<lambda>r. seqE f (lift_sum r))"

definition set_active :: "string list \<Rightarrow> ('v world, unit) op" where
  "set_active xs = modify (\<lambda>w. w\<lparr>w_active := xs\<rparr>)"

definition discard_active :: "string \<Rightarrow> ('v world, unit) op" where
  "discard_active iid = bindE (gets w_active) (\<lambda>a. set_active (removeAll iid a))"

definition intent_guard :: "cfg \<Rightarrow> string \<Rightarrow> ('v world, 'a) op \<Rightarrow> ('v world, 'a) op" where
  "intent_guard c iid m =
     bindE (gets w_active) (\<lambda>active.
     if iid \<in> set active then m
     else seqE (call (acquire_lease c iid))
       (finally_do (seqE (set_active (iid # active)) m)
          (seqE (discard_active iid) (call (release_lease c iid)))))"

definition decision_time :: "'v runtime \<Rightarrow> time option \<Rightarrow> ('v world, time) op" where
  "decision_time rt override =
     (case override of
        Some t \<Rightarrow> if rt_allow_test_time_override rt then ret t else read_clock
      | None \<Rightarrow> read_clock)"

definition get_grant_status :: "'v runtime \<Rightarrow> capability_grant \<Rightarrow> ('v world, control_status) op" where
  "get_grant_status rt g =
     bindE (call (get_grant_control (rt_cfg rt) (g_principal_id g) (g_grant_id g) (g_version g))) (\<lambda>ctl. ret (fst ctl))"

definition note_event :: "'v runtime \<Rightarrow> string \<Rightarrow> string \<Rightarrow> payload \<Rightarrow> ('v world, unit) op" where
  "note_event rt iid etype payload = seqE (call (add_evidence (rt_cfg rt) iid etype payload)) (ret ())"

text \<open>A transition with reason codes; what else it does is in the arguments.\<close>

definition because :: "string list \<Rightarrow> transition_args" where
  "because reasons = no_args\<lparr>tr_reason_codes := reasons\<rparr>"

definition move :: "string \<Rightarrow> intent_state \<Rightarrow> intent_state \<Rightarrow> transition_args \<Rightarrow> ('v world, bool) op" where
  "move iid source target a = call (transition iid [source] target a)"

definition stored_result :: "intent_row \<Rightarrow> decision list \<Rightarrow> bool \<Rightarrow> string list option \<Rightarrow> runtime_result" where
  "stored_result r ds replayed reasons =
     \<lparr>rr_intent_id = it_intent_id r, rr_state = it_state r, rr_decisions = ds, rr_effect_id = it_effect_id r,
      rr_reason_codes = (case reasons of None \<Rightarrow> it_reason_codes r | Some rs \<Rightarrow> rs), rr_replayed = replayed,
      rr_submission_count = it_submission_count r\<rparr>"

definition current_result ::
    "string \<Rightarrow> decision list \<Rightarrow> string option \<Rightarrow> string list \<Rightarrow> bool \<Rightarrow> ('v world, runtime_result) op" where
  "current_result iid ds eff reasons replayed =
     bindE (call (get_intent iid)) (\<lambda>r. ret
       \<lparr>rr_intent_id = iid, rr_state = it_state r, rr_decisions = ds,
        rr_effect_id = (if eff \<noteq> None then eff else it_effect_id r),
        rr_reason_codes = (if reasons \<noteq> [] then reasons else it_reason_codes r), rr_replayed = replayed,
        rr_submission_count = it_submission_count r\<rparr>)"

text \<open>The results for a busy intent, a refused append and an unavailable datastore.\<close>

definition coded_result :: "string \<Rightarrow> decision list \<Rightarrow> string \<Rightarrow> ('v world, runtime_result) op" where
  "coded_result iid ds code = bindE (call (get_intent iid)) (\<lambda>r. ret (stored_result r ds True (Some [code])))"

definition integrity_failure :: "string \<Rightarrow> ('v world, runtime_result) op" where
  "integrity_failure iid = coded_result iid [] ''EVIDENCE_INTEGRITY_FAILURE''"

definition store_unavailable :: "string \<Rightarrow> ('v world, runtime_result) op" where
  "store_unavailable iid = coded_result iid [] ''STORE_UNAVAILABLE''"

definition guarded_result :: "string \<Rightarrow> decision list \<Rightarrow> exn \<Rightarrow> ('v world, runtime_result) op" where
  "guarded_result iid ds e =
     (if e = IntentBusy then coded_result iid ds ''INTENT_BUSY''
      else if e = EvidenceIntegrityError then integrity_failure iid
      else if e = StoreUnavailable then store_unavailable iid
      else raise_exn e)"

definition release_orphaned_hold :: "intent_row \<Rightarrow> ('v world, unit) op" where
  "release_orphaned_hold r =
     (if it_state r = S_FINALIZED then call (commit_usage (it_intent_id r))
      else if \<not> is_terminal (it_state r) \<or> it_submission_count r \<noteq> 0 then ret ()
      else if list_ex (\<lambda>reason. list_ex (\<lambda>p. starts_with p reason) SETTLEMENT_DERIVED_PREFIXES) (it_reason_codes r) then ret ()
      else call (release_usage (it_intent_id r)))"

section \<open>Fresh evaluation\<close>

definition evaluate_fresh ::
    "'v runtime \<Rightarrow> intent \<Rightarrow> capability_grant \<Rightarrow> reauth \<Rightarrow> time \<Rightarrow> exn + decision list \<times> string list" where
  "evaluate_fresh rt i g re now = (case re of (ad, r, aa, ra) \<Rightarrow>
     (case rt_trust rt aa K_AUTHORITY (pv_authority ad) i now of Inl e \<Rightarrow> Inl e | Inr va \<Rightarrow>
     (case rt_trust rt ra K_RISK (pv_risk r) i now of Inl e \<Rightarrow> Inl e | Inr vr \<Rightarrow>
       Inr ([evaluate_authority ad, evaluate_capability i g now, evaluate_risk i g r now],
            prefixed ''AUTHORITY_'' va @ prefixed ''RISK_'' vr))))"

fun verdict_rank :: "verdict \<Rightarrow> nat" where
  "verdict_rank V_ALLOW = 0"
| "verdict_rank V_DEFER = 1"
| "verdict_rank V_DENY = 2"
| "verdict_rank V_STOP = 3"

fun dominant :: "decision list \<Rightarrow> decision" where
  "dominant [d] = d"
| "dominant (d # e # ds) =
     (if verdict_rank (d_verdict d) < verdict_rank (d_verdict e) then dominant (e # ds) else dominant (d # ds))"
| "dominant [] = \<lparr>d_verdict = V_STOP, d_reason_codes = [], d_layer = []\<rparr>"

definition all_reasons :: "decision list \<Rightarrow> string list" where
  "all_reasons ds = concat (map d_reason_codes ds)"

section \<open>Stopping\<close>

definition stop_if_possible :: "'v runtime \<Rightarrow> intent_row \<Rightarrow> string list \<Rightarrow> ('v world, runtime_result) op" where
  "stop_if_possible rt r reasons =
     (if it_state r = S_PROPOSED then
        seqE (move (it_intent_id r) S_PROPOSED S_STOPPED ((because reasons)\<lparr>tr_release_usage := True\<rparr>))
        (seqE (note_event rt (it_intent_id r) ''grant_rejected'' [(''reason_codes'', p_strs reasons)])
        (current_result (it_intent_id r) [] None reasons False))
      else ret (stored_result r [] True (Some reasons)))"

definition stoppable :: "intent_state \<Rightarrow> bool" where
  "stoppable st \<longleftrightarrow>
     st \<in> set [S_PROPOSED, S_AUTHORIZED, S_RESERVED, S_SUBMITTED, S_UNKNOWN, S_RECONCILING, S_CONFIRMED]"

definition void_permits :: "'v runtime \<Rightarrow> string \<Rightarrow> ('v world, unit) op" where
  "void_permits rt iid =
     bindE (call (void_unconsumed_permits iid)) (\<lambda>n.
       if n > 0 then note_event rt iid ''permits_voided'' [(''count'', PInt n)] else ret ())"

definition stop_execution_state ::
    "'v runtime \<Rightarrow> string \<Rightarrow> string list \<Rightarrow> decision list \<Rightarrow> string option \<Rightarrow> bool \<Rightarrow> bool \<Rightarrow> payload \<Rightarrow> ('v world, runtime_result) op" where
  "stop_execution_state rt iid reasons ds eff release replayed detail =
     bindE (call (get_intent iid)) (\<lambda>r.
     seqE (void_permits rt iid)
     (bindE (if \<not> is_terminal (it_state r) \<and> stoppable (it_state r)
             then move iid (it_state r) S_STOPPED ((because reasons)\<lparr>tr_effect_id := eff, tr_release_usage := release\<rparr>)
             else ret False) (\<lambda>transitioned.
      seqE (if release \<and> \<not> transitioned then call (release_usage iid) else ret ())
      (seqE (note_event rt iid ''execution_stopped''
               ((''reason_codes'', p_strs reasons) # (if detail \<noteq> [] then [(''detail'', dict_of detail)] else [])))
      (current_result iid ds eff reasons replayed)))))"

definition record_authorized ::
    "'v runtime \<Rightarrow> intent \<Rightarrow> string \<Rightarrow> capability_grant \<Rightarrow> attestation \<Rightarrow> attestation \<Rightarrow> bool \<Rightarrow> ('v world, unit) op" where
  "record_authorized rt i h g aa ra recovered =
     (let L = c_crypto (rt_cfg rt) in
      bindE (lift_sum (canonical_hash L (pv_attestation aa))) (\<lambda>ah.
      bindE (lift_sum (canonical_hash L (pv_attestation ra))) (\<lambda>rh.
      note_event rt (i_intent_id i) ''authorized''
        [(''intent_hash'', PStr h), (''grant_id'', PStr (g_grant_id g)), (''grant_version'', PInt (g_version g)),
         (''venue'', PStr (i_venue i)), (''authority_attestation_hash'', PStr ah),
         (''risk_attestation_hash'', PStr rh), (''recovered'', PBool recovered)])))"

section \<open>Submission\<close>

text \<open>
  \<open>_execute_adapter\<close>: a call that outlives the deadline is abandoned and counted; what it
  still does at the venue and in the store belongs to the environment.
\<close>

definition execute_adapter ::
    "'v runtime \<Rightarrow> 'v adapter \<Rightarrow> execution_request \<Rightarrow> signed_permit \<Rightarrow> ('v world, adapter_outcome) op" where
  "execute_adapter rt adapter rq permit =
     seqE (modify (\<lambda>w. w\<lparr>w_calls := w_calls w @ [\<lparr>ac_request = rq, ac_permit = permit\<rparr>]\<rparr>))
     (case rt_deadline_text rt of
        None \<Rightarrow> adapter rq permit
      | Some msg \<Rightarrow>
          bindE (gets (\<lambda>w. w_late w \<noteq> [] \<and> hd (w_late w))) (\<lambda>late.
          seqE (modify (\<lambda>w. w\<lparr>w_late := tl (w_late w)\<rparr>))
          (if late then seqE (modify (\<lambda>w. w\<lparr>w_orphans := w_orphans w + 1\<rparr>)) (ret (RaisedDeadline msg))
           else adapter rq permit)))"

text \<open>The receipt is recorded as telemetry only; one that cannot be recorded leaves a marker.\<close>

definition record_receipt :: "'v runtime \<Rightarrow> string \<Rightarrow> execution_receipt \<Rightarrow> ('v world, unit) op" where
  "record_receipt rt iid rc =
     catch (note_event rt iid ''adapter_receipt_untrusted''
              [(''reported_status'', PStr (settlement_str (rc_status rc))),
               (''reported_effect_id'', untrusted_repr (Some (rc_effect_id rc))),
               (''reported_effect_id_well_formed'', PBool (valid_effect_id (rc_effect_id rc))),
               (''reported_amount_usd'', amount_text (rc_amount_usd rc)), (''evidence'', dict_of (rc_evidence rc))])
       (\<lambda>e. if e = EvidenceIntegrityError then raise_exn e
            else note_event rt iid ''adapter_receipt_untrusted''
                   [(''uninterpretable'', PBool True), (''type'', PStr (fst (rt_render rt e)))])"

definition to_unknown :: "string \<Rightarrow> string \<Rightarrow> time \<Rightarrow> ('v world, unit) op" where
  "to_unknown iid reason until =
     seqE (move iid S_SUBMITTED S_UNKNOWN ((because [reason])\<lparr>tr_ambiguity_until := Some until\<rparr>)) (ret ())"

definition record_ambiguous :: "'v runtime \<Rightarrow> string \<Rightarrow> int \<Rightarrow> time \<Rightarrow> string \<Rightarrow> string \<Rightarrow> ('v world, unit) op" where
  "record_ambiguous rt iid n until reason msg =
     seqE (to_unknown iid reason until)
     (note_event rt iid ''execution_ambiguous''
        [(''message'', untrusted_message msg), (''attempt'', PInt n), (''reason'', PStr reason),
         (''ambiguity_until'', PStr (isoformat until))])"

text \<open>What the runtime makes of the adapter's answer; \<open>True\<close> for a deterministic rejection.\<close>

definition after_adapter :: "'v runtime \<Rightarrow> string \<Rightarrow> int \<Rightarrow> time \<Rightarrow> adapter_outcome \<Rightarrow> ('v world, bool) op" where
  "after_adapter rt iid n until outcome = (case outcome of
     Receipt rc \<Rightarrow>
       seqE (to_unknown iid ''AWAITING_INDEPENDENT_SETTLEMENT'' until) (seqE (record_receipt rt iid rc) (ret False))
   | NotAReceipt ty \<Rightarrow>
       seqE (record_ambiguous rt iid n until ''EXECUTION_AMBIGUOUS'' (''adapter returned '' @ ty @ '', not an ExecutionReceipt''))
         (ret False)
   | RaisedAmbiguous msg \<Rightarrow> seqE (record_ambiguous rt iid n until ''EXECUTION_AMBIGUOUS'' msg) (ret False)
   | RaisedDeadline msg \<Rightarrow> seqE (record_ambiguous rt iid n until ''EXECUTION_DEADLINE_EXCEEDED'' msg) (ret False)
   | RaisedDeterministic msg \<Rightarrow>
       seqE (to_unknown iid ''EXECUTION_DETERMINISTIC_FAILURE_UNVERIFIED'' until)
       (seqE (note_event rt iid ''adapter_rejection_untrusted''
                [(''message'', untrusted_message msg), (''attempt'', PInt n), (''ambiguity_until'', PStr (isoformat until))])
         (ret True))
   | RaisedOther ty msg interrupt \<Rightarrow>
       seqE (to_unknown iid ''ADAPTER_EXECUTION_EXCEPTION'' until)
       (seqE (note_event rt iid ''adapter_execution_exception''
                [(''type'', PStr ty), (''message'', untrusted_message msg), (''attempt'', PInt n),
                 (''ambiguity_until'', PStr (isoformat until))])
         (if interrupt then raise_exn OtherError else ret False)))"

text \<open>How the part of \<open>_submit\<close> inside the grant guard ends: with a result, or with a reconciliation to do.\<close>

datatype submission = Finished runtime_result | Submitted bool "decision list"

text \<open>With a signed permit: record the attempt, call the adapter, record what it said.\<close>

definition transport ::
    "'v runtime \<Rightarrow> 'v adapter \<Rightarrow> intent \<Rightarrow> decision list \<Rightarrow> int \<Rightarrow> signed_permit \<Rightarrow> ('v world, submission) op" where
  "transport rt adapter i ds n signed =
     (let p = sp_permit signed; iid = i_intent_id i in
      bindE (lift_sum (canonical_hash (c_crypto (rt_cfg rt)) (pv_signed_permit signed))) (\<lambda>h.
      seqE (note_event rt iid ''submission_started''
              [(''venue'', PStr (i_venue i)), (''attempt'', PInt n), (''permit_id'', PStr (pm_permit_id p)),
               (''permit_hash'', PStr h), (''grant_epoch'', PInt (pm_grant_epoch p)), (''fence_token'', PInt (pm_fence_token p))])
      (bindE (attempt (execute_adapter rt adapter (from_intent i) signed)) (\<lambda>answer.
       bindE (after_adapter rt iid n (pm_expires_at p)
                (case answer of Inr out \<Rightarrow> out | Inl e \<Rightarrow> RaisedOther (fst (rt_render rt e)) (snd (rt_render rt e)) False))
         (\<lambda>deterministic. ret (Submitted deterministic ds))))))"

text \<open>An attempt that has started: issue the permit, or end without any authority transported.\<close>

definition permit_refused :: "'v runtime \<Rightarrow> intent \<Rightarrow> decision list \<Rightarrow> int \<Rightarrow> exn \<Rightarrow> ('v world, submission) op" where
  "permit_refused rt i ds n e =
     (let iid = i_intent_id i in
      case e of
        PermitIssuanceError why \<Rightarrow>
          let reasons = ''EXECUTION_PERMIT_REJECTED'' # why in
          if ''PERMIT_PREVIOUS_ATTEMPT_LIVE'' \<in> set why then
            seqE (move iid S_SUBMITTED S_UNKNOWN (because reasons))
            (seqE (note_event rt iid ''execution_permit_rejected''
                     [(''reason_codes'', p_strs why), (''attempt'', PInt n), (''budget_released'', PBool False)])
            (ret (Submitted False ds)))
          else
            seqE (move iid S_SUBMITTED S_FAILED_SAFE ((because reasons)\<lparr>tr_release_usage := True\<rparr>))
            (seqE (note_event rt iid ''execution_permit_rejected'' [(''reason_codes'', p_strs why), (''attempt'', PInt n)])
            (bindE (current_result iid ds None reasons False) (\<lambda>res. ret (Finished res))))
      | _ \<Rightarrow>
          seqE (move iid S_SUBMITTED S_FAILED_SAFE ((because [''EXECUTION_PERMIT_EXCEPTION''])\<lparr>tr_release_usage := True\<rparr>))
          (seqE (note_event rt iid ''execution_permit_exception''
                   [(''type'', PStr (fst (rt_render rt e))), (''message'', PStr (snd (rt_render rt e))), (''attempt'', PInt n)])
          (bindE (current_result iid ds None [''EXECUTION_PERMIT_EXCEPTION''] False) (\<lambda>res. ret (Finished res)))))"

definition attempt_submission ::
    "'v runtime \<Rightarrow> 'v adapter \<Rightarrow> intent \<Rightarrow> capability_grant \<Rightarrow> reauth \<Rightarrow> decision list \<Rightarrow> time \<Rightarrow> int \<Rightarrow> ('v world, submission) op" where
  "attempt_submission rt adapter i g re ds submit_now n = (case re of (ad, r, aa, ra) \<Rightarrow>
     bindE (attempt (issue (rt_authority rt) (from_intent i) i ad g r aa ra submit_now)) (\<lambda>issued.
       case issued of
         Inl e \<Rightarrow> permit_refused rt i ds n e
       | Inr signed \<Rightarrow> transport rt adapter i ds n signed))"

definition stopped ::
    "'v runtime \<Rightarrow> intent \<Rightarrow> string list \<Rightarrow> decision list \<Rightarrow> ('v world, submission) op" where
  "stopped rt i reasons ds =
     bindE (stop_execution_state rt (i_intent_id i) reasons ds None True False []) (\<lambda>res. ret (Finished res))"

text \<open>The block of \<open>_submit\<close> inside the grant guard.\<close>

definition submit_guarded ::
    "'v runtime \<Rightarrow> 'v adapter \<Rightarrow> intent \<Rightarrow> capability_grant \<Rightarrow> time option \<Rightarrow> reauth \<Rightarrow> ('v world, submission) op" where
  "submit_guarded rt adapter i g now re =
     bindE (case now of None \<Rightarrow> read_clock | Some t \<Rightarrow> ret t) (\<lambda>submit_now.
     bindE (lift_sum (evaluate_fresh rt i g re submit_now)) (\<lambda>(ds, trust_reasons).
     if trust_reasons \<noteq> [] \<or> d_verdict (dominant ds) \<noteq> V_ALLOW
     then stopped rt i (''SUBMIT_REAUTHORIZATION_FAILED'' # trust_reasons @ all_reasons ds) ds
     else bindE (get_grant_status rt g) (\<lambda>status.
     if status \<noteq> CS GS_ACTIVE then stopped rt i [''GRANT_RUNTIME_'' @ control_str status] ds
     else if submit_now > i_expires_at i then stopped rt i [''INTENT_EXPIRED_BEFORE_SUBMIT''] ds
     else if (case g_valid_until g of None \<Rightarrow> False | Some v \<Rightarrow> submit_now > v)
       then stopped rt i [''GRANT_EXPIRED_BEFORE_SUBMIT''] ds
     else bindE (call (begin_submission (i_intent_id i) [S_RESERVED, S_RECONCILING]
                   (max_submission_attempts (g_limits g)) submit_now)) (\<lambda>(started, attempt_limit, velocity_limit, n).
     if attempt_limit then stopped rt i [''MAX_SUBMISSION_ATTEMPTS_REACHED''] ds
     else if velocity_limit then stopped rt i [''ATOMIC_ACTION_VELOCITY_EXCEEDED''] ds
     else if \<not> started then ret (Submitted False ds)
     else attempt_submission rt adapter i g re ds submit_now n))))"

type_synonym 'v reconciler =
  "intent \<Rightarrow> capability_grant \<Rightarrow> reauth option \<Rightarrow> time option \<Rightarrow> decision list \<Rightarrow> bool \<Rightarrow> string option \<Rightarrow> ('v world, runtime_result) op"

type_synonym 'v submitter =
  "intent \<Rightarrow> capability_grant \<Rightarrow> decision list \<Rightarrow> time option \<Rightarrow> reauth \<Rightarrow> ('v world, runtime_result) op"

text \<open>\<open>_submit\<close> over the reconciliation it ends in.\<close>

definition submit :: "'v runtime \<Rightarrow> 'v reconciler \<Rightarrow> 'v submitter" where
  "submit rt rec i g ds now re =
     (case map_of (rt_adapters rt) (i_venue i) of
        None \<Rightarrow> stop_execution_state rt (i_intent_id i) [''ADAPTER_NOT_CONFIGURED''] ds None True False []
      | Some adapter \<Rightarrow>
          bindE (gets w_orphans) (\<lambda>orphans.
          if orphans \<ge> rt_max_orphaned rt
          then stop_execution_state rt (i_intent_id i) [''ADAPTER_ORPHAN_LIMIT_REACHED''] ds None True False []
          else bindE (submit_guarded rt adapter i g now re) (\<lambda>sub. case sub of
            Finished res \<Rightarrow> ret res
          | Submitted deterministic ds' \<Rightarrow>
              if deterministic then rec i g (Some re) now ds' False (Some DETERMINISTIC_FAILURE_BLOCK)
              else rec i g (Some re) now ds' True None)))"

end
