(* ===== verification/Reconcile.thy ===== *)
theory Reconcile
  imports Runtime
begin

text \<open>
  \<open>faar/runtime.py\<close>, second half: \<open>reconcile\<close>, \<open>_process_unlocked\<close> and \<open>process\<close>.

  \<open>reconcile_unlocked\<close> is \<open>_reconcile_unlocked\<close> over the submission it may end in. It is
  cut where the code has its own steps: \<open>may_reconcile\<close> (the checks and the move to
  RECONCILING), \<open>observe\<close> (the verifier call and its record), \<open>settlement_stop\<close> (the
  integrity checks on the record, a pure function in the order of the code) and one
  definition per settlement status. The optional authority, risk and attestation arguments
  of the code travel together (\<open>reauth option\<close>): the code asks only whether one is missing.
\<close>

section \<open>Integrity of a settlement record\<close>

definition with_block :: "string \<Rightarrow> string option \<Rightarrow> string list" where
  "with_block reason block = (case block of
     None \<Rightarrow> [reason]
   | Some b \<Rightarrow> if b \<noteq> [] \<and> b \<noteq> reason then [reason, b] else [reason])"

definition ambiguity_window_closes_at :: "intent_row \<Rightarrow> capability_grant \<Rightarrow> time option" where
  "ambiguity_window_closes_at r g =
     map_option (\<lambda>t. t + secs (max_clock_skew_seconds (g_limits g))) (it_ambiguity_until r)"

definition effect_amount_integrity_reason :: "intent \<Rightarrow> settlement_status \<Rightarrow> decimal option \<Rightarrow> string option" where
  "effect_amount_integrity_reason i st actual =
     (if st \<notin> set [ST_CONFIRMED, ST_FINALIZED, ST_PARTIALLY_FILLED] \<and> st \<noteq> ST_CANCELLED then None
      else if \<not> is_monetary (i_primitive i) then None
      else case parse_bounded_decimal (amount_raw (i_payload i)) of
        None \<Rightarrow> Some ''AUTHORIZED_EFFECT_AMOUNT_INVALID''
      | Some intended \<Rightarrow>
          if dle intended dzero then Some ''AUTHORIZED_EFFECT_AMOUNT_INVALID''
          else if st = ST_CANCELLED then
            (case actual of
               None \<Rightarrow> None
             | Some a \<Rightarrow>
                 if \<not> is_finite a \<or> dlt a dzero then Some ''SETTLED_AMOUNT_INVALID''
                 else if dlt intended a then Some ''SETTLED_AMOUNT_EXCEEDS_AUTHORIZED''
                 else if i_primitive i = PAY \<and> \<not> deq a dzero \<and> \<not> deq a intended then Some ''PAYMENT_PARTIAL_NOT_ALLOWED''
                 else None)
          else (case actual of
            None \<Rightarrow> Some ''SETTLED_AMOUNT_REQUIRED''
          | Some a \<Rightarrow>
              if \<not> is_finite a \<or> dlt a dzero then Some ''SETTLED_AMOUNT_INVALID''
              else if st = ST_PARTIALLY_FILLED then
                (if i_primitive i = PAY then Some ''PAYMENT_PARTIAL_NOT_ALLOWED''
                 else if dlt intended a then Some ''SETTLED_AMOUNT_EXCEEDS_AUTHORIZED'' else None)
              else if deq a dzero then Some ''SETTLED_AMOUNT_INVALID''
              else if i_primitive i = PAY then
                (if \<not> deq a intended then Some ''PAYMENT_AMOUNT_MISMATCH'' else None)
              else if dlt intended a then Some ''SETTLED_AMOUNT_EXCEEDS_AUTHORIZED'' else None))"

definition recorded_fill :: "intent_row \<Rightarrow> decimal option" where
  "recorded_fill r = (case it_filled r of
     None \<Rightarrow> None | Some d \<Rightarrow> if is_finite d \<and> \<not> dlt d dzero then Some d else None)"

definition effect_integrity_reason :: "string option \<Rightarrow> settlement_status \<Rightarrow> string option \<Rightarrow> string option" where
  "effect_integrity_reason previous st eff =
     (if st \<in> set [ST_CONFIRMED, ST_FINALIZED, ST_PARTIALLY_FILLED, ST_CANCELLED] \<and> (eff = None \<or> eff = Some [])
      then Some ''SETTLED_EFFECT_ID_REQUIRED''
      else if previous \<noteq> None \<and> st = ST_NONE then Some ''SETTLEMENT_LOST_PREVIOUS_EFFECT''
      else if previous \<noteq> None \<and> eff \<noteq> None \<and> eff \<noteq> previous then Some ''SETTLEMENT_EFFECT_ID_MISMATCH''
      else None)"

definition effect_id_well_formed :: "settlement_record \<Rightarrow> bool" where
  "effect_id_well_formed s \<longleftrightarrow> (case st_effect_id s of None \<Rightarrow> True | Some e \<Rightarrow> valid_effect_id e)"

definition carries_effect :: "settlement_status \<Rightarrow> bool" where
  "carries_effect st \<longleftrightarrow> st \<in> set [ST_CONFIRMED, ST_FINALIZED, ST_PARTIALLY_FILLED, ST_CANCELLED]"

definition fill_regressed :: "settlement_record \<Rightarrow> decimal option \<Rightarrow> bool" where
  "fill_regressed s recorded = (case (recorded, st_amount_usd s) of
     (Some f, Some a) \<Rightarrow>
       st_authoritative s \<and> carries_effect (st_status s) \<and> dlt a f \<and> \<not> (st_status s = ST_CANCELLED \<and> deq a dzero)
   | _ \<Rightarrow> False)"

text \<open>The stop an authoritative record leads to before its status is looked at, with its detail.\<close>

definition settlement_stop ::
    "intent \<Rightarrow> intent_row \<Rightarrow> string \<Rightarrow> settlement_record \<Rightarrow> (string \<times> payload) option" where
  "settlement_stop i r request_hash s =
     (let previous = it_effect_id r; fill = recorded_fill r in
      if st_authoritative s \<and> st_verified_request_hash s \<noteq> Some request_hash
      then Some (''SETTLEMENT_REQUEST_BINDING_MISMATCH'', [])
      else if st_authoritative s \<and> \<not> effect_id_well_formed s then Some (''SETTLED_EFFECT_ID_INVALID'', [])
      else case (if st_authoritative s then effect_integrity_reason previous (st_status s) (st_effect_id s) else None) of
        Some reason \<Rightarrow> Some (reason, [])
      | None \<Rightarrow>
          (case effect_amount_integrity_reason i (st_status s) (st_amount_usd s) of
             Some reason \<Rightarrow> Some (reason, [])
           | None \<Rightarrow>
               if fill_regressed s fill
               then Some (''SETTLEMENT_FILL_REGRESSED'',
                      [(''recorded_filled_amount_usd'', amount_text fill), (''reported_amount_usd'', amount_text (st_amount_usd s))])
               else None))"

section \<open>What each settlement status leads to\<close>

text \<open>The stop every settlement-derived refusal ends in: budget held.\<close>

definition settlement_refused ::
    "'v runtime \<Rightarrow> string \<Rightarrow> string list \<Rightarrow> decision list \<Rightarrow> string option \<Rightarrow> payload \<Rightarrow> ('v world, runtime_result) op" where
  "settlement_refused rt iid reasons ds eff detail = stop_execution_state rt iid reasons ds eff False True detail"

definition back_to_unknown :: "string \<Rightarrow> string list \<Rightarrow> ('v world, unit) op" where
  "back_to_unknown iid reasons = seqE (move iid S_RECONCILING S_UNKNOWN (because reasons)) (ret ())"

definition remain_unknown :: "string \<Rightarrow> string list \<Rightarrow> decision list \<Rightarrow> ('v world, runtime_result) op" where
  "remain_unknown iid reasons ds = seqE (back_to_unknown iid reasons) (current_result iid ds None reasons True)"

text \<open>\<open>try: transition except EffectConflict: return stop\<close>, and what follows a transition that went through.\<close>

definition claim_effect ::
    "'v runtime \<Rightarrow> string \<Rightarrow> decision list \<Rightarrow> string option \<Rightarrow> intent_state \<Rightarrow> transition_args
      \<Rightarrow> ('v world, runtime_result) op \<Rightarrow> ('v world, runtime_result) op" where
  "claim_effect rt iid ds eff target a k =
     bindE (attempt (move iid S_RECONCILING target a)) (\<lambda>moved. case moved of
       Inr _ \<Rightarrow> k
     | Inl e \<Rightarrow> if e = EffectConflict
                then settlement_refused rt iid [''EFFECT_ID_ALREADY_CLAIMED''] ds eff []
                else raise_exn e)"

definition settle_finalized :: "'v runtime \<Rightarrow> string \<Rightarrow> decision list \<Rightarrow> settlement_record \<Rightarrow> ('v world, runtime_result) op" where
  "settle_finalized rt iid ds s =
     claim_effect rt iid ds None S_FINALIZED
       (no_args\<lparr>tr_effect_id := st_effect_id s, tr_commit_usage := True, tr_filled := st_amount_usd s\<rparr>)
       (current_result iid ds (st_effect_id s) [] True)"

definition settle_confirmed :: "'v runtime \<Rightarrow> string \<Rightarrow> decision list \<Rightarrow> settlement_record \<Rightarrow> ('v world, runtime_result) op" where
  "settle_confirmed rt iid ds s =
     claim_effect rt iid ds None S_CONFIRMED (no_args\<lparr>tr_effect_id := st_effect_id s, tr_filled := st_amount_usd s\<rparr>)
       (current_result iid ds (st_effect_id s) [] True)"

definition filled_so_far :: "settlement_record \<Rightarrow> decimal" where
  "filled_so_far s = (case st_amount_usd s of None \<Rightarrow> dzero | Some a \<Rightarrow> a)"

definition p_opt_str :: "string option \<Rightarrow> pyval" where
  "p_opt_str v = (case v of None \<Rightarrow> PNone | Some s \<Rightarrow> PStr s)"

definition settle_partial :: "'v runtime \<Rightarrow> string \<Rightarrow> decision list \<Rightarrow> settlement_record \<Rightarrow> ('v world, runtime_result) op" where
  "settle_partial rt iid ds s =
     (let filled = filled_so_far s; some = dlt dzero filled;
          reason = (if some then ''SETTLEMENT_PARTIAL_FILL_OPEN'' else ''SETTLEMENT_ORDER_OPEN'') in
      claim_effect rt iid ds None S_CONFIRMED
        ((because [reason])\<lparr>tr_effect_id := st_effect_id s, tr_filled := Some filled\<rparr>)
        (seqE (note_event rt iid (if some then ''partial_fill'' else ''order_open'')
                 [(''effect_id'', p_opt_str (st_effect_id s)), (''filled_amount_usd'', amount_text (Some filled))])
          (current_result iid ds (st_effect_id s) [reason] True)))"

definition settle_cancelled ::
    "'v runtime \<Rightarrow> string \<Rightarrow> decision list \<Rightarrow> intent_row \<Rightarrow> settlement_record \<Rightarrow> ('v world, runtime_result) op" where
  "settle_cancelled rt iid ds r s =
     (let filled = filled_so_far s; previous = it_effect_id r in
      if dlt dzero filled then
        claim_effect rt iid ds None S_FINALIZED
          ((because [''SETTLEMENT_CANCELLED_AFTER_PARTIAL_FILL''])
             \<lparr>tr_effect_id := st_effect_id s, tr_commit_usage := True, tr_filled := Some filled\<rparr>)
          (seqE (note_event rt iid ''cancelled_after_partial_fill''
                   [(''effect_id'', p_opt_str (st_effect_id s)), (''filled_amount_usd'', amount_text (Some filled))])
            (current_result iid ds (st_effect_id s) [''SETTLEMENT_CANCELLED_AFTER_PARTIAL_FILL''] True))
      else if previous \<noteq> None \<and> (case recorded_fill r of None \<Rightarrow> True | Some f \<Rightarrow> dlt dzero f) then
        settlement_refused rt iid [''SETTLEMENT_CANCEL_CONTRADICTS_RECORDED_EFFECT''] ds previous []
      else
        seqE (void_permits rt iid)
          (claim_effect rt iid ds previous S_FAILED_SAFE
             ((because [''SETTLEMENT_CANCELLED_UNFILLED''])\<lparr>tr_effect_id := st_effect_id s, tr_release_usage := True\<rparr>)
             (seqE (note_event rt iid ''cancelled_unfilled'' [(''effect_id'', p_opt_str (st_effect_id s))])
               (current_result iid ds None [''SETTLEMENT_CANCELLED_UNFILLED''] True))))"

section \<open>Authoritative absence\<close>

text \<open>Terminal after an authoritative absence: the budget is released, nothing is resubmitted.\<close>

definition resubmission_blocked ::
    "'v runtime \<Rightarrow> string \<Rightarrow> intent_state \<Rightarrow> string \<Rightarrow> decision list \<Rightarrow> ('v world, runtime_result) op" where
  "resubmission_blocked rt iid target reason ds =
     seqE (move iid S_RECONCILING target ((because [reason])\<lparr>tr_release_usage := True\<rparr>))
     (seqE (note_event rt iid ''resubmission_blocked''
              [(''reason'', PStr reason), (''authoritative_none'', PBool True), (''terminal_state'', PStr (state_str target))])
     (current_result iid ds None [reason] True))"

text \<open>A retry: not expired, the grant active, fresh inputs at hand and still allowed.\<close>

definition retry ::
    "'v runtime \<Rightarrow> 'v submitter \<Rightarrow> intent \<Rightarrow> capability_grant \<Rightarrow> reauth option \<Rightarrow> time option \<Rightarrow> time \<Rightarrow> decision list
      \<Rightarrow> ('v world, runtime_result) op" where
  "retry rt sub i g re now_override now ds =
     (let iid = i_intent_id i in
      bindE (get_grant_status rt g) (\<lambda>status.
      if now > i_expires_at i then resubmission_blocked rt iid S_STOPPED ''INTENT_EXPIRED_BEFORE_RESUBMIT'' ds
      else if (case g_valid_until g of None \<Rightarrow> False | Some v \<Rightarrow> now > v)
        then resubmission_blocked rt iid S_STOPPED ''GRANT_EXPIRED_BEFORE_RESUBMIT'' ds
      else if status \<noteq> CS GS_ACTIVE then resubmission_blocked rt iid S_STOPPED ''GRANT_NOT_ACTIVE_BEFORE_RESUBMIT'' ds
      else case re of
        None \<Rightarrow> resubmission_blocked rt iid S_STOPPED ''FRESH_AUTHORIZATION_REQUIRED_FOR_RESUBMIT'' ds
      | Some inputs \<Rightarrow>
          bindE (lift_sum (evaluate_fresh rt i g inputs now)) (\<lambda>(fresh, trust_reasons).
          if trust_reasons \<noteq> [] \<or> d_verdict (dominant fresh) \<noteq> V_ALLOW then
            let reasons = ''RESUBMIT_NOT_AUTHORIZED'' # trust_reasons @ all_reasons fresh in
            seqE (move iid S_RECONCILING S_STOPPED ((because reasons)\<lparr>tr_release_usage := True\<rparr>))
            (seqE (note_event rt iid ''resubmit_authorization_failed'' [(''reason_codes'', p_strs reasons)])
            (current_result iid fresh None reasons True))
          else sub i g fresh now_override inputs)))"

text \<open>
  Absence is acted on: the permits nobody consumed are voided first, and a consumed one
  contradicts the absence.
\<close>

definition blocking_reason :: "string option \<Rightarrow> string" where
  "blocking_reason block = (case block of
     None \<Rightarrow> ''RESUBMISSION_BLOCKED'' | Some b \<Rightarrow> if b = [] then ''RESUBMISSION_BLOCKED'' else b)"

definition blocked_target :: "string \<Rightarrow> intent_state" where
  "blocked_target reason = (if reason = DETERMINISTIC_FAILURE_BLOCK then S_FAILED_SAFE else S_STOPPED)"

definition act_on_absence ::
    "'v runtime \<Rightarrow> 'v submitter \<Rightarrow> intent \<Rightarrow> capability_grant \<Rightarrow> reauth option \<Rightarrow> time option \<Rightarrow> time \<Rightarrow> decision list
      \<Rightarrow> bool \<Rightarrow> string option \<Rightarrow> int \<times> int \<Rightarrow> ('v world, runtime_result) op" where
  "act_on_absence rt sub i g re now_override now ds allow block counts = (case counts of (issued, consumed) \<Rightarrow>
     if consumed > 0 then
       settlement_refused rt (i_intent_id i) [''SETTLEMENT_NONE_AFTER_PERMIT_CONSUMED''] ds None
         [(''permits_issued'', PInt issued), (''permits_consumed'', PInt consumed)]
     else if \<not> allow then
       resubmission_blocked rt (i_intent_id i) (blocked_target (blocking_reason block)) (blocking_reason block) ds
     else retry rt sub i g re now_override now ds)"

definition settle_absent ::
    "'v runtime \<Rightarrow> 'v submitter \<Rightarrow> intent \<Rightarrow> capability_grant \<Rightarrow> reauth option \<Rightarrow> time option \<Rightarrow> time \<Rightarrow> decision list
      \<Rightarrow> bool \<Rightarrow> string option \<Rightarrow> ('v world, runtime_result) op" where
  "settle_absent rt sub i g re now_override now ds allow block =
     seqE (void_permits rt (i_intent_id i))
       (bindE (call (permit_counts (i_intent_id i))) (act_on_absence rt sub i g re now_override now ds allow block))"

definition settle_none ::
    "'v runtime \<Rightarrow> 'v submitter \<Rightarrow> intent \<Rightarrow> capability_grant \<Rightarrow> reauth option \<Rightarrow> time option \<Rightarrow> time \<Rightarrow> decision list
      \<Rightarrow> bool \<Rightarrow> string option \<Rightarrow> intent_row \<Rightarrow> ('v world, runtime_result) op" where
  "settle_none rt sub i g re now_override now ds allow block r =
     (let iid = i_intent_id i in
      case ambiguity_window_closes_at r g of
        Some closes \<Rightarrow>
          if now < closes then
            let reasons = with_block ''SETTLEMENT_NONE_WITHIN_PERMIT_WINDOW'' block in
            seqE (back_to_unknown iid reasons)
            (seqE (note_event rt iid ''ambiguity_window_open''
                     [(''closes_at'', PStr (isoformat closes)), (''observed_at'', PStr (isoformat now))])
            (current_result iid ds None reasons True))
          else settle_absent rt sub i g re now_override now ds allow block
      | None \<Rightarrow> settle_absent rt sub i g re now_override now ds allow block)"

section \<open>reconcile\<close>

definition not_authoritative_reason :: "settlement_status \<Rightarrow> string" where
  "not_authoritative_reason st =
     (if st = ST_NONE then ''SETTLEMENT_NONE_NOT_AUTHORITATIVE''
      else if st = ST_CANCELLED then ''SETTLEMENT_CANCEL_NOT_AUTHORITATIVE''
      else ''SETTLEMENT_POSITIVE_NOT_AUTHORITATIVE'')"

definition act_on ::
    "'v runtime \<Rightarrow> 'v submitter \<Rightarrow> intent \<Rightarrow> capability_grant \<Rightarrow> reauth option \<Rightarrow> time option \<Rightarrow> time \<Rightarrow> decision list
      \<Rightarrow> bool \<Rightarrow> string option \<Rightarrow> intent_row \<Rightarrow> settlement_record \<Rightarrow> ('v world, runtime_result) op" where
  "act_on rt sub i g re now_override now ds allow block r s =
     (let iid = i_intent_id i in
      case st_status s of
        ST_FINALIZED \<Rightarrow> settle_finalized rt iid ds s
      | ST_CONFIRMED \<Rightarrow> settle_confirmed rt iid ds s
      | ST_PARTIALLY_FILLED \<Rightarrow> settle_partial rt iid ds s
      | ST_CANCELLED \<Rightarrow> settle_cancelled rt iid ds r s
      | ST_CONTRADICTORY \<Rightarrow> settlement_refused rt iid (with_block ''SETTLEMENT_CONTRADICTORY'' block) ds (it_effect_id r) []
      | ST_UNKNOWN \<Rightarrow> remain_unknown iid (with_block ''SETTLEMENT_UNKNOWN'' block) ds
      | ST_NONE \<Rightarrow> settle_none rt sub i g re now_override now ds allow block r)"

text \<open>From a record: an observation without authority, a stop, or the status itself.\<close>

definition judge ::
    "'v runtime \<Rightarrow> 'v submitter \<Rightarrow> intent \<Rightarrow> capability_grant \<Rightarrow> reauth option \<Rightarrow> time option \<Rightarrow> time \<Rightarrow> decision list
      \<Rightarrow> bool \<Rightarrow> string option \<Rightarrow> intent_row \<Rightarrow> string \<Rightarrow> settlement_record \<Rightarrow> ('v world, runtime_result) op" where
  "judge rt sub i g re now_override now ds allow block r request_hash s =
     (if \<not> st_authoritative s \<and> (carries_effect (st_status s) \<or> st_status s = ST_NONE)
      then remain_unknown (i_intent_id i) (with_block (not_authoritative_reason (st_status s)) block) ds
      else case settlement_stop i r request_hash s of
        Some (reason, detail) \<Rightarrow> settlement_refused rt (i_intent_id i) [reason] ds (it_effect_id r) detail
      | None \<Rightarrow> act_on rt sub i g re now_override now ds allow block r s)"

definition record_reconciliation :: "'v runtime \<Rightarrow> string \<Rightarrow> settlement_record \<Rightarrow> ('v world, unit) op" where
  "record_reconciliation rt iid s =
     note_event rt iid ''reconciliation''
       [(''status'', PStr (settlement_str (st_status s))), (''effect_id'', untrusted_repr (st_effect_id s)),
        (''effect_id_well_formed'', PBool (effect_id_well_formed s)), (''amount_usd'', amount_text (st_amount_usd s)),
        (''authoritative'', PBool (st_authoritative s)), (''verified_request_hash'', p_opt_str (st_verified_request_hash s)),
        (''evidence'', dict_of (st_evidence s))]"

text \<open>The verifier is asked; \<open>None\<close> in the answer is a result already returned.\<close>

definition observe ::
    "'v runtime \<Rightarrow> 'v settlement_source \<Rightarrow> intent \<Rightarrow> intent_row \<Rightarrow> decision list \<Rightarrow> string option
      \<Rightarrow> ('v world, runtime_result + settlement_record) op" where
  "observe rt verifier i r ds block =
     (let iid = i_intent_id i;
          malformed = (\<lambda>ty. bindE (settlement_refused rt iid [''SETTLEMENT_RECORD_MALFORMED''] ds (it_effect_id r) [(''type'', PStr ty)])
                               (\<lambda>res. ret (Inl res))) in
      bindE (attempt (verifier (from_intent i))) (\<lambda>answer. case answer of
        Inl e \<Rightarrow>
          let reasons = with_block ''RECONCILIATION_EXCEPTION'' block in
          seqE (back_to_unknown iid reasons)
          (seqE (note_event rt iid ''reconciliation_exception''
                   [(''type'', PStr (fst (rt_render rt e))), (''message'', untrusted_message (snd (rt_render rt e)))])
          (bindE (current_result iid ds None reasons True) (\<lambda>res. ret (Inl res))))
      | Inr (NotARecord ty) \<Rightarrow> malformed ty
      | Inr (SettlementAnswer s) \<Rightarrow>
          bindE (attempt (record_reconciliation rt iid s)) (\<lambda>noted. case noted of
            Inr _ \<Rightarrow> ret (Inr s)
          | Inl e \<Rightarrow> if e = EvidenceIntegrityError then raise_exn e else malformed (fst (rt_render rt e)))))"

definition durable_block :: "intent_row \<Rightarrow> string list" where
  "durable_block r = filter (\<lambda>x. x \<in> set RESUBMIT_BLOCKING_REASONS) (it_reason_codes r)"

definition blocked :: "intent_row \<Rightarrow> bool" where
  "blocked r \<longleftrightarrow> list_ex (\<lambda>x. x \<in> set RESUBMIT_BLOCKING_REASONS) (it_reason_codes r)"

text \<open>\<open>verify_grant\<close> with the two refusals the callers turn into reason codes.\<close>

definition grant_refusal :: "'v runtime \<Rightarrow> capability_grant \<Rightarrow> ('v world, string option) op" where
  "grant_refusal rt g =
     bindE (lift_sum (canonical_hash (c_crypto (rt_cfg rt)) (pv_grant g))) (\<lambda>h.
     bindE (attempt (call (verify_grant g h))) (\<lambda>r. case r of
       Inr _ \<Rightarrow> ret None
     | Inl e \<Rightarrow> if e = UnknownGrant then ret (Some ''GRANT_NOT_PROVISIONED'')
                else if e = GrantConflict then ret (Some ''GRANT_ENVELOPE_MISMATCH'')
                else raise_exn e))"

text \<open>The checks before the verifier is asked, and the move to RECONCILING; a result if the call ends here.\<close>

definition may_reconcile ::
    "'v runtime \<Rightarrow> intent \<Rightarrow> capability_grant \<Rightarrow> intent_row \<Rightarrow> decision list \<Rightarrow> ('v world, runtime_result option) op" where
  "may_reconcile rt i g r ds =
     (let iid = i_intent_id i; ends = (\<lambda>code. ret (Some (stored_result r ds True (Some [code])))) in
      seqE (call (assert_evidence_appendable (rt_cfg rt) iid))
      (bindE (grant_refusal rt g) (\<lambda>refusal. case refusal of
         Some code \<Rightarrow> ends code
       | None \<Rightarrow>
           if \<not> grant_bound i g then ends ''GRANT_NOT_BOUND_TO_INTENT''
           else if map_of (rt_adapters rt) (i_venue i) = None then
             bindE (stop_execution_state rt iid [''ADAPTER_NOT_CONFIGURED''] ds None
                      (it_state r \<in> set [S_PROPOSED, S_AUTHORIZED, S_RESERVED]) False []) (\<lambda>res. ret (Some res))
           else if it_state r \<in> set [S_CONFIRMED, S_RESERVED, S_SUBMITTED, S_UNKNOWN] then
             seqE (move iid (it_state r) S_RECONCILING (because (durable_block r))) (ret None)
           else if it_state r \<noteq> S_RECONCILING then ends ''RECONCILE_NOT_APPLICABLE_BEFORE_SUBMISSION''
           else ret None)))"

definition reconcile_unlocked :: "'v runtime \<Rightarrow> 'v submitter \<Rightarrow> 'v reconciler" where
  "reconcile_unlocked rt sub i g re now ds allow block =
     (let iid = i_intent_id i; now_override = (if rt_allow_test_time_override rt then now else None) in
      bindE (decision_time rt now) (\<lambda>decision_now.
      bindE (call (get_intent iid)) (\<lambda>r.
      if is_terminal (it_state r) then ret (stored_result r ds True None)
      else
        let held = (block = None \<and> blocked r);
            block' = (if held then Some DETERMINISTIC_FAILURE_BLOCK else block);
            allow' = (allow \<and> \<not> held) in
        bindE (may_reconcile rt i g r ds) (\<lambda>ended. case ended of
          Some res \<Rightarrow> ret res
        | None \<Rightarrow>
            (case map_of (rt_verifiers rt) (i_venue i) of
               None \<Rightarrow> raise_exn KeyError
             | Some verifier \<Rightarrow>
                 bindE (lift_sum (canonical_hash (c_crypto (rt_cfg rt)) (pv_request (from_intent i)))) (\<lambda>request_hash.
                 bindE (observe rt verifier i r ds block') (\<lambda>seen. case seen of
                   Inl res \<Rightarrow> ret res
                 | Inr s \<Rightarrow> judge rt sub i g re now_override decision_now ds allow' block' r request_hash s)))))))"

primrec reconcile :: "nat \<Rightarrow> 'v runtime \<Rightarrow> 'v reconciler" where
  "reconcile 0 rt = (\<lambda>i g re now ds allow block. raise_exn OutOfFuel)"
| "reconcile (Suc n) rt = (\<lambda>i g re now ds allow block.
     catch (intent_guard (rt_cfg rt) (i_intent_id i)
              (reconcile_unlocked rt (submit rt (reconcile n rt)) i g re now ds allow block))
       (guarded_result (i_intent_id i) ds))"

section \<open>process\<close>

definition p_layers :: "decision list \<Rightarrow> pyval" where
  "p_layers ds = PSeq (map (\<lambda>d. dict_of
     [(''layer'', PStr (d_layer d)), (''verdict'', PStr (verdict_str (d_verdict d))), (''reason_codes'', p_strs (d_reason_codes d))]) ds)"

definition submit_with :: "nat \<Rightarrow> 'v runtime \<Rightarrow> 'v submitter" where
  "submit_with n rt = submit rt (reconcile n rt)"

text \<open>The grant is not active: before any submission the intent stops, later it is reconciled without a retry.\<close>

definition grant_inactive ::
    "nat \<Rightarrow> 'v runtime \<Rightarrow> intent \<Rightarrow> capability_grant \<Rightarrow> reauth \<Rightarrow> time option \<Rightarrow> intent_row \<Rightarrow> control_status
      \<Rightarrow> ('v world, runtime_result) op" where
  "grant_inactive n rt i g re now_override r status =
     (let iid = i_intent_id i; reason = ''GRANT_RUNTIME_'' @ control_str status in
      if it_state r \<in> set [S_PROPOSED, S_AUTHORIZED] then
        seqE (move iid (it_state r) S_STOPPED ((because [reason])\<lparr>tr_release_usage := True\<rparr>))
        (seqE (note_event rt iid ''grant_runtime_inactive''
                 [(''runtime_status'', PStr (control_str status)), (''from_state'', PStr (state_str (it_state r)))])
        (current_result iid [] None [reason] False))
      else reconcile n rt i g (Some re) now_override [] False
             (Some (if blocked r then DETERMINISTIC_FAILURE_BLOCK else reason)))"

text \<open>An authorization a crash interrupted is evaluated again.\<close>

definition resume_authorized ::
    "nat \<Rightarrow> 'v runtime \<Rightarrow> intent \<Rightarrow> string \<Rightarrow> capability_grant \<Rightarrow> reauth \<Rightarrow> time option \<Rightarrow> time \<Rightarrow> ('v world, runtime_result) op" where
  "resume_authorized n rt i h g re now_override now =
     (let iid = i_intent_id i in
      bindE (lift_sum (evaluate_fresh rt i g re now)) (\<lambda>(ds, trust_reasons).
      if trust_reasons \<noteq> [] \<or> d_verdict (dominant ds) \<noteq> V_ALLOW then
        let reasons = trust_reasons @ all_reasons ds in
        seqE (move iid S_AUTHORIZED S_STOPPED ((because reasons)\<lparr>tr_release_usage := True\<rparr>))
        (seqE (note_event rt iid ''authorization_decision''
                 [(''verdict'', PStr (verdict_str V_STOP)), (''recovered_from'', PStr (state_str S_AUTHORIZED)),
                  (''reason_codes'', p_strs reasons), (''layers'', p_layers ds)])
        (current_result iid ds None reasons False))
      else bindE (move iid S_AUTHORIZED S_RESERVED no_args) (\<lambda>moved.
        if \<not> moved then reconcile n rt i g (Some re) now_override [] True None
        else (case re of (ad, r, aa, ra) \<Rightarrow>
          seqE (record_authorized rt i h g aa ra True) (submit_with n rt i g ds now_override re)))))"

definition verdict_target :: "verdict \<Rightarrow> intent_state" where
  "verdict_target v = (case v of V_DENY \<Rightarrow> S_DENIED | V_DEFER \<Rightarrow> S_DEFERRED | _ \<Rightarrow> S_STOPPED)"

text \<open>A terminal transition from PROPOSED with its evidence.\<close>

definition refuse ::
    "'v runtime \<Rightarrow> string \<Rightarrow> intent_state \<Rightarrow> transition_args \<Rightarrow> string \<Rightarrow> payload \<Rightarrow> decision list \<Rightarrow> string list
      \<Rightarrow> ('v world, runtime_result) op" where
  "refuse rt iid target a etype payload ds reasons =
     seqE (move iid S_PROPOSED target a)
     (seqE (note_event rt iid etype payload) (current_result iid ds None reasons False))"

text \<open>Allowed by the gates: reserve, authorize, submit.\<close>

definition reserve_and_submit ::
    "nat \<Rightarrow> 'v runtime \<Rightarrow> intent \<Rightarrow> string \<Rightarrow> capability_grant \<Rightarrow> reauth \<Rightarrow> time option \<Rightarrow> time \<Rightarrow> decision list
      \<Rightarrow> ('v world, runtime_result) op" where
  "reserve_and_submit n rt i h g re now_override now ds = (case re of (ad, r, aa, ra) \<Rightarrow>
     (let iid = i_intent_id i in
      bindE (call (reserve_usage (rt_cfg rt) i g r now)) (\<lambda>(ok, reasons).
      if \<not> ok then refuse rt iid S_DEFERRED (because reasons) ''usage_reservation_denied'' [(''reason_codes'', p_strs reasons)] ds reasons
      else bindE (move iid S_PROPOSED S_AUTHORIZED no_args) (\<lambda>authorized.
        if \<not> authorized then reconcile n rt i g (Some re) now_override [] True None
        else bindE (move iid S_AUTHORIZED S_RESERVED no_args) (\<lambda>reserved.
          if \<not> reserved then reconcile n rt i g (Some re) now_override [] True None
          else seqE (record_authorized rt i h g aa ra False) (submit_with n rt i g ds now_override re))))))"

definition authorize ::
    "nat \<Rightarrow> 'v runtime \<Rightarrow> intent \<Rightarrow> string \<Rightarrow> capability_grant \<Rightarrow> reauth \<Rightarrow> time option \<Rightarrow> time \<Rightarrow> ('v world, runtime_result) op" where
  "authorize n rt i h g re now_override now =
     (let iid = i_intent_id i in
      bindE (lift_sum (evaluate_fresh rt i g re now)) (\<lambda>(ds, trust_reasons).
      if trust_reasons \<noteq> [] then
        refuse rt iid S_STOPPED ((because trust_reasons)\<lparr>tr_release_usage := True\<rparr>) ''attestation_rejected''
          [(''reason_codes'', p_strs trust_reasons)] ds trust_reasons
      else if d_verdict (dominant ds) \<noteq> V_ALLOW then
        refuse rt iid (verdict_target (d_verdict (dominant ds))) ((because (all_reasons ds))\<lparr>tr_release_usage := True\<rparr>)
          ''authorization_decision''
          [(''verdict'', PStr (verdict_str (d_verdict (dominant ds)))), (''reason_codes'', p_strs (all_reasons ds)),
           (''layers'', p_layers ds)] ds (all_reasons ds)
      else if map_of (rt_adapters rt) (i_venue i) = None then
        refuse rt iid S_STOPPED ((because [''ADAPTER_NOT_CONFIGURED''])\<lparr>tr_release_usage := True\<rparr>) ''execution_stopped''
          [(''reason_codes'', p_strs [''ADAPTER_NOT_CONFIGURED''])] ds [''ADAPTER_NOT_CONFIGURED'']
      else reserve_and_submit n rt i h g re now_override now ds))"

text \<open>By the stored state: stop, reconcile or authorize.\<close>

definition dispatch ::
    "nat \<Rightarrow> 'v runtime \<Rightarrow> intent \<Rightarrow> string \<Rightarrow> capability_grant \<Rightarrow> reauth \<Rightarrow> time option \<Rightarrow> time \<Rightarrow> intent_row
      \<Rightarrow> ('v world, runtime_result) op" where
  "dispatch n rt i h g re now_override now r =
     bindE (get_grant_status rt g) (\<lambda>status.
     if status \<noteq> CS GS_ACTIVE then grant_inactive n rt i g re now_override r status
     else if it_state r = S_AUTHORIZED then resume_authorized n rt i h g re now_override now
     else if it_state r \<in> set [S_RESERVED, S_SUBMITTED, S_UNKNOWN, S_RECONCILING, S_CONFIRMED] then
       reconcile n rt i g (Some re) now_override [] (\<not> blocked r)
         (if blocked r then Some DETERMINISTIC_FAILURE_BLOCK else None)
     else authorize n rt i h g re now_override now)"

definition process_unlocked ::
    "nat \<Rightarrow> 'v runtime \<Rightarrow> intent \<Rightarrow> capability_grant \<Rightarrow> reauth \<Rightarrow> time option \<Rightarrow> time \<Rightarrow> ('v world, runtime_result) op" where
  "process_unlocked n rt i g re now decision_now =
     (let iid = i_intent_id i; now_override = (if rt_allow_test_time_override rt then now else None) in
      bindE (lift_sum (canonical_hash (c_crypto (rt_cfg rt)) (pv_intent i))) (\<lambda>h.
      bindE (call (register (rt_cfg rt) i h)) (\<lambda>r.
      seqE (if is_terminal (it_state r) then ret () else call (assert_evidence_appendable (rt_cfg rt) iid))
      (bindE (grant_refusal rt g) (\<lambda>refusal. case refusal of
         Some code \<Rightarrow> stop_if_possible rt r [code]
       | None \<Rightarrow>
           if \<not> is_terminal (it_state r) \<and> it_state r \<noteq> S_PROPOSED \<and> \<not> grant_bound i g
           then ret (stored_result r [] True (Some [''GRANT_NOT_BOUND_TO_INTENT'']))
           else if is_terminal (it_state r) then ret (stored_result r [] True None)
           else dispatch n rt i h g re now_override decision_now r)))))"

definition process ::
    "nat \<Rightarrow> 'v runtime \<Rightarrow> intent \<Rightarrow> capability_grant \<Rightarrow> reauth \<Rightarrow> time option \<Rightarrow> ('v world, runtime_result) op" where
  "process n rt i g re now =
     bindE (decision_time rt now) (\<lambda>decision_now.
     bindE (lift_sum (canonical_hash (c_crypto (rt_cfg rt)) (pv_intent i))) (\<lambda>h.
     bindE (call (register (rt_cfg rt) i h)) (\<lambda>r.
     if is_terminal (it_state r) then seqE (release_orphaned_hold r) (ret (stored_result r [] True None))
     else catch (intent_guard (rt_cfg rt) (i_intent_id i) (process_unlocked n rt i g re now decision_now))
            (guarded_result (i_intent_id i) []))))"

end
