(* ===== verification/Runtime_Steps.thy ===== *)
theory Runtime_Steps
  imports Reconcile
begin

text \<open>
  What the worker's operations preserve, once and for all invariants.

  \<open>worker_action c i a\<close> are the store transactions the runtime itself performs for an
  intent. The locale \<open>worker_step\<close> takes any predicate on worlds that interference, these
  transactions and the worker's bookkeeping preserve, and shows that every helper, every
  branch of \<open>reconcile\<close> and every refusal preserves it. \<open>worker\<close> adds the one step left,
  the attempt that issues a permit and calls the adapter: it may rely on a second
  predicate, \<open>ready\<close>, which an authoritative absence and a fresh reservation establish.
\<close>

section \<open>Triples\<close>

text \<open>\<open>triple P m Q\<close>: from a state with \<open>P\<close>, \<open>m\<close> ends in one with \<open>Q\<close>, returning or raising.\<close>

definition triple :: "('s \<Rightarrow> bool) \<Rightarrow> ('s, 'a) op \<Rightarrow> ('s \<Rightarrow> bool) \<Rightarrow> bool" where
  "triple P m Q \<longleftrightarrow> (\<forall>s. P s \<longrightarrow> Q (snd (m s)))"

abbreviation preserves :: "('s \<Rightarrow> bool) \<Rightarrow> ('s, 'a) op \<Rightarrow> bool" where
  "preserves I m \<equiv> guarantees (\<lambda>s t. I s \<longrightarrow> I t) m"

interpretation keep: step_preorder "\<lambda>s t. I s \<longrightarrow> I t"
  by unfold_locales auto

lemma preserves_triple: "preserves I m \<longleftrightarrow> triple I m I"
  by (simp add: triple_def guarantees_def)

lemma tripleD: "triple P m Q \<Longrightarrow> P s \<Longrightarrow> m s = (r, t) \<Longrightarrow> Q t"
  unfolding triple_def by (metis snd_conv)

lemma preservesD: "preserves I m \<Longrightarrow> I s \<Longrightarrow> m s = (r, t) \<Longrightarrow> I t"
  unfolding guarantees_def by (metis snd_conv)

lemma triple_weaken: "triple P m Q \<Longrightarrow> (\<And>s. P' s \<Longrightarrow> P s) \<Longrightarrow> (\<And>s. Q s \<Longrightarrow> Q' s) \<Longrightarrow> triple P' m Q'"
  by (auto simp: triple_def)

lemma triple_bindE:
  assumes "triple P m M" and "\<And>a. triple M (f a) Q" and "\<And>s. M s \<Longrightarrow> Q s"
  shows "triple P (bindE m f) Q"
  unfolding triple_def
proof (intro allI impI)
  fix s assume P: "P s"
  obtain r t where t: "m s = (r, t)" by (cases "m s")
  have M: "M t" using tripleD [OF assms(1) P t] .
  show "Q (snd (bindE m f s))"
  proof (cases r)
    case (Inl e)
    with t M assms(3) show ?thesis by (simp add: bindE_def)
  next
    case (Inr a)
    with t M assms(2) [of a] show ?thesis by (simp add: bindE_def triple_def)
  qed
qed

lemma triple_ret: "(\<And>s. P s \<Longrightarrow> Q s) \<Longrightarrow> triple P (ret a) Q"
  by (simp add: triple_def ret_def)

lemma triple_raise: "(\<And>s. P s \<Longrightarrow> Q s) \<Longrightarrow> triple P (raise_exn e) Q"
  by (simp add: triple_def raise_exn_def)

lemma triple_if: "(b \<Longrightarrow> triple P m Q) \<Longrightarrow> (\<not> b \<Longrightarrow> triple P n Q) \<Longrightarrow> triple P (if b then m else n) Q"
  by simp

lemma triple_prod: "(\<And>x y. triple P (f x y) Q) \<Longrightarrow> triple P (case p of (x, y) \<Rightarrow> f x y) Q"
  by (cases p) simp

lemma triple_option:
  "triple P m Q \<Longrightarrow> (\<And>x. triple P (f x) Q) \<Longrightarrow> triple P (case v of None \<Rightarrow> m | Some x \<Rightarrow> f x) Q"
  by (cases v) simp_all

lemma triple_catch_raise: "triple P m Q \<Longrightarrow> triple P (catch m (\<lambda>e. raise_exn (f e))) Q"
  by (auto simp: triple_def catch_def raise_exn_def split: prod.splits sum.splits)

lemmas triple_flow = triple_if triple_prod triple_option

lemma triple_bindE_value:
  assumes "\<And>s r t. P s \<Longrightarrow> m s = (r, t) \<Longrightarrow> (case r of Inl e \<Rightarrow> Q t | Inr a \<Rightarrow> M a t)" and "\<And>a. triple (M a) (f a) Q"
  shows "triple P (bindE m f) Q"
  unfolding triple_def
proof (intro allI impI)
  fix s assume P: "P s"
  obtain r t where t: "m s = (r, t)" by (cases "m s")
  show "Q (snd (bindE m f s))"
    using assms(1) [OF P t] assms(2) t by (cases r) (simp_all add: bindE_def triple_def)
qed

lemma preserves_bindE_value:
  assumes "preserves I m" and "\<And>a s t. m s = (Inr a, t) \<Longrightarrow> preserves I (f a)"
  shows "preserves I (bindE m f)"
  unfolding preserves_triple
proof (rule triple_bindE_value [where M = "\<lambda>a t. I t \<and> preserves I (f a)"])
  fix s r t assume "I s" "m s = (r, t)"
  then show "case r of Inl e \<Rightarrow> I t | Inr a \<Rightarrow> I t \<and> preserves I (f a)"
    using tripleD [OF assms(1) [unfolded preserves_triple]] assms(2) by (cases r) auto
qed (auto simp: guarantees_def triple_def)

section \<open>The transactions of a worker\<close>

fun worker_action :: "cfg \<Rightarrow> intent \<Rightarrow> store_action \<Rightarrow> bool" where
  "worker_action c i (Register c' i' h) \<longleftrightarrow> c' = c \<and> i' = i"
| "worker_action c i (Transition iid expected st a) \<longleftrightarrow> iid = i_intent_id i"
| "worker_action c i (AddEvidence c' iid etype p) \<longleftrightarrow> c' = c \<and> iid = i_intent_id i"
| "worker_action c i (VoidPermits iid) \<longleftrightarrow> iid = i_intent_id i"
| "worker_action c i (ReleaseUsage iid) \<longleftrightarrow> iid = i_intent_id i"
| "worker_action c i (CommitUsage iid) \<longleftrightarrow> iid = i_intent_id i"
| "worker_action c i (Reserve c' i' g r now) \<longleftrightarrow> c' = c \<and> i' = i"
| "worker_action c i (BeginSubmission iid expected n now) \<longleftrightarrow> iid = i_intent_id i"
| "worker_action c i (AcquireLease c' iid) \<longleftrightarrow> c' = c \<and> iid = i_intent_id i"
| "worker_action c i (ReleaseLease c' iid) \<longleftrightarrow> c' = c \<and> iid = i_intent_id i"
| "worker_action c i _ \<longleftrightarrow> False"

fun issuing_action :: "permit_authority \<Rightarrow> intent \<Rightarrow> store_action \<Rightarrow> bool" where
  "issuing_action pa i (ClaimPermitRisk i' g r) \<longleftrightarrow> i' = i"
| "issuing_action pa i (NextFence c g) \<longleftrightarrow> c = pa_cfg pa"
| "issuing_action pa i (RecordPermit pid i' g epoch fence h expires now) \<longleftrightarrow> i' = i"
| "issuing_action pa i _ \<longleftrightarrow> False"

text \<open>Those before the permit is recorded.\<close>

fun preparing_action :: "permit_authority \<Rightarrow> intent \<Rightarrow> store_action \<Rightarrow> bool" where
  "preparing_action pa i (ClaimPermitRisk i' g r) \<longleftrightarrow> i' = i"
| "preparing_action pa i (NextFence c g) \<longleftrightarrow> c = pa_cfg pa"
| "preparing_action pa i _ \<longleftrightarrow> False"

lemma preparing_issuing: "preparing_action pa i a \<Longrightarrow> issuing_action pa i a"
  by (cases a) simp_all

text \<open>A call of the store that is one of the given transactions, or reads only.\<close>

definition performs :: "(store_action \<Rightarrow> bool) \<Rightarrow> (sys, 'a) op \<Rightarrow> bool" where
  "performs act m \<longleftrightarrow> (\<forall>s. exec m s = s \<or> (\<exists>a. act a \<and> exec m s = perform a s))"

abbreviation worker_call :: "cfg \<Rightarrow> intent \<Rightarrow> (sys, 'a) op \<Rightarrow> bool" where
  "worker_call c i m \<equiv> performs (worker_action c i) m"

named_theorems worker_calls \<open>the store calls of a worker\<close>

lemma performsI: "perform a = exec m \<Longrightarrow> act a \<Longrightarrow> performs act m"
  unfolding performs_def by metis

lemma performs_read: "(\<And>s. exec m s = s) \<Longrightarrow> performs act m"
  by (simp add: performs_def)

lemma get_grant_control_reads: "exec (get_grant_control c who gid v) s = s"
proof -
  have "wp (get_grant_control c who gid v) (\<lambda>r t. t = s) s"
    by (auto simp: get_grant_control_def read_db_def wp_simps split: option.splits sum.splits)
  then show ?thesis by (cases "get_grant_control c who gid v s") (simp add: wp_def exec_def)
qed

lemma reads_only [worker_calls]:
  "performs act (get_intent iid)"
  "performs act (permit_counts iid)"
  "performs act (assert_evidence_appendable c' iid)"
  "performs act (verify_grant g h)"
  "performs act (verify_usage_held i' g)"
  "performs act (get_grant_control c who gid v)"
  by (rule performs_read, auto simp: exec_def get_intent_def permit_counts_def assert_evidence_appendable_def verify_grant_def
      verify_usage_held_def read_db_def op_simps get_grant_control_reads [unfolded exec_def] split: option.splits)+

lemma transactions_only [worker_calls]:
  "worker_call c i (register c i h)"
  "worker_call c i (transition (i_intent_id i) expected st a)"
  "worker_call c i (add_evidence c (i_intent_id i) etype p)"
  "worker_call c i (void_unconsumed_permits (i_intent_id i))"
  "worker_call c i (release_usage (i_intent_id i))"
  "worker_call c i (commit_usage (i_intent_id i))"
  "worker_call c i (reserve_usage c i g r now)"
  "worker_call c i (begin_submission (i_intent_id i) expected n now)"
  "worker_call c i (acquire_lease c (i_intent_id i))"
  "worker_call c i (release_lease c (i_intent_id i))"
  by (rule performsI, rule perform.simps, simp)+

lemma preparing_calls:
  "performs (preparing_action pa i) (claim_permit_risk_state i g r)"
  "performs (preparing_action pa i) (next_execution_fence (pa_cfg pa) g)"
  by (rule performsI, rule perform.simps, simp)+

lemma get_intent_eq_Inr [inr_simps]: "get_intent iid s = (Inr r, t) \<longleftrightarrow> intent_of (db s) iid = Some r \<and> t = s"
  by (auto simp: get_intent_def read_db_def op_simps split: option.splits)

lemma intent_of_id: "intent_of d iid = Some r \<Longrightarrow> it_intent_id r = iid"
  unfolding intent_of_def by (auto dest: find_SomeD)

lemma register_row_id: "call (register c i h) w = (Inr r, t) \<Longrightarrow> it_intent_id r = i_intent_id i"
  by (auto simp: call_eq_Inr register_def inr_simps intent_of_id)

lemma get_intent_row_id: "call (get_intent iid) w = (Inr r, t) \<Longrightarrow> it_intent_id r = iid"
  by (auto simp: call_eq_Inr inr_simps intent_of_id)

section \<open>Steps that preserve any worker invariant\<close>

text \<open>A predicate that interference and certain transactions preserve.\<close>

locale store_step =
  fixes inv :: "'v world \<Rightarrow> bool" and act :: "store_action \<Rightarrow> bool"
  assumes disturbed: "inv w \<Longrightarrow> inv (snd (disturb w))"
    and acted: "act a \<Longrightarrow> inv w \<Longrightarrow> inv (w\<lparr>w_sys := perform a (w_sys w)\<rparr>)"
begin

lemma call_step:
  assumes "performs act m"
  shows "preserves inv (call m)"
proof (rule guaranteesI, rule impI)
  fix w assume w: "inv w"
  obtain r u where u: "disturb w = (r, u)" by (cases "disturb w")
  have inv: "inv u" using disturbed [OF w] u by simp
  show "inv (snd (call m w))"
  proof (cases r)
    case (Inr x)
    have "inv (u\<lparr>w_sys := exec m (w_sys u)\<rparr>)"
      using assms acted [OF _ inv] inv unfolding performs_def by (metis world.surjective world.update_convs(1))
    with u Inr show ?thesis by (auto simp: call_def seqE_def bindE_def on_sys_def exec_def split: prod.splits)
  qed (use u inv in \<open>simp add: call_def seqE_def bindE_def\<close>)
qed

end

text \<open>Issuing: from \<open>pre\<close>, which the preparations preserve, the recording ends in \<open>post\<close>.\<close>

locale issuer_step = store_step pre "preparing_action pa i"
  for pre :: "'v world \<Rightarrow> bool" and pa :: permit_authority and i :: intent +
  fixes post :: "'v world \<Rightarrow> bool"
  assumes weaker: "pre w \<Longrightarrow> post w"
    and recorded: "triple pre (call (record_execution_permit pid i g epoch fence h expires now)) post"
begin

lemma issue_reasons_step: "preserves pre (issue_reasons pa rq i ad g r aa ra now)"
  unfolding issue_reasons_def Let_def by (intro keep.guar_rules call_step worker_calls)

lemma pre_bindE: "preserves pre m \<Longrightarrow> (\<And>a. triple pre (f a) post) \<Longrightarrow> triple pre (bindE m f) post"
  unfolding preserves_triple by (rule triple_bindE [where M = pre]) (auto intro: weaker)

lemma recording_step:
  "triple pre (bindE (catch (call (record_execution_permit pid i g epoch fence h expires now)) (\<lambda>e. raise_exn (f e))) (\<lambda>_. ret signed)) post"
  by (rule triple_bindE [OF triple_catch_raise [OF recorded]]) (simp_all add: triple_ret)

lemma issue_step: "triple pre (issue pa rq i ad g r aa ra now) post"
  unfolding issue_def Let_def seqE_def
  by (intro recording_step pre_bindE triple_flow triple_raise [OF weaker]
      issue_reasons_step keep.guar_rules call_step preparing_calls worker_calls)

lemma issue_keeps: "pre s \<Longrightarrow> issue pa rq i ad g r aa ra now s = (res, t) \<Longrightarrow> post t"
  by (rule tripleD [OF issue_step])

end

locale worker_step = store_step inv "worker_action (rt_cfg rt) i"
  for inv :: "'v world \<Rightarrow> bool" and rt :: "'v runtime" and i :: intent +
  assumes guarded: "inv w \<Longrightarrow> inv (w\<lparr>w_active := xs\<rparr>)"
    and verified: "(v, source) \<in> set (rt_verifiers rt) \<Longrightarrow> preserves inv (source rq)"
begin

lemma clock_step: "preserves inv read_clock"
  using disturbed by (simp add: guarantees_def read_clock_def Let_def)

lemma active_step: "preserves inv (set_active xs)"
  using guarded by (simp add: guarantees_def set_active_def modify_def)

lemma attempt_step: "preserves inv m \<Longrightarrow> preserves inv (attempt m)"
  unfolding attempt_def by (intro keep.guar_rules)

lemma sum_step:
  "(\<And>e. preserves inv (f e)) \<Longrightarrow> (\<And>a. preserves inv (h a)) \<Longrightarrow> preserves inv (case v of Inl e \<Rightarrow> f e | Inr a \<Rightarrow> h a)"
  by (cases v) simp_all

lemma answer_step:
  "(\<And>s. preserves inv (f s)) \<Longrightarrow> (\<And>ty. preserves inv (h ty)) \<Longrightarrow>
     preserves inv (case v of SettlementAnswer s \<Rightarrow> f s | NotARecord ty \<Rightarrow> h ty)"
  by (cases v) simp_all

lemma intent_guard_step: "preserves inv m \<Longrightarrow> preserves inv (intent_guard (rt_cfg rt) (i_intent_id i) m)"
  unfolding intent_guard_def finally_do_def discard_active_def
  by (intro keep.guar_rules attempt_step active_step call_step worker_calls)

lemmas flow = keep.guar_rules attempt_step sum_step

lemma decision_time_step: "preserves inv (decision_time rt now)"
  unfolding decision_time_def by (intro flow clock_step)

lemma get_grant_status_step: "preserves inv (get_grant_status rt g)"
  unfolding get_grant_status_def by (intro flow call_step worker_calls)

lemma note_event_step: "preserves inv (note_event rt (i_intent_id i) etype p)"
  unfolding note_event_def by (intro flow call_step worker_calls)

lemma move_step: "preserves inv (move (i_intent_id i) source target a)"
  unfolding move_def by (intro call_step worker_calls)

lemma current_result_step: "preserves inv (current_result iid ds eff reasons replayed)"
  unfolding current_result_def by (intro flow call_step worker_calls)

lemma guarded_result_step: "preserves inv (guarded_result iid ds e)"
  unfolding guarded_result_def integrity_failure_def store_unavailable_def coded_result_def
  by (intro flow call_step worker_calls)

lemmas small = flow decision_time_step get_grant_status_step note_event_step move_step current_result_step guarded_result_step

lemma void_permits_step: "preserves inv (void_permits rt (i_intent_id i))"
  unfolding void_permits_def by (intro small call_step worker_calls)

lemma release_orphaned_hold_step: "it_intent_id r = i_intent_id i \<Longrightarrow> preserves inv (release_orphaned_hold r)"
  unfolding release_orphaned_hold_def by (simp only:) (intro small call_step worker_calls)

lemma stop_if_possible_step: "it_intent_id r = i_intent_id i \<Longrightarrow> preserves inv (stop_if_possible rt r reasons)"
  unfolding stop_if_possible_def by (simp only:) (intro small)

lemma stop_execution_state_step:
  "preserves inv (stop_execution_state rt (i_intent_id i) reasons ds eff release replayed detail)"
  unfolding stop_execution_state_def by (intro small void_permits_step call_step worker_calls)

lemma record_authorized_step: "preserves inv (record_authorized rt i h g aa ra recovered)"
  unfolding record_authorized_def by (intro small)

lemma settlement_refused_step: "preserves inv (settlement_refused rt (i_intent_id i) reasons ds eff detail)"
  unfolding settlement_refused_def by (rule stop_execution_state_step)

lemma back_to_unknown_step: "preserves inv (back_to_unknown (i_intent_id i) reasons)"
  unfolding back_to_unknown_def by (intro small)

lemma remain_unknown_step: "preserves inv (remain_unknown (i_intent_id i) reasons ds)"
  unfolding remain_unknown_def by (intro small back_to_unknown_step)

lemma claim_effect_step: "preserves inv k \<Longrightarrow> preserves inv (claim_effect rt (i_intent_id i) ds eff target a k)"
  unfolding claim_effect_def by (intro small settlement_refused_step)

lemma settle_finalized_step: "preserves inv (settle_finalized rt (i_intent_id i) ds s)"
  unfolding settle_finalized_def by (intro small claim_effect_step)

lemma settle_confirmed_step: "preserves inv (settle_confirmed rt (i_intent_id i) ds s)"
  unfolding settle_confirmed_def by (intro small claim_effect_step)

lemma settle_partial_step: "preserves inv (settle_partial rt (i_intent_id i) ds s)"
  unfolding settle_partial_def by (intro small claim_effect_step)

lemma settle_cancelled_step: "preserves inv (settle_cancelled rt (i_intent_id i) ds r s)"
  unfolding settle_cancelled_def by (intro small claim_effect_step void_permits_step settlement_refused_step)

lemma resubmission_blocked_step: "preserves inv (resubmission_blocked rt (i_intent_id i) target reason ds)"
  unfolding resubmission_blocked_def by (intro small)

lemmas settles =
  stop_execution_state_step settlement_refused_step back_to_unknown_step remain_unknown_step settle_finalized_step
  settle_confirmed_step settle_partial_step settle_cancelled_step resubmission_blocked_step void_permits_step

lemma record_reconciliation_step: "preserves inv (record_reconciliation rt (i_intent_id i) s)"
  unfolding record_reconciliation_def by (rule note_event_step)

lemma observe_step: "(v, verifier) \<in> set (rt_verifiers rt) \<Longrightarrow> preserves inv (observe rt verifier i r ds block)"
  unfolding observe_def Let_def
  by (intro small settles record_reconciliation_step verified answer_step) assumption

lemma grant_refusal_step: "preserves inv (grant_refusal rt g)"
  unfolding grant_refusal_def by (intro small call_step worker_calls)

lemma may_reconcile_step: "preserves inv (may_reconcile rt i g r ds)"
  unfolding may_reconcile_def Let_def by (intro small settles grant_refusal_step call_step worker_calls)

lemma refuse_step: "preserves inv (refuse rt (i_intent_id i) target a etype payload ds reasons)"
  unfolding refuse_def by (intro small)

lemma stopped_step: "preserves inv (stopped rt i reasons ds)"
  unfolding stopped_def by (intro small settles)


text \<open>What follows the adapter's answer, and an attempt whose permit was refused.\<close>

lemma after_adapter_step: "preserves inv (after_adapter rt (i_intent_id i) n until outcome)"
  unfolding after_adapter_def to_unknown_def record_ambiguous_def record_receipt_def
  by (cases outcome; simp only: adapter_outcome.case; intro small)

lemma permit_refused_step: "preserves inv (permit_refused rt i ds n e)"
  unfolding permit_refused_def Let_def by (cases e; simp only: exn.case; intro small)

text \<open>
  An attempt: what issuing establishes of a signed permit (\<open>licence\<close>) is all the adapter call
  may rely on.
\<close>

lemma attempt_submission_step:
  assumes issued: "\<And>ad r aa ra s res t. re = (ad, r, aa, ra) \<Longrightarrow> pre s \<Longrightarrow>
      issue (rt_authority rt) (from_intent i) i ad g r aa ra now s = (res, t) \<Longrightarrow>
      inv t \<and> (\<forall>signed. res = Inr signed \<longrightarrow> licence signed)"
    and called: "\<And>signed. licence signed \<Longrightarrow> preserves inv (execute_adapter rt adapter (from_intent i) signed)"
  shows "triple pre (attempt_submission rt adapter i g re ds now n) inv"
proof -
  obtain ad r aa ra where re: "re = (ad, r, aa, ra)" by (cases re)
  have transport: "preserves inv (transport rt adapter i ds n signed)" if "licence signed" for signed
    unfolding transport_def Let_def by (intro small called [OF that] after_adapter_step)
  show ?thesis unfolding attempt_submission_def re prod.case
  proof (rule triple_bindE_value [where M = "\<lambda>issued t. inv t \<and> (\<forall>signed. issued = Inr signed \<longrightarrow> licence signed)"])
    fix s res t
    assume pre: "pre s" and run: "attempt (issue (rt_authority rt) (from_intent i) i ad g r aa ra now) s = (res, t)"
    obtain x u where x: "issue (rt_authority rt) (from_intent i) i ad g r aa ra now s = (x, u)"
      by (cases "issue (rt_authority rt) (from_intent i) i ad g r aa ra now s")
    have "res = Inr x \<and> t = u" using run x by (auto simp: attempt_def op_simps split: sum.splits)
    then show "case res of Inl e \<Rightarrow> inv t | Inr issued \<Rightarrow> inv t \<and> (\<forall>signed. issued = Inr signed \<longrightarrow> licence signed)"
      using issued [OF re pre x] by simp
  next
    fix issued :: "exn + signed_permit"
    show "triple (\<lambda>t. inv t \<and> (\<forall>signed. issued = Inr signed \<longrightarrow> licence signed))
        (case issued of Inl e \<Rightarrow> permit_refused rt i ds n e | Inr signed \<Rightarrow> transport rt adapter i ds n signed) inv"
    proof (cases issued)
      case (Inl e)
      then show ?thesis using permit_refused_step by (simp add: preserves_triple)
    next
      case (Inr signed)
      then show ?thesis using transport by (auto simp: triple_def guarantees_def)
    qed
  qed
qed

text \<open>The worker's loop around a submission that preserves the invariant from a ready state.\<close>

lemma triple_step: "preserves inv m \<Longrightarrow> (\<And>s. P s \<Longrightarrow> inv s) \<Longrightarrow> triple P m inv"
  unfolding preserves_triple by (erule triple_weaken) auto

end

section \<open>The worker\<close>

locale worker = base: worker_step inv rt i + ready: worker_step "\<lambda>w. inv w \<and> ready w" rt i
  for inv :: "'v world \<Rightarrow> bool" and ready :: "'v world \<Rightarrow> bool" and rt :: "'v runtime" and i :: intent +
  fixes launched :: "'v world \<Rightarrow> bool" and g :: capability_grant and re :: reauth
  assumes absent: "inv w \<Longrightarrow> seqE (void_permits rt (i_intent_id i)) (call (permit_counts (i_intent_id i))) w = (Inr (n, k), t)
      \<Longrightarrow> \<not> k > 0 \<Longrightarrow> ready t"
    and reserved: "inv w \<Longrightarrow> move (i_intent_id i) S_AUTHORIZED S_RESERVED no_args w = (Inr True, t) \<Longrightarrow> ready t"
    and begun: "inv w \<Longrightarrow> call (begin_submission (i_intent_id i) expected k now) w = (Inr (True, a, b, n), t) \<Longrightarrow> launched t"
    and attempted: "(v, adapter) \<in> set (rt_adapters rt) \<Longrightarrow>
      triple (\<lambda>w. inv w \<and> ready w \<and> launched w) (attempt_submission rt adapter i g re ds now n) inv"
begin

definition submits :: "'v submitter \<Rightarrow> bool" where
  "submits sub \<longleftrightarrow> (\<forall>ds now. triple (\<lambda>w. inv w \<and> ready w) (sub i g ds now re) inv)"

definition reconciles :: "'v reconciler \<Rightarrow> bool" where
  "reconciles rec \<longleftrightarrow> (\<forall>inputs now ds allow block. inputs = None \<or> inputs = Some re \<longrightarrow>
     preserves inv (rec i g inputs now ds allow block))"

lemma ready_bindE:
  assumes "preserves (\<lambda>w. inv w \<and> ready w) m" and "\<And>a. triple (\<lambda>w. inv w \<and> ready w) (f a) inv"
  shows "triple (\<lambda>w. inv w \<and> ready w) (bindE m f) inv"
  by (rule triple_bindE [OF assms(1) [unfolded preserves_triple] assms(2)]) simp

lemma from_ready: "preserves inv m \<Longrightarrow> triple (\<lambda>w. inv w \<and> ready w) m inv"
  by (rule base.triple_step) simp_all

lemma begin_step:
  assumes "(v, adapter) \<in> set (rt_adapters rt)"
  shows "triple (\<lambda>w. inv w \<and> ready w)
    (bindE (call (begin_submission (i_intent_id i) expected k now)) (\<lambda>(started, attempt_limit, velocity_limit, n).
       if attempt_limit then stopped rt i r1 ds else if velocity_limit then stopped rt i r2 ds
       else if \<not> started then ret (Submitted False ds) else attempt_submission rt adapter i g re ds now n)) inv"
proof (rule triple_bindE_value [where M = "\<lambda>a w. inv w \<and> ready w \<and> (fst a \<longrightarrow> launched w)"])
  fix s r t assume s: "inv s \<and> ready s" and r: "call (begin_submission (i_intent_id i) expected k now) s = (r, t)"
  have "preserves (\<lambda>w. inv w \<and> ready w) (call (begin_submission (i_intent_id i) expected k now))"
    by (intro ready.call_step worker_calls)
  from tripleD [OF this [unfolded preserves_triple] s r] begun s r
  show "case r of Inl e \<Rightarrow> inv t | Inr a \<Rightarrow> inv t \<and> ready t \<and> (fst a \<longrightarrow> launched t)"
    by (cases r) force+
next
  fix a :: "bool \<times> bool \<times> bool \<times> int"
  have "triple (\<lambda>w. inv w \<and> ready w \<and> (fst a \<longrightarrow> launched w)) m inv" if "preserves inv m" for m :: "('v world, submission) op"
    using that by (rule base.triple_step) simp
  note held = this [OF base.stopped_step] this [OF keep.guar_ret]
  show "triple (\<lambda>w. inv w \<and> ready w \<and> (fst a \<longrightarrow> launched w)) (case a of (started, attempt_limit, velocity_limit, n) \<Rightarrow>
       if attempt_limit then stopped rt i r1 ds else if velocity_limit then stopped rt i r2 ds
       else if \<not> started then ret (Submitted False ds) else attempt_submission rt adapter i g re ds now n) inv"
    using held attempted [OF assms] by (cases a) auto
qed

lemma submit_guarded_step:
  assumes "(v, adapter) \<in> set (rt_adapters rt)"
  shows "triple (\<lambda>w. inv w \<and> ready w) (submit_guarded rt adapter i g now re) inv"
  unfolding submit_guarded_def
  by (intro begin_step [OF assms] ready_bindE triple_flow ready.clock_step ready.flow ready.get_grant_status_step
      from_ready base.stopped_step)

lemma submission_step:
  assumes "\<And>res. preserves inv (f res)" and "\<And>d ds. preserves inv (h d ds)"
  shows "preserves inv (case sub of Finished res \<Rightarrow> f res | Submitted d ds \<Rightarrow> h d ds)"
  using assms by (cases sub) simp_all

lemma submit_step:
  assumes "reconciles rec"
  shows "submits (submit rt rec)"
proof -
  have rec: "preserves inv (rec i g (Some re) now ds allow block)" for now ds allow block
    using assms by (simp add: reconciles_def)
  have "triple (\<lambda>w. inv w \<and> ready w) (submit rt rec i g ds now re) inv" for ds now
  proof (cases "map_of (rt_adapters rt) (i_venue i)")
    case (Some adapter)
    then have "(i_venue i, adapter) \<in> set (rt_adapters rt)" by (rule map_of_SomeD)
    note guarded = submit_guarded_step [OF this]
    show ?thesis unfolding submit_def Some option.case
      by (intro ready_bindE triple_flow ready.flow from_ready base.stop_execution_state_step
          triple_bindE [OF guarded] base.triple_step submission_step base.flow rec)
  qed (simp add: submit_def from_ready base.stop_execution_state_step)
  then show ?thesis by (simp add: submits_def)
qed

lemma retry_step:
  assumes "submits sub" and "inputs = None \<or> inputs = Some re"
  shows "triple (\<lambda>w. inv w \<and> ready w) (retry rt sub i g inputs now_override now ds) inv"
proof -
  have sub: "triple (\<lambda>w. inv w \<and> ready w) (sub i g ds now re) inv" for ds now
    using assms(1) unfolding submits_def by blast
  from assms(2) show ?thesis unfolding retry_def Let_def
    by (elim disjE; simp only: option.case)
      (intro ready_bindE triple_flow ready.flow ready.get_grant_status_step sub from_ready base.resubmission_blocked_step base.small)+
qed

lemma act_on_absence_step:
  assumes "submits sub" and "inputs = None \<or> inputs = Some re"
  shows "triple (\<lambda>t. inv t \<and> (\<not> snd counts > 0 \<longrightarrow> ready t))
    (act_on_absence rt sub i g inputs now_override now ds allow block counts) inv"
proof (cases "snd counts > 0")
  case True
  then show ?thesis
    by (auto simp: act_on_absence_def split: prod.splits intro!: base.triple_step base.settlement_refused_step)
next
  case False
  have "triple (\<lambda>t. inv t \<and> ready t) (if \<not> allow then
       resubmission_blocked rt (i_intent_id i) (blocked_target (blocking_reason block)) (blocking_reason block) ds
     else retry rt sub i g inputs now_override now ds) inv"
    by (intro triple_if from_ready base.resubmission_blocked_step retry_step [OF assms])
  with False show ?thesis by (cases counts) (simp add: act_on_absence_def)
qed

lemma settle_absent_step:
  assumes "submits sub" and "inputs = None \<or> inputs = Some re"
  shows "preserves inv (settle_absent rt sub i g inputs now_override now ds allow block)"
proof -
  let ?m = "seqE (void_permits rt (i_intent_id i)) (call (permit_counts (i_intent_id i)))"
  let ?f = "act_on_absence rt sub i g inputs now_override now ds allow block"
  have m: "triple inv ?m inv"
    unfolding preserves_triple [symmetric] by (intro base.small base.void_permits_step base.call_step worker_calls)
  have "triple inv (bindE ?m ?f) inv"
  proof (rule triple_bindE_value [where M = "\<lambda>a t. inv t \<and> (\<not> snd a > 0 \<longrightarrow> ready t)"])
    fix s r t assume s: "inv s" and r: "?m s = (r, t)"
    show "case r of Inl e \<Rightarrow> inv t | Inr a \<Rightarrow> inv t \<and> (\<not> snd a > 0 \<longrightarrow> ready t)"
      using tripleD [OF m s r] absent [OF s] r by (auto split: sum.splits)
  qed (rule act_on_absence_step [OF assms])
  then show ?thesis by (simp add: settle_absent_def preserves_triple seqE_def bindE_assoc)
qed

lemma judge_step:
  assumes "submits sub" and "inputs = None \<or> inputs = Some re"
  shows "preserves inv (judge rt sub i g inputs now_override now ds allow block r h s)"
proof -
  have none: "preserves inv (settle_none rt sub i g inputs now_override now ds allow block r)"
    unfolding settle_none_def Let_def by (intro base.small base.settles settle_absent_step [OF assms])
  then have "preserves inv (act_on rt sub i g inputs now_override now ds allow block r s)"
    unfolding act_on_def Let_def by (cases "st_status s") (simp_all add: base.settles)
  then show ?thesis unfolding judge_def by (intro base.small base.settles)
qed

lemma reconcile_unlocked_step:
  assumes "submits sub" and "inputs = None \<or> inputs = Some re"
  shows "preserves inv (reconcile_unlocked rt sub i g inputs now ds allow block)"
proof -
  have verifier: "preserves inv (case map_of (rt_verifiers rt) (i_venue i) of
       None \<Rightarrow> raise_exn KeyError
     | Some verifier \<Rightarrow> bindE (lift_sum lh) (\<lambda>h. bindE (observe rt verifier i r ds b) (\<lambda>seen. case seen of
         Inl res \<Rightarrow> ret res | Inr s \<Rightarrow> judge rt sub i g inputs now' t ds al b r h s)))" for r now' t al b lh
  proof (cases "map_of (rt_verifiers rt) (i_venue i)")
    case (Some verifier)
    then have "(i_venue i, verifier) \<in> set (rt_verifiers rt)" by (rule map_of_SomeD)
    then show ?thesis unfolding Some option.case by (intro base.flow base.observe_step judge_step [OF assms])
  qed (simp add: base.flow)
  show ?thesis unfolding reconcile_unlocked_def Let_def
    by (intro base.small base.call_step worker_calls base.may_reconcile_step verifier)
qed

lemma reconcile_step: "reconciles (reconcile n rt)"
proof (induction n)
  case (Suc n)
  have "preserves inv (reconcile_unlocked rt (submit rt (reconcile n rt)) i g inputs now ds allow block)"
    if "inputs = None \<or> inputs = Some re" for inputs now ds allow block
    by (rule reconcile_unlocked_step [OF submit_step [OF Suc] that])
  then show ?case unfolding reconciles_def reconcile.simps
    by (intro allI impI base.small base.intent_guard_step)
qed (simp add: reconciles_def base.flow)

lemma reconcile_preserves: "preserves inv (reconcile n rt i g (Some re) now ds allow block)"
  using reconcile_step by (simp add: reconciles_def)

lemma submit_with_step: "triple (\<lambda>w. inv w \<and> ready w) (submit_with n rt i g ds now re) inv"
  using submit_step [OF reconcile_step] unfolding submits_def submit_with_def by blast

text \<open>A reservation that went through is a ready state.\<close>

lemma reserved_step:
  assumes "preserves inv (f False)" and "triple (\<lambda>w. inv w \<and> ready w) (f True) inv"
  shows "preserves inv (bindE (move (i_intent_id i) S_AUTHORIZED S_RESERVED no_args) f)"
  unfolding preserves_triple
proof (rule triple_bindE_value [where M = "\<lambda>b t. inv t \<and> (b \<longrightarrow> ready t)"])
  fix s r t assume s: "inv s" and r: "move (i_intent_id i) S_AUTHORIZED S_RESERVED no_args s = (r, t)"
  show "case r of Inl e \<Rightarrow> inv t | Inr b \<Rightarrow> inv t \<and> (b \<longrightarrow> ready t)"
    using tripleD [OF base.move_step [unfolded preserves_triple] s r] reserved [OF s] r by (auto split: sum.splits)
next
  fix b show "triple (\<lambda>t. inv t \<and> (b \<longrightarrow> ready t)) (f b) inv"
    using assms by (cases b) (simp_all add: preserves_triple)
qed

lemma resume_authorized_step: "preserves inv (resume_authorized n rt i h g re now' now)"
proof -
  have go: "triple (\<lambda>w. inv w \<and> ready w) (case re of (ad, r, aa, ra) \<Rightarrow>
      seqE (record_authorized rt i h g aa ra True) (submit_with n rt i g ds now' re)) inv" for ds
    unfolding seqE_def by (intro triple_prod ready_bindE ready.record_authorized_step submit_with_step)
  show ?thesis unfolding resume_authorized_def Let_def
    by (intro base.small reserved_step) (use go in \<open>simp_all add: reconcile_preserves\<close>)
qed

lemma reserve_and_submit_step: "preserves inv (reserve_and_submit n rt i h g re now' now ds)"
proof -
  obtain ad r aa ra where re: "re = (ad, r, aa, ra)" by (cases re)
  have go: "triple (\<lambda>w. inv w \<and> ready w) (seqE (record_authorized rt i h g aa ra False) (submit_with n rt i g ds now' re)) inv"
    unfolding seqE_def by (intro ready_bindE ready.record_authorized_step submit_with_step)
  have res: "preserves inv (bindE (move (i_intent_id i) S_AUTHORIZED S_RESERVED no_args) (\<lambda>reserved.
      if \<not> reserved then reconcile n rt i g (Some re) now' [] True None
      else seqE (record_authorized rt i h g aa ra False) (submit_with n rt i g ds now' re)))"
    by (rule reserved_step) (use go in \<open>simp_all add: reconcile_preserves\<close>)
  show ?thesis unfolding reserve_and_submit_def re prod.case Let_def
    by (intro res [unfolded re] reconcile_preserves [unfolded re] base.small base.refuse_step base.call_step worker_calls)
qed

lemma process_step: "preserves inv (process n rt i g re now)"
proof -
  have authorize: "preserves inv (authorize n rt i h g re now' t)" for h now' t
    unfolding authorize_def Let_def by (intro base.small base.refuse_step reserve_and_submit_step)
  have dispatch: "preserves inv (dispatch n rt i h g re now' t r)" for h now' t r
    unfolding dispatch_def grant_inactive_def Let_def
    by (intro base.small authorize resume_authorized_step reconcile_preserves)
  have unlocked: "preserves inv (process_unlocked n rt i g re now t)" for t
    unfolding process_unlocked_def Let_def
    by (intro base.small preserves_bindE_value [of inv "call (register (rt_cfg rt) i _)"] base.grant_refusal_step
        base.stop_if_possible_step dispatch base.call_step worker_calls) (erule register_row_id)
  show ?thesis unfolding process_def
    by (intro base.small preserves_bindE_value [of inv "call (register (rt_cfg rt) i _)"] base.release_orphaned_hold_step
        base.intent_guard_step unlocked base.call_step worker_calls) (erule register_row_id)
qed

end

end
