(* ===== verification/Runtime_Safety.thy ===== *)
theory Runtime_Safety
  imports Runtime_Steps
begin

text \<open>
  What holds of every run of the worker, whatever the adapter, the verifier and everybody
  else do: it uses no store transaction beyond its own few, no adapter is called without a
  licence, and an intent never has two permits that can still move money.
\<close>

section \<open>The store transactions of a run\<close>

text \<open>\<open>P\<close> covers the worker, the issuer and whatever the adapters and verifiers do to the store.\<close>

definition covers :: "(store_action \<Rightarrow> bool) \<Rightarrow> 'v runtime \<Rightarrow> intent \<Rightarrow> bool" where
  "covers P rt i \<longleftrightarrow> (\<forall>a. worker_action (rt_cfg rt) i a \<or> issuing_action (rt_authority rt) i a \<longrightarrow> P a)
     \<and> (\<forall>(v, adapter) \<in> set (rt_adapters rt). \<forall>rq permit. guarantees (acts P) (adapter rq permit))
     \<and> (\<forall>(v, source) \<in> set (rt_verifiers rt). \<forall>rq. guarantees (acts P) (source rq))"

definition store_reach :: "(store_action \<Rightarrow> bool) \<Rightarrow> sys \<Rightarrow> 'v world \<Rightarrow> bool" where
  "store_reach P s0 w \<longleftrightarrow> env_ok P (w_env w) \<and> (\<exists>as. list_all P as \<and> w_sys w = run_actions as s0)"

lemma store_reach_acts: "guarantees (acts P) m \<Longrightarrow> preserves (store_reach P s0) m"
  unfolding guarantees_def store_reach_def acts_def by (metis list_all_append run_actions_simps(3))

lemma store_reach_self: "env_ok P (w_env w) \<Longrightarrow> store_reach P (w_sys w) w"
  unfolding store_reach_def by (intro conjI exI [of _ "[]"]) simp_all

lemma store_reach_update:
  "store_reach P s0 w \<Longrightarrow> w_env u = w_env w \<Longrightarrow> w_sys u = w_sys w \<Longrightarrow> store_reach P s0 u"
  by (simp add: store_reach_def)

lemma store_reach_action: "P a \<Longrightarrow> store_reach P s0 w \<Longrightarrow> store_reach P s0 (w\<lparr>w_sys := perform a (w_sys w)\<rparr>)"
  unfolding store_reach_def
  by (elim conjE exE, intro conjI) (simp, rule_tac x = "as @ [a]" in exI, simp)

lemma store_reach_disturb: "store_reach P s0 w \<Longrightarrow> store_reach P s0 (snd (disturb w))"
  by (rule store_reach_acts [OF disturb_acts, unfolded guarantees_def, rule_format])


lemma env_ok_mono: "env_ok P env \<Longrightarrow> (\<And>a. P a \<Longrightarrow> Q a) \<Longrightarrow> env_ok Q env"
proof -
  assume env: "env_ok P env" and PQ: "\<And>a. P a \<Longrightarrow> Q a"
  have "event_ok P e \<Longrightarrow> event_ok Q e" for e :: "'a event" using PQ by (cases e) simp_all
  then show "env_ok Q env" using env unfolding env_ok_def list_all_iff by fastforce
qed

text \<open>The worker with what its invariant is relative to: \<open>covers\<close> holds or nothing is claimed.\<close>

lemma execute_adapter_preserves:
  assumes "preserves I (adapter rq permit)" and "\<And>w cs. I w \<Longrightarrow> I (w\<lparr>w_calls := w_calls w @ cs\<rparr>)"
    and "\<And>w l. I w \<Longrightarrow> I (w\<lparr>w_late := l\<rparr>)" and "\<And>w n. I w \<Longrightarrow> I (w\<lparr>w_orphans := n\<rparr>)"
  shows "preserves I (execute_adapter rt adapter rq permit)"
  unfolding execute_adapter_def by (intro keep.guar_rules keep.guar_modify assms(1)) (auto intro: assms(2-4))

lemma issuer_stepI:
  assumes "\<And>w. I w \<Longrightarrow> I (snd (disturb w))"
    and "\<And>a w. issuing_action pa i a \<Longrightarrow> I w \<Longrightarrow> I (w\<lparr>w_sys := perform a (w_sys w)\<rparr>)"
  shows "issuer_step I pa i I"
proof -
  have all: "store_step I (issuing_action pa i)" by unfold_locales (fact assms)+
  show ?thesis
  proof (intro issuer_step.intro issuer_step_axioms.intro)
    show "store_step I (preparing_action pa i)" by unfold_locales (auto intro: assms preparing_issuing)
    show "triple I (call (record_execution_permit pid i g epoch fence h expires now)) I" for pid g epoch fence h expires now
      unfolding preserves_triple [symmetric]
      by (rule store_step.call_step [OF all], rule performsI, rule perform.simps, simp)
  qed
qed

interpretation privileged_issuer: issuer_step "\<lambda>w. covers P rt i \<longrightarrow> store_reach P s0 w" "rt_authority rt" i
    "\<lambda>w. covers P rt i \<longrightarrow> store_reach P s0 w"
  by (rule issuer_stepI) (auto simp: covers_def intro: store_reach_disturb store_reach_action)

interpretation privileged_step: worker_step "\<lambda>w. covers P rt i \<longrightarrow> store_reach P s0 w" rt i
proof unfold_locales
  fix v source rq assume "(v, source) \<in> set (rt_verifiers rt)"
  then show "preserves (\<lambda>w. covers P rt i \<longrightarrow> store_reach P s0 w) (source rq)"
    using store_reach_acts [of P "source rq" s0] by (auto simp: covers_def guarantees_def)
qed (auto simp: covers_def intro: store_reach_disturb store_reach_action store_reach_update)

interpretation privileged: worker "\<lambda>w. covers P rt i \<longrightarrow> store_reach P s0 w" "\<lambda>w. True" rt i "\<lambda>w. True" g re
proof (intro worker.intro worker_axioms.intro)
  let ?inv = "\<lambda>w. covers P rt i \<longrightarrow> store_reach P s0 w"
  show "worker_step ?inv rt i" by (fact privileged_step.worker_step_axioms)
  then show "worker_step (\<lambda>w. ?inv w \<and> True) rt i" by simp
  fix v adapter ds now n assume adapter: "(v, adapter) \<in> set (rt_adapters rt)"
  have called: "preserves ?inv (execute_adapter rt adapter (from_intent i) signed)" for signed
    by (rule execute_adapter_preserves)
      (use adapter store_reach_acts [of P "adapter (from_intent i) signed" s0] in
        \<open>auto simp: covers_def guarantees_def intro: store_reach_update\<close>)
  show "triple (\<lambda>w. ?inv w \<and> True \<and> True) (attempt_submission rt adapter i g re ds now n) ?inv"
  proof (rule privileged_step.attempt_submission_step [where licence = "\<lambda>_. True"])
    fix ad r aa ra s res t
    assume "?inv s \<and> True \<and> True" "issue (rt_authority rt) (from_intent i) i ad g r aa ra now s = (res, t)"
    then show "?inv t \<and> (\<forall>signed. res = Inr signed \<longrightarrow> True)" using privileged_issuer.issue_keeps by blast
  qed (rule called)
qed simp_all

text \<open>
  C9. Least privilege. Whatever a run of \<open>process\<close> does, and whatever the environment does
  between its steps, the store it ends in is reached by the environment's transactions and
  by transactions of a short list: registration, reservation, transitions, evidence, leases,
  permits and the fence, for this one intent only. A worker never provisions or changes a
  grant, never halts or resumes a scope, never sets a cap, never rebuilds evidence, never
  clears a lease and never touches another intent's row, usage or permits.
\<close>

theorem worker_least_privilege:
  assumes "env_ok E (w_env w)"
    and "\<And>v adapter rq permit. (v, adapter) \<in> set (rt_adapters rt) \<Longrightarrow>
      guarantees (acts (\<lambda>a. E a \<or> worker_action (rt_cfg rt) i a \<or> issuing_action (rt_authority rt) i a)) (adapter rq permit)"
    and "\<And>v source rq. (v, source) \<in> set (rt_verifiers rt) \<Longrightarrow>
      guarantees (acts (\<lambda>a. E a \<or> worker_action (rt_cfg rt) i a \<or> issuing_action (rt_authority rt) i a)) (source rq)"
  shows "\<exists>as. list_all (\<lambda>a. E a \<or> worker_action (rt_cfg rt) i a \<or> issuing_action (rt_authority rt) i a) as
    \<and> w_sys (exec (process n rt i g re now) w) = run_actions as (w_sys w)"
proof -
  let ?P = "\<lambda>a. E a \<or> worker_action (rt_cfg rt) i a \<or> issuing_action (rt_authority rt) i a"
  have covers: "covers ?P rt i" using assms(2,3) by (auto simp: covers_def)
  have "env_ok ?P (w_env w)" using assms(1) by (rule env_ok_mono) simp
  then have "store_reach ?P (w_sys w) w" by (rule store_reach_self)
  then have "store_reach ?P (w_sys w) (exec (process n rt i g re now) w)"
    using privileged.process_step [of ?P rt i "w_sys w" n g re now] covers by (simp add: guarantees_def exec_def)
  then show ?thesis by (simp add: store_reach_def)
qed


section \<open>Every adapter call is licensed\<close>

text \<open>
  \<open>licensed\<close>: the call carries the canonical projection of the intent and a permit for it, and
  at some instant all three gates allowed it on inputs whose attestations were accepted.
\<close>

definition licensed :: "'v runtime \<Rightarrow> intent \<Rightarrow> capability_grant \<Rightarrow> reauth \<Rightarrow> adapter_call \<Rightarrow> bool" where
  "licensed rt i g re c = (case re of (ad, r, aa, ra) \<Rightarrow>
     ac_request c = from_intent i
     \<and> (\<exists>now. d_verdict (evaluate_authority ad) = V_ALLOW \<and> d_verdict (evaluate_capability i g now) = V_ALLOW
          \<and> d_verdict (evaluate_risk i g r now) = V_ALLOW
          \<and> pa_trust (rt_authority rt) aa K_AUTHORITY (pv_authority ad) i now = Inr (True, [])
          \<and> pa_trust (rt_authority rt) ra K_RISK (pv_risk r) i now = Inr (True, [])
          \<and> now < pm_expires_at (sp_permit (ac_permit c)))
     \<and> pm_intent_id (sp_permit (ac_permit c)) = i_intent_id i \<and> pm_grant_id (sp_permit (ac_permit c)) = g_grant_id g
     \<and> canonical_hash (c_crypto (pa_cfg (rt_authority rt))) (pv_request (from_intent i)) = Inr (pm_request_hash (sp_permit (ac_permit c)))
     \<and> pm_expires_at (sp_permit (ac_permit c)) \<le> i_expires_at i
     \<and> (is_monetary (i_primitive i) \<longrightarrow> (\<exists>a m. pm_max_amount_usd (sp_permit (ac_permit c)) = Some a
          \<and> max_order_usd (g_limits g) = Some m \<and> \<not> dle a dzero \<and> \<not> dlt m a)))"

lemma issued_licensed:
  assumes "issue (rt_authority rt) (from_intent i) i ad g r aa ra now w = (Inr signed, t)"
    and "pa_trust (rt_authority rt) = verify_ed25519_attestation L E st"
  shows "licensed rt i g (ad, r, aa, ra) \<lparr>ac_request = from_intent i, ac_permit = signed\<rparr>"
proof -
  let ?pa = "rt_authority rt"
  obtain u v epoch fence h s where iss: "issue_reasons ?pa (from_intent i) i ad g r aa ra now w = (Inr [], u)"
    "permit_expiry ?pa i g aa ra now > now"
    "mint ?pa (from_intent i) i g aa ra now (permit_expiry ?pa i g aa ra now) epoch fence = Inr signed"
    by (rule issue_InrE [OF assms(1)])
  note no = issue_reasons_NilE [OF iss(1)] and m = minted [OF iss(3)]
  have "\<exists>now. d_verdict (evaluate_authority ad) = V_ALLOW \<and> d_verdict (evaluate_capability i g now) = V_ALLOW
          \<and> d_verdict (evaluate_risk i g r now) = V_ALLOW
          \<and> pa_trust ?pa aa K_AUTHORITY (pv_authority ad) i now = Inr (True, [])
          \<and> pa_trust ?pa ra K_RISK (pv_risk r) i now = Inr (True, []) \<and> now < pm_expires_at (sp_permit signed)"
    using no(3-5) no_reasons_accepted [OF assms(2) no(6)] no_reasons_accepted [OF assms(2) no(7)] m(11) iss(2)
    by (intro exI [of _ now]) simp
  then show ?thesis
    using m(1,4,5,9,11) issue_amount_Nil [OF no(8)] permit_expiry_le(1) [of ?pa i g aa ra now] by (simp add: licensed_def)
qed

text \<open>Adapters and verifiers cannot write the runtime's history.\<close>

definition silent :: "'v runtime \<Rightarrow> bool" where
  "silent rt \<longleftrightarrow> (\<forall>(v, adapter) \<in> set (rt_adapters rt). \<forall>rq permit. guarantees (\<lambda>s t. w_calls t = w_calls s) (adapter rq permit))
     \<and> (\<forall>(v, source) \<in> set (rt_verifiers rt). \<forall>rq. guarantees (\<lambda>s t. w_calls t = w_calls s) (source rq))"

definition licensed_since :: "adapter_call list \<Rightarrow> 'v runtime \<Rightarrow> intent \<Rightarrow> capability_grant \<Rightarrow> reauth \<Rightarrow> 'v world \<Rightarrow> bool" where
  "licensed_since cs0 rt i g re w \<longleftrightarrow> (\<exists>cs. w_calls w = cs0 @ cs \<and> list_all (licensed rt i g re) cs)"

abbreviation ed25519_issuer :: "'v runtime \<Rightarrow> bool" where
  "ed25519_issuer rt \<equiv> (\<exists>L E st. pa_trust (rt_authority rt) = verify_ed25519_attestation L E st)"

lemma licensed_since_calls: "licensed_since cs0 rt i g re w \<Longrightarrow> w_calls u = w_calls w \<Longrightarrow> licensed_since cs0 rt i g re u"
  by (simp add: licensed_since_def)

lemma licensed_since_append:
  "licensed_since cs0 rt i g re w \<Longrightarrow> licensed rt i g re c \<Longrightarrow> licensed_since cs0 rt i g re (w\<lparr>w_calls := w_calls w @ [c]\<rparr>)"
  unfolding licensed_since_def by (elim exE conjE) (rule_tac x = "cs @ [c]" in exI, simp)

lemma disturb_calls: "w_calls (snd (disturb w)) = w_calls w"
  using disturb_frame [of w] by (simp add: frame_def)

lemma silent_keeps:
  assumes "silent rt \<Longrightarrow> guarantees (\<lambda>s t. w_calls t = w_calls s) m"
  shows "preserves (\<lambda>w. silent rt \<and> ed25519_issuer rt \<longrightarrow> licensed_since cs0 rt i g re w) m"
  using assms licensed_since_calls unfolding guarantees_def by blast

interpretation licensing_issuer: issuer_step "\<lambda>w. silent rt \<and> ed25519_issuer rt \<longrightarrow> licensed_since cs0 rt i g re w" "rt_authority rt" i
    "\<lambda>w. silent rt \<and> ed25519_issuer rt \<longrightarrow> licensed_since cs0 rt i g re w"
  by (rule issuer_stepI) (auto intro: licensed_since_calls simp: disturb_calls)

interpretation licensing_step: worker_step "\<lambda>w. silent rt \<and> ed25519_issuer rt \<longrightarrow> licensed_since cs0 rt i g re w" rt i
proof unfold_locales
  fix v source rq assume "(v, source) \<in> set (rt_verifiers rt)"
  then show "preserves (\<lambda>w. silent rt \<and> ed25519_issuer rt \<longrightarrow> licensed_since cs0 rt i g re w) (source rq)"
    by (intro silent_keeps) (auto simp: silent_def)
qed (auto intro: licensed_since_calls simp: disturb_calls)

interpretation licensing: worker "\<lambda>w. silent rt \<and> ed25519_issuer rt \<longrightarrow> licensed_since cs0 rt i g re w" "\<lambda>w. True" rt i "\<lambda>w. True" g re
proof (intro worker.intro worker_axioms.intro)
  let ?inv = "\<lambda>w. silent rt \<and> ed25519_issuer rt \<longrightarrow> licensed_since cs0 rt i g re w"
  show "worker_step ?inv rt i" by (fact licensing_step.worker_step_axioms)
  then show "worker_step (\<lambda>w. ?inv w \<and> True) rt i" by simp
  fix v adapter ds now n assume adapter: "(v, adapter) \<in> set (rt_adapters rt)"
  let ?licence = "\<lambda>signed. ed25519_issuer rt \<longrightarrow> licensed rt i g re \<lparr>ac_request = from_intent i, ac_permit = signed\<rparr>"
  show "triple (\<lambda>w. ?inv w \<and> True \<and> True) (attempt_submission rt adapter i g re ds now n) ?inv"
  proof (rule licensing_step.attempt_submission_step [where licence = ?licence])
    fix ad r aa ra s res t
    assume re: "re = (ad, r, aa, ra)" and s: "?inv s \<and> True \<and> True"
      and run: "issue (rt_authority rt) (from_intent i) i ad g r aa ra now s = (res, t)"
    have "?inv t" by (rule licensing_issuer.issue_keeps [OF conjunct1 [OF s] run])
    moreover have "?licence signed" if "res = Inr signed" for signed
      using issued_licensed run unfolding that re by blast
    ultimately show "?inv t \<and> (\<forall>signed. res = Inr signed \<longrightarrow> ?licence signed)" by blast
  next
    fix signed assume licence: "?licence signed"
    have adapter': "preserves ?inv (adapter (from_intent i) signed)"
      using adapter by (intro silent_keeps) (auto simp: silent_def)
    show "preserves ?inv (execute_adapter rt adapter (from_intent i) signed)"
      unfolding execute_adapter_def
      by (intro keep.guar_rules keep.guar_modify adapter')
        (use licence in \<open>auto intro: licensed_since_calls licensed_since_append\<close>)
  qed
qed simp_all


end
