(* ===== verification/Exactly_Once.thy ===== *)
theory Exactly_Once
  imports Runtime_Safety Store_Frames
begin

text \<open>
  One permit at a time: over any number of runs for an intent, with retries, crashes of the
  venue, late consumptions and every interleaving, no two permits of that intent can both
  be consumed. The one thing asked of the others is that they do not issue permits for
  this intent meanwhile, which is what the intent's lease is for.
\<close>

section \<open>The permits of an intent\<close>

definition permits_of :: "db \<Rightarrow> string \<Rightarrow> permit_row list" where
  "permits_of d iid = filter (\<lambda>p. pr_intent_id p = iid) (permits d)"

definition usable :: "permit_row \<Rightarrow> bool" where
  "usable p \<longleftrightarrow> pr_voided_at p = None"

definition unlaunched :: "db \<Rightarrow> string \<Rightarrow> bool" where
  "unlaunched d iid = (case intent_of d iid of
     None \<Rightarrow> True | Some r \<Rightarrow> it_state r \<in> set [S_PROPOSED, S_AUTHORIZED, S_RESERVED])"

text \<open>At most one permit can be, or has been, consumed; before a first attempt there is none.\<close>

definition single_permit :: "string \<Rightarrow> db \<Rightarrow> bool" where
  "single_permit iid d \<longleftrightarrow> length (filter usable (permits_of d iid)) \<le> 1 \<and> (unlaunched d iid \<longrightarrow> permits_of d iid = [])"

definition all_voided :: "string \<Rightarrow> db \<Rightarrow> bool" where
  "all_voided iid d \<longleftrightarrow> filter usable (permits_of d iid) = []"

definition all_settled :: "string \<Rightarrow> db \<Rightarrow> bool" where
  "all_settled iid d \<longleftrightarrow> list_all (\<lambda>p. pr_consumed_at p \<noteq> None \<or> pr_voided_at p \<noteq> None) (permits_of d iid)"

fun issues_for :: "string \<Rightarrow> store_action \<Rightarrow> bool" where
  "issues_for iid (RecordPermit pid i g epoch fence h expires now) \<longleftrightarrow> i_intent_id i = iid"
| "issues_for iid _ \<longleftrightarrow> False"

section \<open>What transactions do to them\<close>

fun is_record :: "store_action \<Rightarrow> bool" where
  "is_record (RecordPermit pid i g epoch fence h expires now) = True"
| "is_record a = False"

lemma permit_updates_length:
  "guarantees (same (\<lambda>d. length (permits d))) (consume_execution_permit c pid who gid v epoch fence h)"
  "guarantees (same (\<lambda>d. length (permits d))) (void_unconsumed_permits iid)"
proof -
  show "guarantees (same (\<lambda>d. length (permits d))) (void_unconsumed_permits iid)"
    unfolding void_unconsumed_permits_def by (intro same_rules) simp
  show "guarantees (same (\<lambda>d. length (permits d))) (consume_execution_permit c pid who gid v epoch fence h)"
    unfolding consume_execution_permit_def commit_consumption_def Let_def
    by (intro same_rules) (simp add: consumed_db_def)
qed

lemma perform_permits_length: "\<not> is_record a \<Longrightarrow> length (permits (db (perform a s))) = length (permits (db s))"
  by (cases a) (simp_all add: exec_same [where f = "\<lambda>d. length (permits d)"] all_same permit_updates_length)

lemma record_permits:
  "permits (db (exec (record_execution_permit pid i g epoch fence h expires now) s)) = permits (db s)
    \<or> (\<exists>p. pr_intent_id p = i_intent_id i \<and> pr_voided_at p = None
         \<and> permits (db (exec (record_execution_permit pid i g epoch fence h expires now) s)) = permits (db s) @ [p])"
  by (auto simp: record_execution_permit_def exec_def transaction_def read_db_def write_db_def store_now_def op_simps Let_def
      split: if_splits option.splits)

lemma list_all2_filter:
  "list_all2 R xs ys \<Longrightarrow> (\<And>x y. R x y \<Longrightarrow> P y = P x) \<Longrightarrow> list_all2 R (filter P xs) (filter P ys)"
  by (induction rule: list_all2_induct) auto

text \<open>Only a recording for the intent adds to its permits; the others evolve.\<close>

lemma permits_of_evolve:
  assumes "db_ok (db s)" and "\<not> issues_for iid a"
  shows "list_all2 permit_evolves (permits_of (db s) iid) (permits_of (db (perform a s)) iid)"
proof -
  let ?xs = "permits (db s)" and ?ys = "permits (db (perform a s))"
  have g: "grows permit_evolves ?xs ?ys"
    using perform_keeps [of s a] assms(1) by (simp add: keeps_def db_evolves_def)
  have new: "filter (\<lambda>p. pr_intent_id p = iid) (drop (length ?xs) ?ys) = []"
  proof (cases "is_record a")
    case True
    then obtain pid i' g' epoch fence h expires now where a: "a = RecordPermit pid i' g' epoch fence h expires now"
      by (cases a) simp_all
    then show ?thesis using assms(2) record_permits [of pid i' g' epoch fence h expires now s] by auto
  qed (simp add: perform_permits_length)
  have old: "list_all2 permit_evolves ?xs (take (length ?xs) ?ys)"
    using g by (auto simp: grows_def list_all2_conv_all_nth)
  have "pr_intent_id q = pr_intent_id p" if "permit_evolves p q" for p q
    using that by (cases p; cases q) (simp add: permit_evolves_def permit_core_def)
  then have "list_all2 permit_evolves (filter (\<lambda>p. pr_intent_id p = iid) ?xs)
      (filter (\<lambda>p. pr_intent_id p = iid) (take (length ?xs) ?ys))"
    using list_all2_filter [OF old] by metis
  moreover have "filter (\<lambda>p. pr_intent_id p = iid) ?ys
      = filter (\<lambda>p. pr_intent_id p = iid) (take (length ?xs) ?ys @ drop (length ?xs) ?ys)" by simp
  ultimately show ?thesis unfolding permits_of_def by (simp only: filter_append new append_Nil2)
qed

lemma usable_shrinks:
  "list_all2 permit_evolves ps qs \<Longrightarrow> length (filter usable qs) \<le> length (filter usable ps)"
proof (induction rule: list_all2_induct)
  case (Cons p ps q qs)
  then have "usable q \<Longrightarrow> usable p" by (auto simp: permit_evolves_def usable_def)
  with Cons show ?case by auto
qed simp

lemma settled_stays:
  "list_all2 permit_evolves ps qs \<Longrightarrow> list_all (\<lambda>p. pr_consumed_at p \<noteq> None \<or> pr_voided_at p \<noteq> None) ps \<Longrightarrow>
     list_all (\<lambda>p. pr_consumed_at p \<noteq> None \<or> pr_voided_at p \<noteq> None) qs"
  by (induction rule: list_all2_induct) (auto simp: permit_evolves_def)

text \<open>An intent that left its first states never returns to them.\<close>

lemma unlaunched_step:
  assumes "state_step\<^sup>*\<^sup>* a b" and "b \<in> set [S_PROPOSED, S_AUTHORIZED, S_RESERVED]"
  shows "a \<in> set [S_PROPOSED, S_AUTHORIZED, S_RESERVED]"
  using assms
proof (induction rule: converse_rtranclp_induct)
  case (step a c)
  then have "c \<in> set [S_PROPOSED, S_AUTHORIZED, S_RESERVED]" by blast
  with step(1) show ?case by (cases a) (auto simp: state_step_def)
qed

lemma unlaunched_before:
  assumes "db_ok (db s)" and "unlaunched (db (perform a s)) iid"
  shows "unlaunched (db s) iid"
proof (cases "intent_of (db s) iid")
  case (Some r)
  have k: "db_ok (db (perform a s))" "grows intent_evolves (intents (db s)) (intents (db (perform a s)))"
    using perform_keeps [of s a] assms(1) by (auto simp: keeps_def db_evolves_def)
  have "r \<in> set (intents (db s))" "it_intent_id r = iid" using Some find_SomeD unfolding intent_of_def by fastforce+
  then obtain q where q: "q \<in> set (intents (db (perform a s)))" "intent_evolves r q" using grows_inD [OF k(2)] by blast
  then have "intent_of (db (perform a s)) iid = Some q"
    using k(1) \<open>it_intent_id r = iid\<close> unfolding intent_of_def by (intro find_key_unique) (auto simp: db_ok_def intent_evolves_def)
  with assms(2) q(2) Some unlaunched_step [of "it_state r" "it_state q"] show ?thesis
    by (simp add: unlaunched_def intent_evolves_def)
qed (simp add: unlaunched_def)

lemma perform_keeps_single:
  assumes "db_ok (db s)" and "\<not> issues_for iid a"
  shows "single_permit iid (db s) \<Longrightarrow> single_permit iid (db (perform a s))"
    and "all_voided iid (db s) \<Longrightarrow> all_voided iid (db (perform a s))"
    and "all_settled iid (db s) \<Longrightarrow> all_settled iid (db (perform a s))"
    and "db_ok (db (perform a s))"
proof -
  note e = permits_of_evolve [OF assms]
  show "all_voided iid (db s) \<Longrightarrow> all_voided iid (db (perform a s))"
    using usable_shrinks [OF e] by (simp add: all_voided_def)
  show "all_settled iid (db s) \<Longrightarrow> all_settled iid (db (perform a s))"
    using settled_stays [OF e] by (simp add: all_settled_def)
  show "single_permit iid (db s) \<Longrightarrow> single_permit iid (db (perform a s))"
    using usable_shrinks [OF e] e unlaunched_before [OF assms(1), of a iid] unfolding single_permit_def
    by (auto dest: list_all2_lengthD)
  show "db_ok (db (perform a s))" using perform_keeps [of s a] assms(1) by (simp add: keeps_def)
qed


section \<open>The worker's invariant\<close>

text \<open>Properties of the database that survive every transaction but a recording for the intent.\<close>

definition stable :: "string \<Rightarrow> (db \<Rightarrow> bool) \<Rightarrow> bool" where
  "stable iid Q \<longleftrightarrow> (\<forall>s a. db_ok (db s) \<longrightarrow> \<not> issues_for iid a \<longrightarrow> Q (db s) \<longrightarrow> Q (db (perform a s)))"

lemma stable_properties:
  "stable iid (\<lambda>d. True)" "stable iid (all_voided iid)" "stable iid (all_settled iid)" "stable iid (\<lambda>d. \<not> unlaunched d iid)"
  "stable iid P \<Longrightarrow> stable iid Q \<Longrightarrow> stable iid (\<lambda>d. P d \<and> Q d)"
  by (auto simp: stable_def perform_keeps_single dest: unlaunched_before)

definition holds :: "string \<Rightarrow> (db \<Rightarrow> bool) \<Rightarrow> 'v world \<Rightarrow> bool" where
  "holds iid Q w \<longleftrightarrow> env_ok (\<lambda>a. \<not> issues_for iid a) (w_env w) \<and> db_ok (db (w_sys w))
     \<and> single_permit iid (db (w_sys w)) \<and> Q (db (w_sys w))"

lemma run_holds:
  assumes "stable iid Q"
  shows "list_all (\<lambda>a. \<not> issues_for iid a) as \<Longrightarrow> db_ok (db s) \<and> single_permit iid (db s) \<and> Q (db s) \<Longrightarrow>
    db_ok (db (run_actions as s)) \<and> single_permit iid (db (run_actions as s)) \<and> Q (db (run_actions as s))"
proof (induction as arbitrary: s)
  case (Cons a as)
  then have "\<not> issues_for iid a" "db_ok (db s)" by simp_all
  from Cons perform_keeps_single [OF this(2,1)] assms this show ?case unfolding stable_def by simp
qed simp

lemma acts_holds:
  fixes m :: "('a world, 'b) op"
  assumes "stable iid Q" and "guarantees (acts (\<lambda>a. \<not> issues_for iid a)) m"
  shows "preserves (holds iid Q) m"
proof (rule guaranteesI, rule impI)
  fix s :: "'a world" assume s: "holds iid Q s"
  then obtain as where "list_all (\<lambda>a. \<not> issues_for iid a) as" "w_sys (snd (m s)) = run_actions as (w_sys s)"
    "env_ok (\<lambda>a. \<not> issues_for iid a) (w_env (snd (m s)))"
    using assms(2) by (auto simp: guarantees_def acts_def holds_def)
  with run_holds [OF assms(1)] s show "holds iid Q (snd (m s))" unfolding holds_def by metis
qed

lemma holds_steps:
  assumes "stable iid Q" and "holds iid Q w"
  shows "holds iid Q (snd (disturb w))" and "\<not> issues_for iid a \<Longrightarrow> holds iid Q (w\<lparr>w_sys := perform a (w_sys w)\<rparr>)"
    and "holds iid Q (w\<lparr>w_active := xs\<rparr>)" and "holds iid Q (w\<lparr>w_calls := cs\<rparr>)" and "holds iid Q (w\<lparr>w_late := l\<rparr>)"
    and "holds iid Q (w\<lparr>w_orphans := k\<rparr>)"
proof -
  show "holds iid Q (snd (disturb w))"
    using acts_holds [OF assms(1) disturb_acts] assms(2) unfolding guarantees_def by blast
  show "\<not> issues_for iid a \<Longrightarrow> holds iid Q (w\<lparr>w_sys := perform a (w_sys w)\<rparr>)"
    using run_holds [OF assms(1), of "[a]" "w_sys w"] assms(2) by (simp add: holds_def)
qed (use assms(2) in \<open>simp_all add: holds_def\<close>)

lemma own_actions_do_not_issue:
  "worker_action c i a \<Longrightarrow> \<not> issues_for iid a" "preparing_action pa i a \<Longrightarrow> \<not> issues_for iid a"
  by (cases a; simp)+

text \<open>Adapters and verifiers issue no permits; the venue may consume.\<close>

definition sole_issuer :: "'v runtime \<Rightarrow> string \<Rightarrow> bool" where
  "sole_issuer rt iid \<longleftrightarrow>
     (\<forall>(v, adapter) \<in> set (rt_adapters rt). \<forall>rq permit. guarantees (acts (\<lambda>a. \<not> issues_for iid a)) (adapter rq permit))
     \<and> (\<forall>(v, source) \<in> set (rt_verifiers rt). \<forall>rq. guarantees (acts (\<lambda>a. \<not> issues_for iid a)) (source rq))"

lemma holds_worker_step:
  assumes "stable (i_intent_id i) Q"
  shows "worker_step (\<lambda>w. sole_issuer rt (i_intent_id i) \<longrightarrow> holds (i_intent_id i) Q w) rt i"
proof unfold_locales
  fix v source rq assume "(v, source) \<in> set (rt_verifiers rt)"
  then show "preserves (\<lambda>w. sole_issuer rt (i_intent_id i) \<longrightarrow> holds (i_intent_id i) Q w) (source rq)"
    using acts_holds [OF assms, of "source rq"] by (auto simp: sole_issuer_def guarantees_def)
next
  fix w show "sole_issuer rt (i_intent_id i) \<longrightarrow> holds (i_intent_id i) Q w \<Longrightarrow>
      sole_issuer rt (i_intent_id i) \<longrightarrow> holds (i_intent_id i) Q (snd (disturb w))" and
    "sole_issuer rt (i_intent_id i) \<longrightarrow> holds (i_intent_id i) Q w \<Longrightarrow>
      sole_issuer rt (i_intent_id i) \<longrightarrow> holds (i_intent_id i) Q (w\<lparr>w_active := xs\<rparr>)" for xs
    using holds_steps(1,3) [OF assms] by blast+
next
  fix a w assume "worker_action (rt_cfg rt) i a"
  then show "sole_issuer rt (i_intent_id i) \<longrightarrow> holds (i_intent_id i) Q w \<Longrightarrow>
      sole_issuer rt (i_intent_id i) \<longrightarrow> holds (i_intent_id i) Q (w\<lparr>w_sys := perform a (w_sys w)\<rparr>)"
    using holds_steps(2) [OF assms _ own_actions_do_not_issue(1)] by blast
qed

lemma records_once:
  assumes "holds iid (\<lambda>d. all_voided iid d \<and> \<not> unlaunched d iid) w" and "iid = i_intent_id i"
  shows "holds iid (\<lambda>d. True) (w\<lparr>w_sys := exec (record_execution_permit pid i g epoch fence h expires now) (w_sys w)\<rparr>)"
proof -
  let ?m = "record_execution_permit pid i g epoch fence h expires now" and ?a = "RecordPermit pid i g epoch fence h expires now"
  let ?d = "db (w_sys w)" and ?e = "db (exec ?m (w_sys w))"
  have d: "db_ok ?d" "all_voided iid ?d" "\<not> unlaunched ?d iid" using assms(1) by (simp_all add: holds_def)
  have "db_ok ?e" using perform_keeps [of "w_sys w" ?a] d(1) by (simp add: keeps_def)
  moreover have "\<not> unlaunched ?e iid" using unlaunched_before [of "w_sys w" ?a iid] d(1,3) by auto
  moreover have "length (filter usable (permits_of ?e iid)) \<le> 1"
    using record_permits [of pid i g epoch fence h expires now "w_sys w"] d(2) assms(2)
    by (auto simp: all_voided_def permits_of_def)
  ultimately show ?thesis using assms(1) by (simp add: holds_def single_permit_def)
qed


section \<open>What makes a retry safe\<close>

lemma voided_all_settled:
  assumes "void_unconsumed_permits iid s = (Inr n, t)"
  shows "all_settled iid (db t)"
proof -
  have "db t = (db s)\<lparr>permits := upd (voidable iid) (\<lambda>p. p\<lparr>pr_voided_at := Some (wall s)\<rparr>) (permits (db s))\<rparr>"
    using assms by (auto simp: void_unconsumed_permits_def transaction_def read_db_def write_db_def store_now_def op_simps)
  then have "\<forall>p \<in> set (permits (db t)). pr_intent_id p = iid \<longrightarrow> pr_consumed_at p \<noteq> None \<or> pr_voided_at p \<noteq> None"
    by (simp add: ball_upd voidable_def)
  then show ?thesis by (simp add: all_settled_def permits_of_def list_all_iff)
qed

lemma settled_unconsumed_voided:
  assumes "all_settled iid (db s)" and "permit_counts iid s = (Inr (n, k), t)" and "\<not> k > 0"
  shows "all_voided iid (db t)"
proof -
  have "k = int (length (filter (\<lambda>p. pr_consumed_at p \<noteq> None) (permits_of (db s) iid)))" and t: "t = s"
    using assms(2) by (auto simp: permit_counts_def read_db_def gets_def Let_def permits_of_def)
  with assms(3) have "filter (\<lambda>p. pr_consumed_at p \<noteq> None) (permits_of (db s) iid) = []" by simp
  with assms(1) show ?thesis
    unfolding all_settled_def all_voided_def usable_def t list_all_iff filter_empty_conv by blast
qed

lemma transition_target:
  assumes "transition iid expected st a s = (Inr True, t)"
  shows "\<exists>r. intent_of (db t) iid = Some r \<and> it_state r = st"
proof -
  obtain r now where r: "intent_of (db s) iid = Some r"
    "intents (db t) = upd (\<lambda>q. it_intent_id q = iid) (\<lambda>_. transition_row st a now r) (intents (db s))"
    using assms
    by (auto simp: transition_def transaction_def read_db_def write_db_def store_now_def op_simps
        split: if_splits option.splits prod.splits sum.splits)
  have id: "it_intent_id r = iid" by (rule intent_of_id [OF r(1)])
  have "find (\<lambda>q. it_intent_id q = iid) (upd (\<lambda>q. it_intent_id q = iid) (\<lambda>_. transition_row st a now r) rows)
      = map_option (\<lambda>_. transition_row st a now r) (find (\<lambda>q. it_intent_id q = iid) rows)" for rows
    using id by (induction rows) (auto simp: transition_row_def)
  then show ?thesis using r by (simp add: intent_of_def transition_row_def)
qed

lemma begin_target:
  assumes "begin_submission iid expected k now s = (Inr (True, a, b, n), t)"
  shows "\<exists>r. intent_of (db t) iid = Some r \<and> it_state r = S_SUBMITTED \<and> it_submission_count r = n"
proof -
  obtain r ts m where r: "intent_of (db s) iid = Some r"
    "intents (db t) = upd (\<lambda>q. it_intent_id q = iid)
       (\<lambda>q. q\<lparr>it_state := S_SUBMITTED, it_submission_count := n, it_reason_codes := [],
              it_ambiguity_until := None, it_updated_at := ts\<rparr>) (intents (db s))"
    using assms
    by (auto simp: begin_submission_def transaction_def read_db_def write_db_def store_now_def op_simps Let_def
        split: if_splits option.splits prod.splits sum.splits)
  then show ?thesis using intent_of_id [OF r(1)] by (simp add: intent_of_def find_upd)
qed

abbreviation sole_holds :: "'v runtime \<Rightarrow> intent \<Rightarrow> (db \<Rightarrow> bool) \<Rightarrow> 'v world \<Rightarrow> bool" where
  "sole_holds rt i Q w \<equiv> sole_issuer rt (i_intent_id i) \<longrightarrow> holds (i_intent_id i) Q w"

interpretation settled_step: worker_step "sole_holds rt i (all_settled (i_intent_id i))" rt i
  by (rule holds_worker_step [OF stable_properties(3)])

interpretation sole_step: worker_step "sole_holds rt i (\<lambda>d. True)" rt i
  by (rule holds_worker_step [OF stable_properties(1)])

text \<open>Voiding, then finding nothing consumed: every permit of the intent is void for good.\<close>

lemma absent_ready:
  assumes "sole_holds rt i (\<lambda>d. True) w"
    and "seqE (void_permits rt (i_intent_id i)) (call (permit_counts (i_intent_id i))) w = (Inr (n, k), t)" and "\<not> k > 0"
    and sole: "sole_issuer rt (i_intent_id i)"
  shows "all_voided (i_intent_id i) (db (w_sys t))"
proof -
  let ?iid = "i_intent_id i" and ?S = "sole_holds rt i (all_settled (i_intent_id i))"
  obtain m u v where u: "call (void_unconsumed_permits ?iid) w = (Inr m, u)"
    and v: "(if m > 0 then note_event rt ?iid ''permits_voided'' [(''count'', PInt m)] else ret ()) u = (Inr (), v)"
    and t: "call (permit_counts ?iid) v = (Inr (n, k), t)"
    using assms(2) by (auto simp: void_permits_def inr_simps)
  have "sole_holds rt i (\<lambda>d. True) u"
    by (rule preservesD [OF sole_step.call_step assms(1) u]) (rule worker_calls)
  moreover have "all_settled ?iid (db (w_sys u))" using u by (auto simp: call_eq_Inr dest: voided_all_settled)
  ultimately have "?S u" by (simp add: holds_def)
  have "preserves ?S (if m > 0 then note_event rt ?iid ''permits_voided'' [(''count'', PInt m)] else ret ())"
    by (intro settled_step.small)
  from preservesD [OF this \<open>?S u\<close> v] have "?S v" .
  obtain x s where x: "disturb v = (Inr (), x)" "permit_counts ?iid (w_sys x) = (Inr (n, k), s)" "t = x\<lparr>w_sys := s\<rparr>"
    using t by (auto simp: call_eq_Inr)
  have "?S x" using settled_step.disturbed [OF \<open>?S v\<close>] x(1) by simp
  then have "all_settled ?iid (db (w_sys x))" using sole by (simp add: holds_def)
  from settled_unconsumed_voided [OF this x(2) assms(3)] show ?thesis by (simp add: x(3))
qed

lemma reserved_ready:
  assumes "sole_holds rt i (\<lambda>d. True) w" and "move (i_intent_id i) S_AUTHORIZED S_RESERVED no_args w = (Inr True, t)"
    and sole: "sole_issuer rt (i_intent_id i)"
  shows "all_voided (i_intent_id i) (db (w_sys t))"
proof -
  have "sole_holds rt i (\<lambda>d. True) t" by (rule preservesD [OF sole_step.move_step assms(1,2)])
  then have "single_permit (i_intent_id i) (db (w_sys t))" using sole by (simp add: holds_def)
  moreover have "unlaunched (db (w_sys t)) (i_intent_id i)"
    using assms(2) by (auto simp: move_def call_eq_Inr unlaunched_def dest!: transition_target)
  ultimately show ?thesis by (simp add: single_permit_def all_voided_def)
qed


section \<open>Every run\<close>

interpretation once_issuer: issuer_step "sole_holds rt i (\<lambda>d. all_voided (i_intent_id i) d \<and> \<not> unlaunched d (i_intent_id i))"
    "rt_authority rt" i "sole_holds rt i (\<lambda>d. True)"
proof -
  let ?iid = "i_intent_id i"
  let ?Q = "\<lambda>d. all_voided ?iid d \<and> \<not> unlaunched d ?iid"
  have stable: "stable ?iid ?Q" by (intro stable_properties)
  show "issuer_step (sole_holds rt i ?Q) (rt_authority rt) i (sole_holds rt i (\<lambda>d. True))"
  proof (intro issuer_step.intro issuer_step_axioms.intro store_step.intro)
    fix pid g epoch fence h expires now
    show "triple (sole_holds rt i ?Q) (call (record_execution_permit pid i g epoch fence h expires now)) (sole_holds rt i (\<lambda>d. True))"
      unfolding triple_def call_def
    proof (intro allI impI)
      fix w :: "'a world" assume w: "sole_holds rt i ?Q w" "sole_issuer rt ?iid"
      obtain r u where u: "disturb w = (r, u)" by (cases "disturb w")
      have Q: "holds ?iid ?Q u" using holds_steps(1) [OF stable, of w] w u by simp
      show "holds ?iid (\<lambda>d. True) (snd (seqE disturb (on_sys (record_execution_permit pid i g epoch fence h expires now)) w))"
        using records_once [OF Q refl, of pid g epoch fence h expires now] Q u
        by (cases r; cases "record_execution_permit pid i g epoch fence h expires now (w_sys u)")
          (auto simp: seqE_def bindE_def on_sys_def exec_def holds_def)
    qed
  next
    fix w show "sole_holds rt i ?Q w \<Longrightarrow> sole_holds rt i ?Q (snd (disturb w))" using holds_steps(1) [OF stable] by blast
    fix a assume "preparing_action (rt_authority rt) i a" "sole_holds rt i ?Q w"
    then show "sole_holds rt i ?Q (w\<lparr>w_sys := perform a (w_sys w)\<rparr>)"
      using holds_steps(2) [OF stable _ own_actions_do_not_issue(2)] by blast
  qed (simp add: holds_def)
qed

interpretation once: worker "sole_holds rt i (\<lambda>d. True)"
    "\<lambda>w. sole_issuer rt (i_intent_id i) \<longrightarrow> all_voided (i_intent_id i) (db (w_sys w))" rt i
    "\<lambda>w. sole_issuer rt (i_intent_id i) \<longrightarrow> \<not> unlaunched (db (w_sys w)) (i_intent_id i)" g re
proof (intro worker.intro worker_axioms.intro)
  let ?iid = "i_intent_id i" and ?inv = "sole_holds rt i (\<lambda>d. True)"
  show "worker_step ?inv rt i" by (fact sole_step.worker_step_axioms)
  have "(\<lambda>w. ?inv w \<and> (sole_issuer rt ?iid \<longrightarrow> all_voided ?iid (db (w_sys w)))) = sole_holds rt i (all_voided ?iid)"
    by (auto simp: holds_def fun_eq_iff)
  then show "worker_step (\<lambda>w. ?inv w \<and> (sole_issuer rt ?iid \<longrightarrow> all_voided ?iid (db (w_sys w)))) rt i"
    using holds_worker_step [OF stable_properties(2)] by metis
next
  fix v adapter ds now n assume adapter: "(v, adapter) \<in> set (rt_adapters rt)"
  let ?iid = "i_intent_id i" and ?inv = "sole_holds rt i (\<lambda>d. True)"
  have called: "preserves ?inv (execute_adapter rt adapter (from_intent i) signed)" for signed
  proof (rule execute_adapter_preserves)
    show "preserves ?inv (adapter (from_intent i) signed)"
      using adapter acts_holds [OF stable_properties(1), of ?iid "adapter (from_intent i) signed"]
      by (auto simp: sole_issuer_def guarantees_def)
  qed (simp_all add: holds_def)
  show "triple (\<lambda>w. ?inv w \<and> (sole_issuer rt ?iid \<longrightarrow> all_voided ?iid (db (w_sys w)))
      \<and> (sole_issuer rt ?iid \<longrightarrow> \<not> unlaunched (db (w_sys w)) ?iid)) (attempt_submission rt adapter i g re ds now n) ?inv"
  proof (rule sole_step.attempt_submission_step [where licence = "\<lambda>_. True"])
    fix ad r aa ra s res t
    assume s: "?inv s \<and> (sole_issuer rt ?iid \<longrightarrow> all_voided ?iid (db (w_sys s)))
      \<and> (sole_issuer rt ?iid \<longrightarrow> \<not> unlaunched (db (w_sys s)) ?iid)"
      and run: "issue (rt_authority rt) (from_intent i) i ad g r aa ra now s = (res, t)"
    then have "sole_holds rt i (\<lambda>d. all_voided ?iid d \<and> \<not> unlaunched d ?iid) s" by (simp add: holds_def)
    from once_issuer.issue_keeps [OF this run] show "?inv t \<and> (\<forall>signed. res = Inr signed \<longrightarrow> True)" by simp
  qed (rule called)
next
  fix w expected k now a b n t
  assume "call (begin_submission (i_intent_id i) expected k now) w = (Inr (True, a, b, n), t)"
  then show "sole_issuer rt (i_intent_id i) \<longrightarrow> \<not> unlaunched (db (w_sys t)) (i_intent_id i)"
    by (auto simp: call_eq_Inr unlaunched_def dest!: begin_target)
qed (use absent_ready reserved_ready in blast)+

text \<open>A history of an intent: any number of \<open>process\<close> and \<open>reconcile\<close> calls, one after the other.\<close>

datatype entry_call =
    Process nat capability_grant reauth "time option"
  | Reconcile nat capability_grant "reauth option" "time option"

fun enter :: "'v runtime \<Rightarrow> intent \<Rightarrow> entry_call \<Rightarrow> 'v world \<Rightarrow> 'v world" where
  "enter rt i (Process n g re now) w = exec (process n rt i g re now) w"
| "enter rt i (Reconcile n g inputs now) w = exec (reconcile n rt i g inputs now [] True None) w"

lemma consumed_usable:
  "\<forall>p \<in> set ps. pr_consumed_at p = None \<or> pr_voided_at p = None \<Longrightarrow>
     length (filter (\<lambda>p. pr_consumed_at p \<noteq> None) ps) \<le> length (filter usable ps)"
  by (induction ps) (auto simp: usable_def)

text \<open>
  C1. One economic effect per intent. Start with an intent that has no permit yet and let \<open>process\<close> and
  \<open>reconcile\<close> run for it any number of times, with any inputs, answers, faults and
  interleavings in which nobody else issues permits for it. At every point at most one of its
  permits was consumed, and as soon as one was consumed every other one is voided: a retry
  never creates a second permit that the venue could act on.
\<close>

theorem one_consumption_per_intent:
  assumes "sole_issuer rt (i_intent_id i)" and "env_ok (\<lambda>a. \<not> issues_for (i_intent_id i) a) (w_env w)"
    and "db_ok (db (w_sys w))" and "permits_of (db (w_sys w)) (i_intent_id i) = []"
  shows "length (filter (\<lambda>p. pr_consumed_at p \<noteq> None) (permits_of (db (w_sys (fold (enter rt i) calls w))) (i_intent_id i))) \<le> 1
    \<and> length (filter usable (permits_of (db (w_sys (fold (enter rt i) calls w))) (i_intent_id i))) \<le> 1"
proof -
  let ?iid = "i_intent_id i" and ?inv = "sole_holds rt i (\<lambda>d. True)"
  have step: "?inv u \<Longrightarrow> ?inv (enter rt i c u)" for c u
  proof (cases c)
    case (Process n g re now)
    then show "?inv u \<Longrightarrow> ?inv (enter rt i c u)" using once.process_step [of rt i n g re now] by (simp add: guarantees_def exec_def)
  next
    case (Reconcile n g inputs now)
    obtain re where re: "inputs = None \<or> inputs = Some re" by (cases inputs) auto
    then have "preserves ?inv (reconcile n rt i g inputs now [] True None)"
      using once.reconcile_step [of rt i g re n] unfolding once.reconciles_def by blast
    then show "?inv u \<Longrightarrow> ?inv (enter rt i c u)" using Reconcile by (simp add: guarantees_def exec_def)
  qed
  have "?inv (fold (enter rt i) calls u)" if "?inv u" for u
    using that by (induction calls arbitrary: u) (auto simp: step)
  moreover have "?inv w" using assms by (simp add: holds_def single_permit_def)
  ultimately have h: "holds ?iid (\<lambda>d. True) (fold (enter rt i) calls w)" using assms(1) by blast
  let ?ps = "permits_of (db (w_sys (fold (enter rt i) calls w))) ?iid"
  have one: "length (filter usable ?ps) \<le> 1" using h by (simp add: holds_def single_permit_def)
  have "\<forall>p \<in> set ?ps. pr_consumed_at p = None \<or> pr_voided_at p = None"
    using h by (simp add: holds_def db_ok_def permits_of_def)
  then have "length (filter (\<lambda>p. pr_consumed_at p \<noteq> None) ?ps) \<le> length (filter usable ?ps)"
    by (rule consumed_usable)
  with one show ?thesis by simp
qed

end
