(* ===== verification/Runtime_Progress.thy ===== *)
theory Runtime_Progress
  imports Exactly_Once
begin

text \<open>
  The recursion of \<open>_submit\<close> and \<open>reconcile\<close> ends. Each level uses up an entry of the interference script or, once nobody
  interferes any more, one of the submission attempts the grant allows. A fuel above the sum of the two is therefore never
  used up: whatever the model puts in the place of an exhausted fuel, the result is the same.
\<close>

section \<open>Agreement of two operations\<close>

definition agree :: "('s \<Rightarrow> bool) \<Rightarrow> ('s, 'a) op \<Rightarrow> ('s, 'a) op \<Rightarrow> bool" where
  "agree P m m' \<longleftrightarrow> (\<forall>s. P s \<longrightarrow> m s = m' s)"

lemma agree_refl: "agree P m m"
  by (simp add: agree_def)

lemma agreeD: "agree P m m' \<Longrightarrow> P s \<Longrightarrow> m s = m' s"
  by (simp add: agree_def)

lemma agree_weaken: "agree P m m' \<Longrightarrow> (\<And>s. Q s \<Longrightarrow> P s) \<Longrightarrow> agree Q m m'"
  by (simp add: agree_def)

lemma agree_bindE_value:
  assumes "\<And>s a t. P s \<Longrightarrow> m s = (Inr a, t) \<Longrightarrow> M a t" and "\<And>a. agree (M a) (f a) (f' a)"
  shows "agree P (bindE m f) (bindE m f')"
  unfolding agree_def
proof (intro allI impI)
  fix s assume "P s"
  then show "bindE m f s = bindE m f' s"
    using assms(1) [of s] agreeD [OF assms(2)] by (cases "m s") (auto simp: bindE_def split: sum.splits)
qed

lemma agree_bindE:
  assumes "preserves P m" and "\<And>a. agree P (f a) (f' a)"
  shows "agree P (bindE m f) (bindE m f')"
  by (rule agree_bindE_value [where M = "\<lambda>_. P"]) (auto intro: preservesD [OF assms(1)] assms(2))

lemma agree_seqE: "preserves P m \<Longrightarrow> agree P n n' \<Longrightarrow> agree P (seqE m n) (seqE m n')"
  unfolding seqE_def by (rule agree_bindE)

lemma agree_bindE_left: "agree P m m' \<Longrightarrow> agree P (bindE m f) (bindE m' f)"
  by (simp add: agree_def bindE_def)

lemma agree_catch: "agree P m m' \<Longrightarrow> agree P (catch m h) (catch m' h)"
  by (simp add: agree_def catch_def)

lemma agree_if: "(b \<Longrightarrow> agree P m m') \<Longrightarrow> (\<not> b \<Longrightarrow> agree P n n') \<Longrightarrow> agree P (if b then m else n) (if b then m' else n')"
  by simp

lemma agree_option:
  "agree P m m' \<Longrightarrow> (\<And>x. agree P (f x) (f' x)) \<Longrightarrow> agree P (case v of None \<Rightarrow> m | Some x \<Rightarrow> f x) (case v of None \<Rightarrow> m' | Some x \<Rightarrow> f' x)"
  by (cases v) simp_all

lemma agree_prod:
  "(\<And>x y. agree P (f x y) (f' x y)) \<Longrightarrow> agree P (case p of (x, y) \<Rightarrow> f x y) (case p of (x, y) \<Rightarrow> f' x y)"
  by (cases p) simp

lemma agree_attempt: "agree P m m' \<Longrightarrow> agree P (attempt m) (attempt m')"
  unfolding attempt_def by (intro agree_catch agree_bindE_left)

lemmas agree_rules = agree_refl agree_seqE agree_bindE agree_catch agree_if agree_option agree_prod

section \<open>What is left\<close>

text \<open>Attempts the grant still allows the intent, and interference still to come.\<close>

definition left :: "capability_grant \<Rightarrow> intent_row \<Rightarrow> 'v world \<Rightarrow> nat" where
  "left g r w = nat (max_submission_attempts (g_limits g) - it_submission_count r) + length (w_env w)"

definition below :: "intent \<Rightarrow> capability_grant \<Rightarrow> nat \<Rightarrow> 'v world \<Rightarrow> bool" where
  "below i g k w \<longleftrightarrow> db_ok (db (w_sys w)) \<and> (\<exists>r. intent_of (db (w_sys w)) (i_intent_id i) = Some r \<and> left g r w < k)"

text \<open>Steps that respect the ledgers and do not extend the script.\<close>

definition steady :: "'v world \<Rightarrow> 'v world \<Rightarrow> bool" where
  "steady s t \<longleftrightarrow> keeps (w_sys s) (w_sys t) \<and> length (w_env t) \<le> length (w_env s)"

interpretation steadying: step_preorder steady
  by unfold_locales (auto simp: steady_def intro: keeps_trans)

lemma steady_below:
  assumes "steady w t" and "below i g k w"
  shows "below i g k t"
proof -
  obtain r where r: "db_ok (db (w_sys w))" "intent_of (db (w_sys w)) (i_intent_id i) = Some r" "left g r w < k"
    using assms(2) by (auto simp: below_def)
  have ok: "db_ok (db (w_sys t))" "db_evolves (db (w_sys w)) (db (w_sys t))" using assms(1) r(1) by (auto simp: steady_def keeps_def)
  obtain q where "intent_of (db (w_sys t)) (i_intent_id i) = Some q" "intent_evolves r q"
    by (rule intent_of_evolves [OF ok(2,1) r(2)])
  with r(3) assms(1) ok(1) show ?thesis by (auto simp: below_def left_def steady_def intent_evolves_def)
qed

lemma steady_preserves: "guarantees steady m \<Longrightarrow> preserves (below i g k) m"
  unfolding guarantees_def using steady_below by blast

lemma happen_keeps: "keeps (w_sys w) (w_sys (fold happen es w))"
proof (induction es arbitrary: w)
  case (Cons e es)
  have "keeps (w_sys w) (w_sys (happen e w))" by (cases e) (simp_all add: perform_keeps)
  with Cons [of "happen e w"] show ?case by (auto intro: keeps_trans)
qed simp

lemma disturb_used: "keeps (w_sys w) (w_sys (snd (disturb w))) \<and> length (w_env (snd (disturb w))) = length (w_env w) - 1"
  using happen_keeps [of "w\<lparr>w_env := _\<rparr>"] by (auto simp: disturb_def split: list.splits)

lemma disturb_steady: "steady w (snd (disturb w))"
  using disturb_used [of w] by (simp add: steady_def)

lemma disturb_quiet: "w_env w = [] \<Longrightarrow> disturb w = (Inr (), w)"
  by (simp add: disturb_def)

lemma action_steady: "steady w (w\<lparr>w_sys := perform a (w_sys w)\<rparr>)"
  by (simp add: steady_def perform_keeps)


text \<open>
  \<open>seen\<close>: the row just read is the current one, or interference has used up an entry since. \<open>closing\<close>: the intent is being
  reconciled, or again an entry is used up.
\<close>

definition seen :: "intent \<Rightarrow> capability_grant \<Rightarrow> nat \<Rightarrow> intent_row \<Rightarrow> 'v world \<Rightarrow> bool" where
  "seen i g n r w \<longleftrightarrow> below i g n w
     \<or> below i g (Suc n) w \<and> w_env w = [] \<and> intent_of (db (w_sys w)) (i_intent_id i) = Some r"

definition closing :: "intent \<Rightarrow> capability_grant \<Rightarrow> nat \<Rightarrow> 'v world \<Rightarrow> bool" where
  "closing i g n w \<longleftrightarrow> below i g n w
     \<or> below i g (Suc n) w \<and> w_env w = [] \<and> (\<exists>r. intent_of (db (w_sys w)) (i_intent_id i) = Some r \<and> it_state r = S_RECONCILING)"

lemma below_disturb: "below i g (Suc n) w \<Longrightarrow> w_env w \<noteq> [] \<Longrightarrow> below i g n (snd (disturb w))"
proof -
  assume w: "below i g (Suc n) w" and env: "w_env w \<noteq> []"
  have "below i g n (w\<lparr>w_env := tl (w_env w)\<rparr>)" using w env by (cases "w_env w") (auto simp: below_def left_def)
  moreover have "steady (w\<lparr>w_env := tl (w_env w)\<rparr>) (snd (disturb w))" using disturb_used [of w] by (simp add: steady_def)
  ultimately show ?thesis using steady_below by blast
qed

lemma read_row_seen:
  assumes "below i g (Suc n) w" and "call (get_intent (i_intent_id i)) w = (Inr r, t)"
  shows "seen i g n r t"
proof (cases "w_env w")
  case Nil
  with assms show ?thesis by (auto simp: call_eq_Inr inr_simps disturb_quiet seen_def)
next
  case (Cons e es)
  from assms(2) have "t = snd (disturb w)" by (auto simp: call_eq_Inr inr_simps)
  with below_disturb [OF assms(1)] Cons show ?thesis by (simp add: seen_def)
qed

text \<open>The reads, and the transactions that leave every intent row alone.\<close>

fun ledger_action :: "store_action \<Rightarrow> bool" where
  "ledger_action (AddEvidence c iid etype p) = True"
| "ledger_action (VoidPermits iid) = True"
| "ledger_action _ = False"

lemma ledger_action_intents: "ledger_action a \<Longrightarrow> intents (db (perform a s)) = intents (db s)"
  by (cases a) (simp_all add: exec_same [where f = intents] all_same)

interpretation below: store_step "below i g k" "\<lambda>_. True"
  by unfold_locales (auto intro: steady_below disturb_steady action_steady)

interpretation seen: store_step "seen i g n r" "\<lambda>_. False"
proof unfold_locales
  fix w :: "'v world" assume "seen i g n r w"
  then show "seen i g n r (snd (disturb w))"
    using steady_below [OF disturb_steady, of i g n w] by (cases "w_env w") (auto simp: seen_def disturb_quiet)
qed simp

interpretation closing: store_step "closing i g n" ledger_action
proof unfold_locales
  fix w :: "'v world" assume "closing i g n w"
  then show "closing i g n (snd (disturb w))"
    using steady_below [OF disturb_steady, of i g n w] by (cases "w_env w") (auto simp: closing_def disturb_quiet)
next
  fix a and w :: "'v world" assume "ledger_action a" "closing i g n w"
  then show "closing i g n (w\<lparr>w_sys := perform a (w_sys w)\<rparr>)"
    using steady_below [OF action_steady, of i g n w a] steady_below [OF action_steady, of i g "Suc n" w a]
      ledger_action_intents [of a "w_sys w"] by (auto simp: closing_def intent_of_def)
qed

lemma ledger_calls: "performs ledger_action (add_evidence c iid etype p)" "performs ledger_action (void_unconsumed_permits iid)"
  by (rule performsI, rule perform.simps, simp)+

lemma closing_clock: "preserves (closing i g n) read_clock"
  using closing.disturbed [of i g n] by (auto simp: guarantees_def read_clock_def Let_def)

lemma closing_status: "preserves (closing i g n) (get_grant_status rt g')"
  unfolding get_grant_status_def by (intro keep.guar_rules closing.call_step worker_calls)

lemma closing_event: "preserves (closing i g n) (note_event rt iid etype p)"
  unfolding note_event_def by (intro keep.guar_rules closing.call_step ledger_calls)

lemma closing_void: "preserves (closing i g n) (void_permits rt iid)"
  unfolding void_permits_def by (intro keep.guar_rules closing.call_step ledger_calls closing_event)

lemma closing_below: "closing i g n w \<Longrightarrow> below i g (Suc n) w"
  by (auto simp: closing_def below_def)

text \<open>The attempt counter moves when a submission begins, and a reconciling intent can begin one.\<close>

lemma begin_below:
  assumes "closing i g n w"
    and "call (begin_submission (i_intent_id i) [S_RESERVED, S_RECONCILING] (max_submission_attempts (g_limits g)) now) w
      = (Inr (started, False, False, k), t)"
  shows "below i g n t"
proof (cases "below i g n w")
  case True
  have "preserves (below i g n) (call (begin_submission (i_intent_id i) [S_RESERVED, S_RECONCILING]
      (max_submission_attempts (g_limits g)) now))"
    by (rule below.call_step, rule performsI, rule perform.simps, simp)
  from preservesD [OF this True assms(2)] show ?thesis .
next
  case False
  then obtain r where r: "w_env w = []" "intent_of (db (w_sys w)) (i_intent_id i) = Some r" "it_state r = S_RECONCILING" "below i g (Suc n) w"
    using assms(1) by (auto simp: closing_def)
  obtain s where s: "begin_submission (i_intent_id i) [S_RESERVED, S_RECONCILING] (max_submission_attempts (g_limits g)) now (w_sys w)
      = (Inr (started, False, False, k), s)" "t = w\<lparr>w_sys := s\<rparr>"
    using assms(2) r(1) by (auto simp: call_eq_Inr disturb_quiet)
  have k: "started" "k = it_submission_count r + 1" "it_submission_count r < max_submission_attempts (g_limits g)"
    using s(1) r(2,3) 
    by (auto simp: begin_submission_def transaction_def read_db_def write_db_def store_now_def op_simps Let_def
        split: if_splits option.splits prod.splits sum.splits)
  have run: "begin_submission (i_intent_id i) [S_RESERVED, S_RECONCILING] (max_submission_attempts (g_limits g)) now (w_sys w)
      = (Inr (True, False, False, k), s)" using s(1) k(1) by simp
  obtain q where q: "intent_of (db s) (i_intent_id i) = Some q" "it_submission_count q = k" using begin_target [OF run] by blast
  have "db_ok (db s)" using guaranteesD [OF begin_submission_keeps run] r(4) by (simp add: keeps_def below_def)
  with q k r s(2) show ?thesis by (auto simp: below_def left_def)
qed

lemma steady_active: "steady w (w\<lparr>w_active := xs\<rparr>)" and steady_calls: "steady w (w\<lparr>w_calls := cs\<rparr>)"
  and steady_late: "steady w (w\<lparr>w_late := l\<rparr>)" and steady_orphans: "steady w (w\<lparr>w_orphans := n\<rparr>)"
  by (simp_all add: steady_def)

lemma preserves_sum:
  "(\<And>e. preserves I (f e)) \<Longrightarrow> (\<And>a. preserves I (h a)) \<Longrightarrow> preserves I (case v of Inl e \<Rightarrow> f e | Inr a \<Rightarrow> h a)"
  by (cases v) simp_all

lemma observe_recordedE:
  assumes "observe rt verifier i r ds block w = (Inr (Inr s), t)"
  obtains u x where "attempt (verifier (from_intent i)) w = (Inr (Inr (SettlementAnswer s)), u)"
    and "attempt (record_reconciliation rt (i_intent_id i) s) u = (Inr (Inr x), t)"
proof -
  obtain a u where a: "attempt (verifier (from_intent i)) w = (Inr a, u)" using assms by (auto simp: observe_def Let_def bindE_eq_Inr)
  note run = assms [unfolded observe_def Let_def bindE_Inr [where m = "attempt (verifier (from_intent i))" and s = w, OF a]]
  from run obtain s' where s': "a = Inr (SettlementAnswer s')"
    by (cases a; cases "projr a") (simp_all add: bindE_eq_Inr seqE_eq_Inr ret_eq_Inr)
  from run [unfolded s'] obtain y v where "attempt (record_reconciliation rt (i_intent_id i) s') u = (Inr y, v)"
      "(case y of Inl e \<Rightarrow> if e = EvidenceIntegrityError then raise_exn e
         else bindE (settlement_refused rt (i_intent_id i) [''SETTLEMENT_RECORD_MALFORMED''] ds (it_effect_id r) [(''type'', PStr (fst (rt_render rt e)))]) (\<lambda>res. ret (Inl res))
       | Inr x \<Rightarrow> ret (Inr s')) v = (Inr (Inr s), t)"
    by (auto simp: bindE_eq_Inr simp del: if_split)
  then show thesis using a s' that by (cases y) (auto simp: bindE_eq_Inr ret_eq_Inr raise_eq_Inr split: if_splits)
qed

interpretation below_issuer: issuer_step "below i g k" pa i "below i g k"
  by (rule issuer_stepI) (auto intro: steady_below disturb_steady action_steady)

lemma call_steady:
  assumes "performs act m"
  shows "guarantees steady (call m)"
proof (rule guaranteesI)
  fix w :: "'v world"
  have "keeps s (exec m s)" for s using assms perform_keeps unfolding performs_def by (metis keeps_refl)
  then have "steady u (snd (on_sys m u))" for u :: "'v world"
    by (cases "m (w_sys u)") (simp add: steady_def on_sys_def exec_def, metis snd_conv)
  moreover have "steady w (snd (disturb w))" by (rule disturb_steady)
  ultimately show "steady w (snd (call m w))"
    by (cases "disturb w") (auto simp: call_def seqE_def bindE_def split: sum.splits intro: steadying.step_trans)
qed

lemma clock_steady: "guarantees steady read_clock"
  by (simp add: guarantees_def read_clock_def Let_def disturb_steady)

section \<open>One level of the recursion\<close>

text \<open>Adapters and verifiers that respect the ledgers, extend no script, and, of a verifier, that only observes.\<close>

locale bounded_runtime =
  fixes rt :: "'v runtime" and i :: intent and g :: capability_grant
  assumes adapter_steady: "(v, adapter) \<in> set (rt_adapters rt) \<Longrightarrow> guarantees steady (adapter rq permit)"
    and verifier_steady: "(v, source) \<in> set (rt_verifiers rt) \<Longrightarrow> guarantees steady (source rq)"
    and verifier_observes: "(v, source) \<in> set (rt_verifiers rt) \<Longrightarrow> w_env w = [] \<Longrightarrow>
      intent_of (db (w_sys (snd (source rq w)))) (i_intent_id i) = intent_of (db (w_sys w)) (i_intent_id i)"

sublocale bounded_runtime \<subseteq> spend: worker_step "below i g k" rt i for k
  by unfold_locales
    (auto intro: steady_below disturb_steady action_steady steady_active steady_preserves verifier_steady)

context bounded_runtime
begin

lemma verifier_closing:
  assumes "(v, source) \<in> set (rt_verifiers rt)"
  shows "preserves (closing i g n) (source rq)"
proof (rule guaranteesI, rule impI)
  fix w :: "'v world" assume w: "closing i g n w"
  have "steady w (snd (source rq w))" using verifier_steady [OF assms] by (simp add: guarantees_def)
  with w steady_below [OF this] verifier_observes [OF assms, of w] show "closing i g n (snd (source rq w))"
    by (auto simp: closing_def steady_def)
qed

lemma may_reconcile_closing:
  assumes "seen i g n r w" and "may_reconcile rt i g r ds w = (Inr None, t)"
  shows "closing i g n t"
proof (cases "below i g n w")
  case True
  from preservesD [OF spend.may_reconcile_step True assms(2)] show ?thesis by (simp add: closing_def)
next
  case False
  have refusal: "preserves (seen i g n r) (grant_refusal rt g)"
    unfolding grant_refusal_def attempt_def by (intro keep.guar_rules seen.call_step worker_calls preserves_sum)
  obtain u u' where u: "call (assert_evidence_appendable (rt_cfg rt) (i_intent_id i)) w = (Inr (), u)" "grant_refusal rt g u = (Inr None, u')"
    and rest: "it_state r \<in> set [S_CONFIRMED, S_RESERVED, S_SUBMITTED, S_UNKNOWN]
      \<and> (\<exists>b. move (i_intent_id i) (it_state r) S_RECONCILING (because (durable_block r)) u' = (Inr b, t)) \<or> it_state r = S_RECONCILING \<and> t = u'"
    using assms(2) by (auto simp: may_reconcile_def Let_def inr_simps split: option.splits if_splits)
  have "seen i g n r u" using preservesD [OF seen.call_step assms(1) u(1)] worker_calls by blast
  then have seen: "seen i g n r u'" using preservesD [OF refusal _ u(2)] by blast
  show ?thesis
  proof (cases "below i g n u'")
    case True
    from rest True preservesD [OF spend.move_step True] have "below i g n t" by blast
    then show ?thesis by (simp add: closing_def)
  next
    case False
    then have quiet: "w_env u' = []" "intent_of (db (w_sys u')) (i_intent_id i) = Some r" "below i g (Suc n) u'"
      using seen by (auto simp: seen_def)
    from rest show ?thesis
    proof
      assume "it_state r = S_RECONCILING \<and> t = u'"
      with quiet show ?thesis by (auto simp: closing_def)
    next
      assume "it_state r \<in> set [S_CONFIRMED, S_RESERVED, S_SUBMITTED, S_UNKNOWN]
        \<and> (\<exists>b. move (i_intent_id i) (it_state r) S_RECONCILING (because (durable_block r)) u' = (Inr b, t))"
      then obtain b where move: "move (i_intent_id i) (it_state r) S_RECONCILING (because (durable_block r)) u' = (Inr b, t)" by blast
      obtain s where s: "transition (i_intent_id i) [it_state r] S_RECONCILING (because (durable_block r)) (w_sys u') = (Inr b, s)"
        "t = u'\<lparr>w_sys := s\<rparr>"
        using move quiet(1) by (auto simp: move_def call_eq_Inr disturb_quiet)
      have "b" using s(1) quiet(2)
        by (auto simp: transition_def transaction_def read_db_def write_db_def store_now_def op_simps
            split: if_splits option.splits prod.splits sum.splits)
      then have "transition (i_intent_id i) [it_state r] S_RECONCILING (because (durable_block r)) (w_sys u') = (Inr True, s)"
        using s(1) by simp
      from transition_target [OF this] obtain q where "intent_of (db s) (i_intent_id i) = Some q" "it_state q = S_RECONCILING" by blast
      moreover have "below i g (Suc n) t" using preservesD [OF spend.move_step quiet(3) move] .
      ultimately show ?thesis using quiet(1) s(2) by (auto simp: closing_def)
    qed
  qed
qed

lemma observe_closing:
  assumes "(v, verifier) \<in> set (rt_verifiers rt)" and "closing i g n w" and "observe rt verifier i r ds block w = (Inr (Inr s), t)"
  shows "closing i g n t"
proof -
  obtain u x where u: "attempt (verifier (from_intent i)) w = (Inr (Inr (SettlementAnswer s)), u)"
    "attempt (record_reconciliation rt (i_intent_id i) s) u = (Inr (Inr x), t)"
    by (rule observe_recordedE [OF assms(3)])
  have "preserves (closing i g n) (attempt (verifier (from_intent i)))"
    unfolding attempt_def by (intro keep.guar_rules verifier_closing [OF assms(1)])
  from preservesD [OF this assms(2) u(1)] have c: "closing i g n u" .
  have "preserves (closing i g n) (attempt (record_reconciliation rt (i_intent_id i) s))"
    unfolding attempt_def record_reconciliation_def by (intro keep.guar_rules closing_event)
  from preservesD [OF this c u(2)] show ?thesis .
qed

lemma attempt_submission_below:
  assumes "(v, adapter) \<in> set (rt_adapters rt)"
  shows "triple (below i g k) (attempt_submission rt adapter i g re ds now n) (below i g k)"
proof (rule spend.attempt_submission_step [where licence = "\<lambda>_. True"])
  show "preserves (below i g k) (execute_adapter rt adapter (from_intent i) signed)" for signed
    by (rule execute_adapter_preserves)
      (auto intro: steady_preserves adapter_steady [OF assms] steady_below steady_calls steady_late steady_orphans)
qed (auto dest: below_issuer.issue_keeps)

lemma submit_guarded_below:
  assumes "(v, adapter) \<in> set (rt_adapters rt)" and "closing i g n w"
    and "submit_guarded rt adapter i g now re w = (Inr (Submitted d ds), t)"
  shows "below i g n t"
proof -
  have clock: "preserves (closing i g n) (case now of None \<Rightarrow> read_clock | Some x \<Rightarrow> ret x)"
    by (intro keep.guar_rules closing_clock)
  obtain submit_now w1 v1 w2 started k w3 where
    w1: "(case now of None \<Rightarrow> read_clock | Some x \<Rightarrow> ret x) w = (Inr submit_now, w1)"
    and w2: "get_grant_status rt g w1 = (Inr v1, w2)"
    and w3: "call (begin_submission (i_intent_id i) [S_RESERVED, S_RECONCILING] (max_submission_attempts (g_limits g)) submit_now) w2
      = (Inr (started, False, False, k), w3)"
    and rest: "\<not> started \<and> t = w3 \<or> (\<exists>ds'. attempt_submission rt adapter i g re ds' submit_now k w3 = (Inr (Submitted d ds), t))"
    using assms(3) unfolding submit_guarded_def stopped_def
    by (auto simp: bindE_eq_Inr lift_sum_eq_Inr ret_eq_Inr split: prod.splits if_splits; blast)
  have "closing i g n w2" using preservesD [OF closing_status preservesD [OF clock assms(2) w1] w2] .
  then have "below i g n w3" using begin_below w3 by blast
  with rest show ?thesis using tripleD [OF attempt_submission_below [OF assms(1)]] by blast
qed

lemma submit_agree:
  assumes "\<And>now ds allow block. agree (below i g n) (rec i g (Some re) now ds allow block) (rec' i g (Some re) now ds allow block)"
  shows "agree (closing i g n) (submit rt rec i g ds now re) (submit rt rec' i g ds now re)"
proof (cases "map_of (rt_adapters rt) (i_venue i)")
  case (Some adapter)
  then have adapter: "(i_venue i, adapter) \<in> set (rt_adapters rt)" by (rule map_of_SomeD)
  have "agree (closing i g n)
    (bindE (submit_guarded rt adapter i g now re) (\<lambda>sub. case sub of Finished res \<Rightarrow> ret res
      | Submitted d ds' \<Rightarrow> if d then rec i g (Some re) now ds' False (Some DETERMINISTIC_FAILURE_BLOCK) else rec i g (Some re) now ds' True None))
    (bindE (submit_guarded rt adapter i g now re) (\<lambda>sub. case sub of Finished res \<Rightarrow> ret res
      | Submitted d ds' \<Rightarrow> if d then rec' i g (Some re) now ds' False (Some DETERMINISTIC_FAILURE_BLOCK) else rec' i g (Some re) now ds' True None))"
    (is "agree _ (bindE _ ?f) (bindE _ ?f')")
  proof (rule agree_bindE_value [where M = "\<lambda>sub t. \<forall>d ds. sub = Submitted d ds \<longrightarrow> below i g n t"])
    show "agree (\<lambda>t. \<forall>d ds. sub = Submitted d ds \<longrightarrow> below i g n t) (?f sub) (?f' sub)" for sub
      using assms by (cases sub) (simp_all add: agree_def)
  qed (use submit_guarded_below [OF adapter] in blast)
  note step = this
  show ?thesis unfolding submit_def Some option.case by (rule agree_bindE [OF keep.guar_gets]) (intro agree_if agree_refl step)
qed (simp add: submit_def agree_refl)

lemma judge_agree:
  assumes "\<And>ds re. agree (closing i g n) (sub i g ds now' re) (sub' i g ds now' re)"
  shows "agree (closing i g n) (judge rt sub i g inputs now' now ds allow block r h s) (judge rt sub' i g inputs now' now ds allow block r h s)"
proof -
  have "agree (closing i g n) (retry rt sub i g inputs now' now ds) (retry rt sub' i g inputs now' now ds)"
    unfolding retry_def Let_def by (intro agree_bindE agree_if agree_option agree_prod agree_refl assms closing_status keep.guar_rules)
  then have "agree (closing i g n) (settle_absent rt sub i g inputs now' now ds allow block) (settle_absent rt sub' i g inputs now' now ds allow block)"
    unfolding settle_absent_def act_on_absence_def
    by (intro agree_seqE agree_bindE agree_prod agree_if agree_refl closing_void closing.call_step worker_calls)
  then have "agree (closing i g n) (settle_none rt sub i g inputs now' now ds allow block r) (settle_none rt sub' i g inputs now' now ds allow block r)"
    unfolding settle_none_def Let_def by (intro agree_option agree_if agree_refl)
  then have "agree (closing i g n) (act_on rt sub i g inputs now' now ds allow block r s) (act_on rt sub' i g inputs now' now ds allow block r s)"
    unfolding act_on_def Let_def by (cases "st_status s") (simp_all add: agree_refl)
  then show ?thesis unfolding judge_def by (intro agree_if agree_option agree_prod agree_refl)
qed

lemma reconcile_unlocked_agree:
  assumes "\<And>ds now re. agree (closing i g n) (sub i g ds now re) (sub' i g ds now re)"
  shows "agree (below i g (Suc n)) (reconcile_unlocked rt sub i g inputs now ds allow block) (reconcile_unlocked rt sub' i g inputs now ds allow block)"
proof -
  have rest: "agree (seen i g n r)
      (bindE (may_reconcile rt i g r ds) (\<lambda>ended. case ended of Some res \<Rightarrow> ret res | None \<Rightarrow>
        (case map_of (rt_verifiers rt) (i_venue i) of None \<Rightarrow> raise_exn KeyError
         | Some verifier \<Rightarrow> bindE (lift_sum lh) (\<lambda>h. bindE (observe rt verifier i r ds b) (\<lambda>seen. case seen of
             Inl res \<Rightarrow> ret res | Inr s \<Rightarrow> judge rt sub i g inputs now' t ds al b r h s)))))
      (bindE (may_reconcile rt i g r ds) (\<lambda>ended. case ended of Some res \<Rightarrow> ret res | None \<Rightarrow>
        (case map_of (rt_verifiers rt) (i_venue i) of None \<Rightarrow> raise_exn KeyError
         | Some verifier \<Rightarrow> bindE (lift_sum lh) (\<lambda>h. bindE (observe rt verifier i r ds b) (\<lambda>seen. case seen of
             Inl res \<Rightarrow> ret res | Inr s \<Rightarrow> judge rt sub' i g inputs now' t ds al b r h s)))))" for r now' t al b lh
  proof (rule agree_bindE_value [where M = "\<lambda>ended t. ended = None \<longrightarrow> closing i g n t"])
    fix ended :: "runtime_result option"
    have "agree (closing i g n)
        (case map_of (rt_verifiers rt) (i_venue i) of None \<Rightarrow> raise_exn KeyError
         | Some verifier \<Rightarrow> bindE (lift_sum lh) (\<lambda>h. bindE (observe rt verifier i r ds b) (\<lambda>seen. case seen of
             Inl res \<Rightarrow> ret res | Inr s \<Rightarrow> judge rt sub i g inputs now' t ds al b r h s)))
        (case map_of (rt_verifiers rt) (i_venue i) of None \<Rightarrow> raise_exn KeyError
         | Some verifier \<Rightarrow> bindE (lift_sum lh) (\<lambda>h. bindE (observe rt verifier i r ds b) (\<lambda>seen. case seen of
             Inl res \<Rightarrow> ret res | Inr s \<Rightarrow> judge rt sub' i g inputs now' t ds al b r h s)))"
    proof (cases "map_of (rt_verifiers rt) (i_venue i)")
      case (Some verifier)
      then have verifier: "(i_venue i, verifier) \<in> set (rt_verifiers rt)" by (rule map_of_SomeD)
      have "agree (closing i g n)
        (bindE (observe rt verifier i r ds b) (\<lambda>seen. case seen of Inl res \<Rightarrow> ret res | Inr s \<Rightarrow> judge rt sub i g inputs now' t ds al b r h s))
        (bindE (observe rt verifier i r ds b) (\<lambda>seen. case seen of Inl res \<Rightarrow> ret res | Inr s \<Rightarrow> judge rt sub' i g inputs now' t ds al b r h s))" for h
      proof (rule agree_bindE_value [where M = "\<lambda>a t. \<forall>s. a = Inr s \<longrightarrow> closing i g n t"])
        fix a :: "runtime_result + settlement_record"
        show "agree (\<lambda>t. \<forall>s. a = Inr s \<longrightarrow> closing i g n t)
            (case a of Inl res \<Rightarrow> ret res | Inr s \<Rightarrow> judge rt sub i g inputs now' t ds al b r h s)
            (case a of Inl res \<Rightarrow> ret res | Inr s \<Rightarrow> judge rt sub' i g inputs now' t ds al b r h s)"
          using judge_agree [of n sub now' sub' inputs t ds al b r h] assms by (cases a) (simp_all add: agree_refl)
      qed (use observe_closing [OF verifier] in blast)
      note step = this
      show ?thesis unfolding Some option.case by (rule agree_bindE [OF keep.guar_lift_sum step])
    qed (simp add: agree_refl)
    then show "agree (\<lambda>t. ended = None \<longrightarrow> closing i g n t)
        (case ended of Some res \<Rightarrow> ret res | None \<Rightarrow> (case map_of (rt_verifiers rt) (i_venue i) of None \<Rightarrow> raise_exn KeyError
         | Some verifier \<Rightarrow> bindE (lift_sum lh) (\<lambda>h. bindE (observe rt verifier i r ds b) (\<lambda>seen. case seen of
             Inl res \<Rightarrow> ret res | Inr s \<Rightarrow> judge rt sub i g inputs now' t ds al b r h s))))
        (case ended of Some res \<Rightarrow> ret res | None \<Rightarrow> (case map_of (rt_verifiers rt) (i_venue i) of None \<Rightarrow> raise_exn KeyError
         | Some verifier \<Rightarrow> bindE (lift_sum lh) (\<lambda>h. bindE (observe rt verifier i r ds b) (\<lambda>seen. case seen of
             Inl res \<Rightarrow> ret res | Inr s \<Rightarrow> judge rt sub' i g inputs now' t ds al b r h s))))"
      by (cases ended) (simp_all add: agree_refl)
  qed (use may_reconcile_closing in blast)
  show ?thesis unfolding reconcile_unlocked_def Let_def
    by (rule agree_bindE [OF spend.decision_time_step], rule agree_bindE_value [where M = "seen i g n"])
      (auto intro: read_row_seen intro!: agree_if agree_refl rest)
qed

lemma guard_agree:
  fixes m m' :: "('v world, 'a) op"
  assumes "agree (below i g k) m m'"
  shows "agree (below i g k) (intent_guard (rt_cfg rt) (i_intent_id i) m) (intent_guard (rt_cfg rt) (i_intent_id i) m')"
proof -
  have run: "agree (below i g k) (finally_do (seqE (set_active xs) m) f) (finally_do (seqE (set_active xs) m') f)" for xs and f :: "('v world, unit) op"
    unfolding finally_do_def by (intro agree_bindE_left agree_attempt agree_seqE spend.active_step assms)
  show ?thesis unfolding intent_guard_def
    by (rule agree_bindE [OF keep.guar_gets], rule agree_if, rule assms) (intro agree_seqE run spend.call_step worker_calls)
qed

end

section \<open>Enough fuel\<close>

text \<open>\<open>reconcile\<close> with anything in the place of the exhausted fuel.\<close>

primrec reconcile_over :: "'v reconciler \<Rightarrow> nat \<Rightarrow> 'v runtime \<Rightarrow> 'v reconciler" where
  "reconcile_over base 0 rt = base"
| "reconcile_over base (Suc n) rt = (\<lambda>i g re now ds allow block.
     catch (intent_guard (rt_cfg rt) (i_intent_id i)
              (reconcile_unlocked rt (submit rt (reconcile_over base n rt)) i g re now ds allow block))
       (guarded_result (i_intent_id i) ds))"

lemma reconcile_as_over: "reconcile n rt = reconcile_over (reconcile 0 rt) n rt"
  by (induction n) simp_all

lemma reconcile_over_add: "reconcile_over base (n + k) rt = reconcile_over (reconcile_over base k rt) n rt"
  by (induction n) simp_all

context bounded_runtime
begin

lemma reconcile_over_agree:
  "agree (below i g n) (reconcile_over base n rt i g re now ds allow block) (reconcile_over base' n rt i g re now ds allow block)"
proof (induction n arbitrary: re now ds allow block)
  case 0
  then show ?case by (simp add: agree_def below_def)
next
  case (Suc n)
  show ?case unfolding reconcile_over.simps
    by (intro agree_catch guard_agree reconcile_unlocked_agree submit_agree Suc)
qed

lemma reconcile_agree:
  "agree (below i g n) (reconcile n rt i g re now ds allow block) (reconcile (n + k) rt i g re now ds allow block)"
  unfolding reconcile_as_over [of n] reconcile_as_over [of "n + k"] reconcile_over_add by (rule reconcile_over_agree)

lemma submission_agree:
  assumes "\<And>now ds allow block. agree P (rec i g (Some re) now ds allow block) (rec' i g (Some re) now ds allow block)"
    and "\<And>v adapter. (v, adapter) \<in> set (rt_adapters rt) \<Longrightarrow> preserves P (submit_guarded rt adapter i g now re)"
  shows "agree P (submit rt rec i g ds now re) (submit rt rec' i g ds now re)"
proof (cases "map_of (rt_adapters rt) (i_venue i)")
  case (Some adapter)
  then have "(i_venue i, adapter) \<in> set (rt_adapters rt)" by (rule map_of_SomeD)
  note guarded = assms(2) [OF this]
  have "agree P (case sub of Finished res \<Rightarrow> ret res
      | Submitted d ds' \<Rightarrow> if d then rec i g (Some re) now ds' False (Some DETERMINISTIC_FAILURE_BLOCK) else rec i g (Some re) now ds' True None)
    (case sub of Finished res \<Rightarrow> ret res
      | Submitted d ds' \<Rightarrow> if d then rec' i g (Some re) now ds' False (Some DETERMINISTIC_FAILURE_BLOCK) else rec' i g (Some re) now ds' True None)" for sub
    using assms(1) by (cases sub) (simp_all add: agree_refl)
  note step = agree_bindE [OF guarded this]
  show ?thesis unfolding submit_def Some option.case by (rule agree_bindE [OF keep.guar_gets]) (intro agree_if agree_refl step)
qed (simp add: submit_def agree_refl)

lemma submit_guarded_spends:
  assumes "(v, adapter) \<in> set (rt_adapters rt)"
  shows "preserves (below i g k) (submit_guarded rt adapter i g now re)"
  unfolding submit_guarded_def
  by (intro spend.small spend.clock_step spend.stopped_step spend.call_step worker_calls
      attempt_submission_below [OF assms, folded preserves_triple])

lemma submit_with_agree: "agree (below i g n) (submit_with n rt i g ds now re) (submit_with (n + k) rt i g ds now re)"
  unfolding submit_with_def by (intro submission_agree reconcile_agree submit_guarded_spends)

lemmas spending = spend.small spend.record_authorized_step spend.refuse_step spend.grant_refusal_step spend.call_step worker_calls

lemma dispatch_agree: "agree (below i g n) (dispatch n rt i h g re now' now r) (dispatch (n + k) rt i h g re now' now r)"
proof -
  have resume: "agree (below i g n) (resume_authorized n rt i h g re now' now) (resume_authorized (n + k) rt i h g re now' now)"
    unfolding resume_authorized_def Let_def
    by (intro agree_bindE agree_prod agree_if agree_seqE agree_refl reconcile_agree submit_with_agree spending)
  have reserve: "agree (below i g n) (reserve_and_submit n rt i h g re now' now ds) (reserve_and_submit (n + k) rt i h g re now' now ds)" for ds
    unfolding reserve_and_submit_def Let_def
    by (intro agree_bindE agree_prod agree_if agree_seqE agree_refl reconcile_agree submit_with_agree spending)
  have authorize: "agree (below i g n) (authorize n rt i h g re now' now) (authorize (n + k) rt i h g re now' now)"
    unfolding authorize_def Let_def by (intro agree_bindE agree_prod agree_if agree_refl reserve spending)
  show ?thesis unfolding dispatch_def grant_inactive_def Let_def
    by (intro agree_bindE agree_if agree_refl reconcile_agree resume authorize spending)
qed

lemma process_unlocked_agree:
  "agree (below i g n) (process_unlocked n rt i g re now t) (process_unlocked (n + k) rt i g re now t)"
  unfolding process_unlocked_def Let_def
  by (intro agree_bindE agree_seqE agree_if agree_option agree_refl dispatch_agree spending)

end

text \<open>
  What an entry needs: the intent is registered and the fuel exceeds what is left, or it is new, nobody else registers it
  meanwhile, and the fuel exceeds the attempts its grant allows.
\<close>

definition enough :: "intent \<Rightarrow> capability_grant \<Rightarrow> nat \<Rightarrow> 'v world \<Rightarrow> bool" where
  "enough i g n w \<longleftrightarrow> below i g n w
     \<or> db_ok (db (w_sys w)) \<and> intent_of (db (w_sys w)) (i_intent_id i) = None \<and> w_env w = []
       \<and> nat (max_submission_attempts (g_limits g)) < n"

lemma register_fresh:
  assumes "intent_of (db s) (i_intent_id i) = None" and "register c i h s = (Inr r, t)"
  shows "intent_of (db t) (i_intent_id i) = Some r \<and> it_submission_count r = 0"
proof -
  have "wp (register c i h) (\<lambda>res t. \<forall>r. res = Inr r \<longrightarrow> intent_of (db t) (i_intent_id i) = Some r \<and> it_submission_count r = 0) s"
    using assms(1) unfolding register_def get_intent_def
    by (auto simp: wp_simps intent_of_def find_append new_intent_row_def intro!: wp_append_evidence split: option.splits sum.splits)
  with assms(2) show ?thesis by (simp add: wp_def)
qed

lemma registered_below:
  assumes "enough i g n w" and "call (register c i h) w = (Inr r, t)"
  shows "below i g n t"
proof (cases "below i g n w")
  case True
  have "preserves (below i g n) (call (register c i h))" by (rule below.call_step, rule performsI, rule perform.simps, simp)
  from preservesD [OF this True assms(2)] show ?thesis .
next
  case False
  then have w: "db_ok (db (w_sys w))" "intent_of (db (w_sys w)) (i_intent_id i) = None" "w_env w = []"
      "nat (max_submission_attempts (g_limits g)) < n"
    using assms(1) by (auto simp: enough_def)
  obtain s where s: "register c i h (w_sys w) = (Inr r, s)" "t = w\<lparr>w_sys := s\<rparr>"
    using assms(2) w(3) by (auto simp: call_eq_Inr disturb_quiet)
  have "db_ok (db s)" using guaranteesD [OF register_keeps s(1)] w(1) by (simp add: keeps_def)
  with register_fresh [OF w(2) s(1)] w(3,4) s(2) show ?thesis by (simp add: below_def left_def)
qed

lemma enough_step:
  fixes rt :: "'v runtime"
  shows "preserves (enough i g n) (decision_time rt now)"
proof -
  have "enough i g n w \<Longrightarrow> enough i g n (snd (disturb w))" for w :: "'v world"
    using steady_below [OF disturb_steady, of i g n w] by (auto simp: enough_def disturb_quiet)
  then have "preserves (enough i g n) (read_clock :: ('v world, time) op)" by (auto simp: guarantees_def read_clock_def Let_def)
  then show ?thesis unfolding decision_time_def by (intro keep.guar_rules)
qed

context bounded_runtime
begin

lemma process_agree: "agree (enough i g n) (process n rt i g re now) (process (n + k) rt i g re now)"
  unfolding process_def
proof (rule agree_bindE [OF enough_step], rule agree_bindE [OF keep.guar_lift_sum])
  fix h t
  show "agree (enough i g n)
    (bindE (call (register (rt_cfg rt) i h)) (\<lambda>r. if is_terminal (it_state r) then seqE (release_orphaned_hold r) (ret (stored_result r [] True None))
       else catch (intent_guard (rt_cfg rt) (i_intent_id i) (process_unlocked n rt i g re now t)) (guarded_result (i_intent_id i) [])))
    (bindE (call (register (rt_cfg rt) i h)) (\<lambda>r. if is_terminal (it_state r) then seqE (release_orphaned_hold r) (ret (stored_result r [] True None))
       else catch (intent_guard (rt_cfg rt) (i_intent_id i) (process_unlocked (n + k) rt i g re now t)) (guarded_result (i_intent_id i) [])))"
    by (rule agree_bindE_value [where M = "\<lambda>_. below i g n"])
      (auto intro: registered_below intro!: agree_if agree_refl agree_catch guard_agree process_unlocked_agree)
qed

end

text \<open>
  C7. Reconciliation ends. Whatever the adapters and verifiers answer, whatever the other workers and operators do in between and
  whichever calls fail, the mutual recursion of \<open>reconcile\<close> and \<open>_submit\<close> makes fewer calls of itself than the submission attempts the
  grant still allows plus the interference still to come: with that much fuel the model's bound is never reached, since any other
  definition in the place of an exhausted fuel gives the same result and the same world.
\<close>

theorem reconcile_terminates:
  assumes "\<And>v adapter rq permit. (v, adapter) \<in> set (rt_adapters rt) \<Longrightarrow> guarantees steady (adapter rq permit)"
    and "\<And>v source rq. (v, source) \<in> set (rt_verifiers rt) \<Longrightarrow> guarantees steady (source rq)"
    and "\<And>v source rq w. (v, source) \<in> set (rt_verifiers rt) \<Longrightarrow> w_env w = [] \<Longrightarrow>
      intent_of (db (w_sys (snd (source rq w)))) (i_intent_id i) = intent_of (db (w_sys w)) (i_intent_id i)"
    and "db_ok (db (w_sys w))" and "intent_of (db (w_sys w)) (i_intent_id i) = Some r"
    and "nat (max_submission_attempts (g_limits g) - it_submission_count r) + length (w_env w) < n"
  shows "reconcile_over base n rt i g re now ds allow block w = reconcile n rt i g re now ds allow block w"
proof -
  have bounded: "bounded_runtime rt i" using assms(1-3) by unfold_locales
  have "below i g n w" using assms(4-6) by (auto simp: below_def left_def)
  then show ?thesis unfolding reconcile_as_over [of n] by (rule agreeD [OF bounded_runtime.reconcile_over_agree [OF bounded]])
qed

text \<open>
  C8. The entry point ends too: with more fuel than the attempts left and the interference to come, \<open>process\<close> gives the same result and
  the same world for every larger fuel. A new intent whose grant allows two attempts, as the reference configuration does, needs three.
\<close>

theorem process_fuel_enough:
  assumes "\<And>v adapter rq permit. (v, adapter) \<in> set (rt_adapters rt) \<Longrightarrow> guarantees steady (adapter rq permit)"
    and "\<And>v source rq. (v, source) \<in> set (rt_verifiers rt) \<Longrightarrow> guarantees steady (source rq)"
    and "\<And>v source rq w. (v, source) \<in> set (rt_verifiers rt) \<Longrightarrow> w_env w = [] \<Longrightarrow>
      intent_of (db (w_sys (snd (source rq w)))) (i_intent_id i) = intent_of (db (w_sys w)) (i_intent_id i)"
    and "enough i g n w"
  shows "process (n + k) rt i g re now w = process n rt i g re now w"
proof -
  have "bounded_runtime rt i" using assms(1-3) by unfold_locales
  then show ?thesis using bounded_runtime.process_agree agreeD assms(4) by metis
qed

end
