(* ===== verification/Adapters.thy ===== *)
theory Adapters
  imports Runtime_Steps "HOL-Library.AList"
begin

text \<open>
  \<open>faar/adapters.py\<close>: the security profile every adapter must declare, and \<open>MockVenue\<close>, the
  reference venue, as a component of the world: \<open>w_venue\<close> is its state. Its lock is a lock
  of one process and has no state here.
\<close>

section \<open>Profiles and modes\<close>

record adapter_security_profile =
  stable_intent_identity :: bool
  idempotent_submission :: bool
  stable_effect_identity :: bool
  permit_enforced :: bool
  single_use_permit_consumption :: bool

definition exactly_once_compatible :: "adapter_security_profile \<Rightarrow> bool" where
  "exactly_once_compatible p \<longleftrightarrow>
     list_all (\<lambda>b. b) [stable_intent_identity p, idempotent_submission p, stable_effect_identity p,
       permit_enforced p, single_use_permit_consumption p]"

definition REFERENCE_SAFE_PROFILE :: adapter_security_profile where
  "REFERENCE_SAFE_PROFILE =
     \<lparr>stable_intent_identity = True, idempotent_submission = True, stable_effect_identity = True,
      permit_enforced = True, single_use_permit_consumption = True\<rparr>"

datatype mock_mode =
    SUCCESS | TIMEOUT_BEFORE_EFFECT | TIMEOUT_AFTER_EFFECT | AMBIGUOUS | TIMEOUT_AFTER_ADMISSION | PARTIAL_FILL | OPEN_ORDER

record mock_venue =
  mv_permit_verifier :: permit_gateway
  mv_crypto :: crypto
  mv_name :: string
  mv_mode :: mock_mode
  mv_effects :: "(string \<times> execution_receipt) list"
  mv_execute_calls :: "(string \<times> int) list"

section \<open>MockVenue\<close>

definition UNIT_SEP :: string where
  "UNIT_SEP = [char_of (31 :: int)]"

definition venue_key :: "execution_request \<Rightarrow> string" where
  "venue_key rq = rq_principal_id rq @ UNIT_SEP @ rq_intent_id rq"

definition authorized_amount :: "execution_request \<Rightarrow> decimal option" where
  "authorized_amount rq = parse_bounded_decimal (amount_raw (rq_payload rq))"

text \<open>\<open>_receipt\<close>; an amount that is not given is the authorized one.\<close>

definition mock_receipt ::
    "mock_venue \<Rightarrow> execution_request \<Rightarrow> settlement_status \<Rightarrow> decimal option \<Rightarrow> exn + execution_receipt" where
  "mock_receipt v rq status amount =
     (case canonical_json (dict_of (rq_payload rq)) of Inl e \<Rightarrow> Inl e | Inr payload \<Rightarrow>
     (case canonical_hash (mv_crypto v) (pv_request rq) of Inl e \<Rightarrow> Inl e | Inr request_hash \<Rightarrow>
       let seed = rq_principal_id rq @ UNIT_SEP @ rq_intent_id rq @ payload;
           effect_id = ''fx_'' @ take 24 (sha256 (mv_crypto v) seed) in
       execution_receipt_init
         \<lparr>rc_effect_id = effect_id, rc_status = status, rc_evidence = [],
          rc_amount_usd = (if amount = None then authorized_amount rq else amount)\<rparr>
         (dict_of [(''venue'', PStr (mv_name v)), (''principal_id'', PStr (rq_principal_id rq)),
                   (''intent_id'', PStr (rq_intent_id rq)), (''effect_id'', PStr effect_id),
                   (''request_hash'', PStr request_hash)])))"

text \<open>\<open>(full / 2).quantize(Decimal("0.00000001"))\<close>: both steps round half to even.\<close>

definition quantize8 :: "bool \<Rightarrow> nat \<Rightarrow> int \<Rightarrow> exn + decimal" where
  "quantize8 s c e =
     (let q = (if - 8 \<le> e then c * 10 ^ nat (e + 8) else round_half_even c (nat (- 8 - e))) in
      if ndigits q > DECIMAL_PREC then Inl OtherError else Inr (DFin s q (- 8)))"

definition half_amount :: "decimal \<Rightarrow> exn + decimal" where
  "half_amount d = (case d of
     DFin s c e \<Rightarrow> (case round_coeff (c * 5) (e - 1) of (q, f) \<Rightarrow> quantize8 s q f)
   | _ \<Rightarrow> Inl OtherError)"

text \<open>The receipt of a request the venue admitted, by mode.\<close>

definition admitted_receipt :: "mock_venue \<Rightarrow> execution_request \<Rightarrow> exn + execution_receipt" where
  "admitted_receipt v rq =
     (case mv_mode v of
        PARTIAL_FILL \<Rightarrow>
          (case authorized_amount rq of
             None \<Rightarrow> mock_receipt v rq ST_PARTIALLY_FILLED None
           | Some full \<Rightarrow> (case half_amount full of Inl e \<Rightarrow> Inl e | Inr half \<Rightarrow> mock_receipt v rq ST_PARTIALLY_FILLED (Some half)))
      | OPEN_ORDER \<Rightarrow> mock_receipt v rq ST_PARTIALLY_FILLED (Some dzero)
      | _ \<Rightarrow> mock_receipt v rq ST_FINALIZED None)"

definition set_effect :: "string \<Rightarrow> execution_receipt \<Rightarrow> (mock_venue world, unit) op" where
  "set_effect key rc = modify (\<lambda>w. w\<lparr>w_venue := (w_venue w)\<lparr>mv_effects := AList.update key rc (mv_effects (w_venue w))\<rparr>\<rparr>)"

definition count_call :: "string \<Rightarrow> (mock_venue world, unit) op" where
  "count_call key = modify (\<lambda>w. w\<lparr>w_venue := (w_venue w)\<lparr>mv_execute_calls :=
     AList.update key ((case map_of (mv_execute_calls (w_venue w)) key of None \<Rightarrow> 0 | Some n \<Rightarrow> n) + 1)
       (mv_execute_calls (w_venue w))\<rparr>\<rparr>)"

text \<open>After admission: the mode decides what the venue does and what the caller sees.\<close>

definition admit :: "mock_venue \<Rightarrow> execution_request \<Rightarrow> (mock_venue world, adapter_outcome) op" where
  "admit v rq =
     (if mv_mode v = TIMEOUT_AFTER_ADMISSION
      then ret (RaisedAmbiguous ''timeout after venue admission; no effect and no record'')
      else if mv_mode v = AMBIGUOUS then ret (RaisedAmbiguous ''venue remains ambiguous'')
      else bindE (lift_sum (admitted_receipt v rq)) (\<lambda>rc.
        seqE (set_effect (venue_key rq) rc)
          (if mv_mode v = TIMEOUT_AFTER_EFFECT
           then ret (RaisedAmbiguous ''timeout after venue effect; caller must reconcile'')
           else ret (Receipt rc))))"

definition venue_execute :: "mock_venue adapter" where
  "venue_execute rq permit =
     seqE (count_call (venue_key rq))
     (bindE (gets w_venue) (\<lambda>v.
      case map_of (mv_effects v) (venue_key rq) of
        Some rc \<Rightarrow> ret (Receipt rc)
      | None \<Rightarrow>
          if mv_mode v = TIMEOUT_BEFORE_EFFECT
          then ret (RaisedAmbiguous ''timeout before venue admission; caller must reconcile before retry'')
          else bindE read_clock (\<lambda>now.
            bindE (gateway_consume (mv_permit_verifier v) permit rq now (Some (mv_name v))) (\<lambda>(ok, reasons).
              if \<not> ok then ret (RaisedDeterministic (''permit rejected:'' @ join_with '','' reasons))
              else bindE (gets w_venue) (\<lambda>v'. admit v' rq)))))"

definition complete_fill :: "execution_request \<Rightarrow> (mock_venue world, execution_receipt option) op" where
  "complete_fill rq =
     bindE (gets w_venue) (\<lambda>v. case map_of (mv_effects v) (venue_key rq) of
       None \<Rightarrow> ret None
     | Some current \<Rightarrow>
         if rc_status current = ST_CANCELLED then ret (Some current)
         else bindE (lift_sum (mock_receipt v rq ST_FINALIZED None)) (\<lambda>rc.
           seqE (set_effect (venue_key rq) rc) (ret (Some rc))))"

definition cancel_order :: "execution_request \<Rightarrow> (mock_venue world, execution_receipt option) op" where
  "cancel_order rq =
     bindE (gets w_venue) (\<lambda>v. case map_of (mv_effects v) (venue_key rq) of
       None \<Rightarrow> ret None
     | Some current \<Rightarrow>
         if rc_status current = ST_FINALIZED then ret (Some current)
         else bindE (lift_sum (mock_receipt v rq ST_CANCELLED
                (if rc_status current \<in> set [ST_PARTIALLY_FILLED, ST_CANCELLED] then rc_amount_usd current else None))) (\<lambda>rc.
           seqE (set_effect (venue_key rq) rc) (ret (Some rc))))"

definition lookup_effect :: "execution_request \<Rightarrow> (mock_venue world, execution_receipt option) op" where
  "lookup_effect rq = gets (\<lambda>w. map_of (mv_effects (w_venue w)) (venue_key rq))"

definition successful_effect_count :: "mock_venue \<Rightarrow> string \<Rightarrow> string \<Rightarrow> int" where
  "successful_effect_count v who iid = (case map_of (mv_effects v) (who @ UNIT_SEP @ iid) of
     None \<Rightarrow> 0
   | Some rc \<Rightarrow>
       if rc_status rc \<in> set [ST_CANCELLED, ST_PARTIALLY_FILLED]
          \<and> \<not> (case rc_amount_usd rc of None \<Rightarrow> False | Some a \<Rightarrow> dlt dzero a) then 0 else 1)"

definition execute_call_count :: "mock_venue \<Rightarrow> string \<Rightarrow> string \<Rightarrow> int" where
  "execute_call_count v who iid = (case map_of (mv_execute_calls v) (who @ UNIT_SEP @ iid) of None \<Rightarrow> 0 | Some n \<Rightarrow> n)"

definition set_mode :: "mock_mode \<Rightarrow> (mock_venue world, unit) op" where
  "set_mode m = modify (\<lambda>w. w\<lparr>w_venue := (w_venue w)\<lparr>mv_mode := m\<rparr>\<rparr>)"


section \<open>What the venue keeps\<close>

text \<open>Interference that leaves the venue alone while it handles a call, as its lock does.\<close>

definition venue_untouched :: "('v event list \<times> exn option) list \<Rightarrow> bool" where
  "venue_untouched env \<longleftrightarrow>
     list_all (\<lambda>(es, fault). list_all (\<lambda>e. case e of VenueStep f \<Rightarrow> False | _ \<Rightarrow> True) es) env"

lemma fold_happen_venue:
  "list_all (\<lambda>e. case e of VenueStep f \<Rightarrow> False | _ \<Rightarrow> True) es \<Longrightarrow> w_venue (fold happen es w) = w_venue w"
proof (induction es arbitrary: w)
  case (Cons e es)
  then have "w_venue (happen e w) = w_venue w" by (cases e) simp_all
  with Cons show ?case by simp
qed simp

definition at_rest :: "'v \<Rightarrow> 'v world \<Rightarrow> bool" where
  "at_rest v w \<longleftrightarrow> venue_untouched (w_env w) \<and> w_venue w = v"

interpretation at_venue: store_step "at_rest v" "\<lambda>a. True"
  by unfold_locales (auto simp: at_rest_def disturb_def venue_untouched_def fold_happen_venue split: list.splits)

lemma any_action: "performs (\<lambda>a. True) (consume_execution_permit c pid who gid ver epoch fence h)"
  by (rule performsI, rule perform.simps, simp)

lemma gateway_consume_venue:
  "preserves (at_rest v) (gateway_consume pg permit rq now venue)"
  unfolding gateway_consume_def gateway_verify_def verify_checked_def Let_def
  by (intro keep.guar_rules at_venue.call_step any_action worker_calls)

lemma read_clock_venue: "preserves (at_rest v) read_clock"
  by (simp add: guarantees_def read_clock_def Let_def at_venue.disturbed)

lemma count_call_effects [simp]:
  "mv_effects (w_venue (snd (count_call k w))) = mv_effects (w_venue w)" "w_sys (snd (count_call k w)) = w_sys w"
  "w_env (snd (count_call k w)) = w_env w" "mv_permit_verifier (w_venue (snd (count_call k w))) = mv_permit_verifier (w_venue w)"
  "mv_name (w_venue (snd (count_call k w))) = mv_name (w_venue w)"
  by (simp_all add: count_call_def modify_def)


text \<open>A call that changed the effects of the venue consumed a permit first.\<close>

lemma venue_execute_changedE:
  assumes "venue_untouched (w_env w)" and "map_of (mv_effects (w_venue w)) (venue_key rq) = None"
    and "map_of (mv_effects (w_venue (exec (venue_execute rq permit) w))) (venue_key rq) \<noteq> None"
  obtains now rs and u t :: "mock_venue world" where "gateway_consume (mv_permit_verifier (w_venue w)) permit rq now (Some (mv_name (w_venue w))) u = (Inr (True, rs), t)"
    and "w_sys (exec (venue_execute rq permit) w) = w_sys t"
proof -
  define w1 where "w1 = snd (count_call (venue_key rq) w)"
  let ?v = "w_venue w1" and ?k = "venue_key rq"
  obtain now w2 where w2: "read_clock w1 = (Inr now, w2)" by (auto simp: read_clock_def Let_def)
  have "at_rest ?v w1" using assms(1) by (simp add: at_rest_def w1_def)
  then have rest2: "at_rest ?v w2" by (rule preservesD [OF read_clock_venue _ w2])
  let ?c = "gateway_consume (mv_permit_verifier ?v) permit rq now (Some (mv_name ?v))"
  obtain r w3 where w3: "?c w2 = (r, w3)" by (cases "?c w2")
  have rest3: "at_rest ?v w3" by (rule preservesD [OF gateway_consume_venue rest2 w3])
  have run: "venue_execute rq permit w = (if mv_mode ?v = TIMEOUT_BEFORE_EFFECT
      then (Inr (RaisedAmbiguous ''timeout before venue admission; caller must reconcile before retry''), w1)
      else case r of Inl e \<Rightarrow> (Inl e, w3)
        | Inr (ok, reasons) \<Rightarrow> if \<not> ok then (Inr (RaisedDeterministic (''permit rejected:'' @ join_with '','' reasons)), w3)
            else admit ?v rq w3)"
    using assms(2) w2 w3 rest3
    by (auto simp: venue_execute_def seqE_def bindE_def count_call_def modify_def gets_def ret_def w1_def at_rest_def
        split: sum.splits prod.splits)
  have none: "map_of (mv_effects ?v) ?k = None" using assms(2) by (simp add: w1_def)
  obtain rs where r: "r = Inr (True, rs)"
    using assms(3) run none rest3
    by (auto simp: exec_def at_rest_def split: if_splits sum.splits prod.splits)
  have "w_sys (snd (admit ?v rq w3)) = w_sys w3"
    by (auto simp: admit_def set_effect_def op_simps split: sum.splits)
  moreover have "exec (venue_execute rq permit) w = snd (admit ?v rq w3)"
    using run r assms(3) none by (auto simp: exec_def split: if_splits)
  ultimately show thesis using that [of now w2 rs w3] w3 r by (simp add: w1_def)
qed

text \<open>
  C5. The reference venue creates no effect without a consumed permit. Whatever its mode, and
  also when the caller only sees a timeout or an exception: if a call left an effect for
  the request where there was none, the request is addressed to this venue, a signed permit for the hash and the identity
  of this request was verified and is consumed in the ledger, and the amount of the request is within the signed amount.
\<close>

theorem venue_effect_needs_consumed_permit:
  assumes "venue_untouched (w_env w)" and "map_of (mv_effects (w_venue w)) (venue_key rq) = None"
    and "map_of (mv_effects (w_venue (exec (venue_execute rq permit) w))) (venue_key rq) \<noteq> None"
  shows "rq_venue rq = mv_name (w_venue w)
    \<and> (\<exists>row. permit_of (db (w_sys (exec (venue_execute rq permit) w))) (pm_permit_id (sp_permit permit)) = Some row
         \<and> pr_consumed_at row \<noteq> None)
    \<and> canonical_hash (c_crypto (pg_cfg (mv_permit_verifier (w_venue w)))) (pv_request rq) = Inr (pm_request_hash (sp_permit permit))
    \<and> pm_intent_id (sp_permit permit) = rq_intent_id rq \<and> pm_principal_id (sp_permit permit) = rq_principal_id rq
    \<and> (\<forall>m. pm_max_amount_usd (sp_permit permit) = Some m \<longrightarrow>
         (\<exists>a. authorized_amount rq = Some a \<and> \<not> dle a dzero \<and> \<not> dlt m a))"
proof -
  let ?pg = "mv_permit_verifier (w_venue w)"
  obtain now rs and u t :: "mock_venue world" where c: "gateway_consume ?pg permit rq now (Some (mv_name (w_venue w))) u = (Inr (True, rs), t)"
    and t: "w_sys (exec (venue_execute rq permit) w) = w_sys t"
    by (rule venue_execute_changedE [OF assms])
  obtain rs0 x row where v: "gateway_verify ?pg permit rq now (Some (mv_name (w_venue w))) u = (Inr (True, rs0), x)"
    and row: "permit_of (db (w_sys t)) (pm_permit_id (sp_permit permit)) = Some row" "pr_consumed_at row \<noteq> None"
    by (rule gateway_consume_TrueE [OF c])
  obtain b rh where g: "Some (mv_name (w_venue w)) = Some (rq_venue rq)"
    "canonical_hash (c_crypto (pg_cfg ?pg)) (pv_request rq) = Inr rh" "static_reasons ?pg b permit rq True rh now = []"
    "envelope_reasons (sp_permit permit) (request_amount rq) = []"
    by (rule verify_True [OF v]) simp
  have amount: "\<exists>a. authorized_amount rq = Some a \<and> \<not> dle a dzero \<and> \<not> dlt m a"
    if "pm_max_amount_usd (sp_permit permit) = Some m" for m
    using envelope_reasons_Nil [OF g(4) that] by (simp add: authorized_amount_def request_amount_def)
  from row t g(1,2) static_reasons_Nil(1-3) [OF g(3)] amount show ?thesis by auto
qed

text \<open>
  C10. Retransmission is harmless: once the venue holds an effect for a request, any further
  call for it, with whatever permit, returns that receipt and changes neither the effects nor
  the permit ledger; a cancelled order is never filled afterwards and a filled one never cancelled.
\<close>

theorem venue_idempotent:
  assumes "map_of (mv_effects (w_venue w)) (venue_key rq) = Some rc"
  shows "fst (venue_execute rq permit w) = Inr (Receipt rc)
    \<and> mv_effects (w_venue (exec (venue_execute rq permit) w)) = mv_effects (w_venue w)
    \<and> w_sys (exec (venue_execute rq permit) w) = w_sys w
    \<and> (rc_status rc = ST_CANCELLED \<longrightarrow> complete_fill rq w = (Inr (Some rc), w))
    \<and> (rc_status rc = ST_FINALIZED \<longrightarrow> cancel_order rq w = (Inr (Some rc), w))"
  using assms
  by (simp add: venue_execute_def complete_fill_def cancel_order_def count_call_def exec_def op_simps)

end
