(* ===== verification/Paper.thy ===== *)
theory Paper
  imports Adapters
begin

text \<open>
  \<open>faar/paper.py\<close>: the paper trading venue, as a component of the world like \<open>MockVenue\<close>. It holds balances, prices and one
  receipt per principal and intent. \<open>DeterministicFailure\<close> is a value here (the left side of a sum, with its text), because
  the venue itself catches it; every other exception is one of the operation. \<open>pt_render\<close> is \<open>str\<close> of a payload value
  that is neither a text nor an integer. The lock has no state.
\<close>

section \<open>Decimal division and comparison\<close>

text \<open>
  Division in the default context: 29 or 30 digits of the quotient, a digit that keeps an inexact result off the tie, the
  ideal exponent where the result is exact, rounding to 28 digits. A finite number over an infinity is the smallest zero.
\<close>

function strip_zeros :: "nat \<Rightarrow> int \<Rightarrow> int \<Rightarrow> nat \<times> int" where
  "strip_zeros c e ideal = (if e < ideal \<and> c mod 10 = 0 then strip_zeros (c div 10) (e + 1) ideal else (c, e))"
  by pat_completeness auto

termination
  by (relation "measure (\<lambda>(c, e, ideal). nat (ideal - e))") auto

declare strip_zeros.simps [simp del]

definition divide_coeff :: "nat \<Rightarrow> int \<Rightarrow> nat \<Rightarrow> int \<Rightarrow> nat \<times> int" where
  "divide_coeff c e c' e' =
     (if c = 0 then (0, e - e')
      else let shift = int (ndigits c') - int (ndigits c) + int DECIMAL_PREC + 1;
               x = e - e' - shift;
               num = (if shift \<ge> 0 then c * 10 ^ nat shift else c);
               den = (if shift \<ge> 0 then c' else c' * 10 ^ nat (- shift));
               q = num div den in
           if num mod den \<noteq> 0 then (if q mod 5 = 0 then q + 1 else q, x) else strip_zeros q x (e - e'))"

definition ETINY :: int where
  "ETINY = - 1000026"

fun dec_div :: "decimal \<Rightarrow> decimal \<Rightarrow> exn + decimal" where
  "dec_div (DFin s c e) (DFin s' c' e') =
     (if c' = 0 then Inl OtherError
      else case divide_coeff c e c' e' of (q, x) \<Rightarrow> (case round_coeff q x of (q', x') \<Rightarrow> Inr (DFin (s \<noteq> s') q' x')))"
| "dec_div (DFin s c e) (DInf s') = Inr (DFin (s \<noteq> s') 0 ETINY)"
| "dec_div (DInf s) (DFin s' c e) = Inr (DInf (s \<noteq> s'))"
| "dec_div x y = Inl OtherError"

text \<open>\<open>x < y\<close>; a comparison with a NaN raises.\<close>

fun dec_less :: "decimal \<Rightarrow> decimal \<Rightarrow> exn + bool" where
  "dec_less DNaN y = Inl OtherError"
| "dec_less x DNaN = Inl OtherError"
| "dec_less (DInf s) (DInf s') = Inr (s \<and> \<not> s')"
| "dec_less (DInf s) y = Inr s"
| "dec_less x (DInf s) = Inr (\<not> s)"
| "dec_less x y = Inr (dlt x y)"

fun dec_neg :: "decimal \<Rightarrow> decimal" where
  "dec_neg (DFin s c e) = DFin (\<not> s) c e"
| "dec_neg (DInf s) = DInf (\<not> s)"
| "dec_neg DNaN = DNaN"

section \<open>The venue\<close>

record paper_venue =
  pt_name :: string
  pt_prices_usd :: "(string \<times> decimal) list"
  pt_permit_verifier :: permit_gateway
  pt_crypto :: crypto
  pt_balances :: "(string \<times> decimal) list"
  pt_effects :: "(string \<times> execution_receipt) list"
  pt_render :: "pyval \<Rightarrow> string"

definition paper_price :: "paper_venue \<Rightarrow> string \<Rightarrow> exn + string + decimal" where
  "paper_price v asset =
     (if asset \<in> set [''USD'', ''USDC'', ''USDT''] then Inr (Inr (DFin False 1 0))
      else case map_of (pt_prices_usd v) asset of
        None \<Rightarrow> Inr (Inl (''no paper price for asset '' @ asset))
      | Some price \<Rightarrow> (case dec_less dzero price of
            Inl e \<Rightarrow> Inl e
          | Inr positive \<Rightarrow> if \<not> positive then Inr (Inl (''invalid paper price for asset '' @ asset)) else Inr (Inr price)))"

definition balance :: "paper_venue \<Rightarrow> string \<Rightarrow> decimal" where
  "balance v asset = (case map_of (pt_balances v) asset of None \<Rightarrow> dzero | Some b \<Rightarrow> b)"

definition set_balance :: "string \<Rightarrow> decimal \<Rightarrow> paper_venue \<Rightarrow> paper_venue" where
  "set_balance asset b v = v\<lparr>pt_balances := AList.update asset b (pt_balances v)\<rparr>"

definition debit :: "string \<Rightarrow> decimal \<Rightarrow> (paper_venue, string + unit) op" where
  "debit asset quantity =
     bindE (gets (\<lambda>v. balance v asset)) (\<lambda>current.
     bindE (lift_sum (dec_less current quantity)) (\<lambda>short.
     if short then ret (Inl (''insufficient paper balance for '' @ asset))
     else seqE (modify (set_balance asset (dec_add current (dec_neg quantity)))) (ret (Inr ()))))"

definition credit :: "string \<Rightarrow> decimal \<Rightarrow> (paper_venue, unit) op" where
  "credit asset quantity =
     bindE (gets (\<lambda>v. balance v asset)) (\<lambda>current. modify (set_balance asset (dec_add current quantity)))"

definition unless_failed :: "('s, string + 'a) op \<Rightarrow> ('a \<Rightarrow> ('s, string + 'b) op) \<Rightarrow> ('s, string + 'b) op" where
  "unless_failed m f = bindE m (\<lambda>r. case r of Inl msg \<Rightarrow> ret (Inl msg) | Inr a \<Rightarrow> f a)"

definition priced :: "string \<Rightarrow> decimal \<Rightarrow> (paper_venue, string + decimal) op" where
  "priced asset notional =
     bindE (gets (\<lambda>v. paper_price v asset)) (\<lambda>p. unless_failed (lift_sum p) (\<lambda>price.
       bindE (lift_sum (dec_div notional price)) (\<lambda>q. ret (Inr q))))"

text \<open>What the three trades share: price both sides, debit one, credit the other.\<close>

definition exchange :: "string \<Rightarrow> string \<Rightarrow> decimal \<Rightarrow> (paper_venue, string + decimal \<times> decimal) op" where
  "exchange pay get notional =
     unless_failed (priced pay notional) (\<lambda>qty_pay.
     unless_failed (priced get notional) (\<lambda>qty_get.
     unless_failed (debit pay qty_pay) (\<lambda>_.
     seqE (credit get qty_get) (ret (Inr (qty_pay, qty_get))))))"

definition field :: "paper_venue \<Rightarrow> payload \<Rightarrow> string \<Rightarrow> exn + string" where
  "field v p k = (case map_of p k of
     None \<Rightarrow> Inl KeyError
   | Some x \<Rightarrow> Inr (case x of PStr s \<Rightarrow> s | PEnum s \<Rightarrow> s | PInt n \<Rightarrow> str_int n | _ \<Rightarrow> pt_render v x))"

definition read_field :: "payload \<Rightarrow> string \<Rightarrow> (paper_venue, string) op" where
  "read_field p k = bindE (gets (\<lambda>v. field v p k)) lift_sum"

definition paper_notional :: "execution_request \<Rightarrow> string + decimal" where
  "paper_notional rq =
     (case parse_bounded_decimal (amount_raw (rq_payload rq)) of
        None \<Rightarrow> if rq_primitive rq = CANCEL_ORDER then Inr dzero else Inl ''paper notional must be a positive bounded decimal''
      | Some n \<Rightarrow> if rq_primitive rq \<noteq> CANCEL_ORDER \<and> dle n dzero then Inl ''paper notional must be a positive bounded decimal'' else Inr n)"

text \<open>The fill: the trade itself and the fields it adds to the record.\<close>

definition trade :: "execution_request \<Rightarrow> decimal \<Rightarrow> (paper_venue, string + payload) op" where
  "trade rq notional =
     (let p = rq_payload rq; done_as = (\<lambda>kvs. ret (Inr kvs)) in
      case rq_primitive rq of
        SELL \<Rightarrow>
          bindE (read_field p ''base_asset'') (\<lambda>base. bindE (read_field p ''quote_asset'') (\<lambda>quote.
          unless_failed (exchange base quote notional) (\<lambda>(qty_base, qty_quote).
          done_as [(''side'', PStr ''SELL''), (''base_asset'', PStr base), (''quote_asset'', PStr quote), (''base_quantity'', PStr (format_f qty_base))])))
      | SWAP \<Rightarrow>
          bindE (read_field p ''from_asset'') (\<lambda>src. bindE (read_field p ''to_asset'') (\<lambda>dst.
          unless_failed (exchange src dst notional) (\<lambda>(qty_src, qty_dst).
          done_as [(''from_asset'', PStr src), (''to_asset'', PStr dst), (''from_quantity'', PStr (format_f qty_src)), (''to_quantity'', PStr (format_f qty_dst))])))
      | CANCEL_ORDER \<Rightarrow>
          bindE (read_field p ''order_id'') (\<lambda>oid. done_as [(''cancelled_order_id'', PStr oid)])
      | PAY \<Rightarrow> ret (Inl (''primitive '' @ primitive_str PAY @ '' unsupported by paper trading venue''))
      | _ \<Rightarrow>
          bindE (read_field p ''base_asset'') (\<lambda>base. bindE (read_field p ''quote_asset'') (\<lambda>quote.
          unless_failed (exchange quote base notional) (\<lambda>(qty_quote, qty_base).
          done_as [(''side'', PStr ''BUY''), (''base_asset'', PStr base), (''quote_asset'', PStr quote), (''base_quantity'', PStr (format_f qty_base))]))))"

definition paper_receipt ::
    "paper_venue \<Rightarrow> execution_request \<Rightarrow> string \<Rightarrow> settlement_status \<Rightarrow> decimal option \<Rightarrow> string \<times> pyval \<Rightarrow> exn + execution_receipt" where
  "paper_receipt v rq effect_id status amount extra =
     (case canonical_hash (pt_crypto v) (pv_request rq) of Inl e \<Rightarrow> Inl e | Inr request_hash \<Rightarrow>
       execution_receipt_init \<lparr>rc_effect_id = effect_id, rc_status = status, rc_evidence = [], rc_amount_usd = amount\<rparr>
         (dict_of [(''venue'', PStr (pt_name v)), (''principal_id'', PStr (rq_principal_id rq)), (''intent_id'', PStr (rq_intent_id rq)),
                   (''effect_id'', PStr effect_id), (''request_hash'', PStr request_hash), extra]))"

definition record_effect :: "execution_request \<Rightarrow> execution_receipt \<Rightarrow> (paper_venue, unit) op" where
  "record_effect rq rc = modify (\<lambda>v. v\<lparr>pt_effects := AList.update (venue_key rq) rc (pt_effects v)\<rparr>)"

definition paper_fill :: "execution_request \<Rightarrow> (paper_venue, string + execution_receipt) op" where
  "paper_fill rq =
     unless_failed (ret (paper_notional rq)) (\<lambda>notional.
     unless_failed (trade rq notional) (\<lambda>kvs.
     let fill = (''notional_usd'', PStr (format_f notional)) # kvs in
     bindE (gets (\<lambda>v. v)) (\<lambda>v.
     bindE (lift_sum (canonical_json (dict_of fill))) (\<lambda>body.
     bindE (lift_sum (paper_receipt v rq (''paper_'' @ take 24 (sha256 (pt_crypto v) (venue_key rq @ body))) ST_FINALIZED
              (if rq_primitive rq = CANCEL_ORDER then None else Some notional) (''fill'', dict_of fill))) (\<lambda>rc.
     seqE (record_effect rq rc) (ret (Inr rc)))))))"

text \<open>A rejection after admission is recorded as a cancelled order with nothing filled.\<close>

definition paper_reject :: "execution_request \<Rightarrow> string \<Rightarrow> (paper_venue, adapter_outcome) op" where
  "paper_reject rq msg =
     bindE (gets (\<lambda>v. v)) (\<lambda>v.
     bindE (lift_sum (paper_receipt v rq (''paper_rej_'' @ take 24 (sha256 (pt_crypto v) (venue_key rq))) ST_CANCELLED (Some dzero)
              (''rejected'', PStr (take 256 msg)))) (\<lambda>rc.
     seqE (record_effect rq rc) (ret (RaisedDeterministic msg))))"

definition admit_paper :: "execution_request \<Rightarrow> (paper_venue, adapter_outcome) op" where
  "admit_paper rq = bindE (paper_fill rq) (\<lambda>r. case r of Inr rc \<Rightarrow> ret (Receipt rc) | Inl msg \<Rightarrow> paper_reject rq msg)"

definition on_venue :: "('v, 'a) op \<Rightarrow> ('v world, 'a) op" where
  "on_venue m w = (case m (w_venue w) of (r, v) \<Rightarrow> (r, w\<lparr>w_venue := v\<rparr>))"

definition paper_execute :: "paper_venue adapter" where
  "paper_execute rq permit =
     bindE (gets w_venue) (\<lambda>v. case map_of (pt_effects v) (venue_key rq) of
       Some rc \<Rightarrow> ret (Receipt rc)
     | None \<Rightarrow>
         bindE read_clock (\<lambda>now.
         bindE (gateway_consume (pt_permit_verifier v) permit rq now (Some (pt_name v))) (\<lambda>(ok, reasons).
         if \<not> ok then ret (RaisedDeterministic (''permit rejected:'' @ join_with '','' reasons))
         else on_venue (admit_paper rq))))"

definition paper_lookup_effect :: "paper_venue \<Rightarrow> execution_request \<Rightarrow> execution_receipt option" where
  "paper_lookup_effect v rq = map_of (pt_effects v) (venue_key rq)"

definition no_record :: "settlement_status \<Rightarrow> string \<Rightarrow> settlement_record" where
  "no_record status request_hash =
     \<lparr>st_status = status, st_effect_id = None, st_amount_usd = None, st_evidence = [], st_authoritative = True,
      st_verified_request_hash = Some request_hash\<rparr>"

definition paper_reconcile :: "paper_venue \<Rightarrow> execution_request \<Rightarrow> exn + settlement_record" where
  "paper_reconcile v rq =
     (case canonical_hash (pt_crypto v) (pv_request rq) of Inl e \<Rightarrow> Inl e | Inr request_hash \<Rightarrow>
     (case map_of (pt_effects v) (venue_key rq) of
        None \<Rightarrow> settlement_record_init (no_record ST_NONE request_hash) (dict_of [(''venue'', PStr (pt_name v))])
      | Some rc \<Rightarrow>
          let observed = pget (rc_evidence rc) ''request_hash'' in
          if observed \<noteq> PStr request_hash then
            settlement_record_init (no_record ST_CONTRADICTORY request_hash)
              (dict_of [(''venue'', PStr (pt_name v)), (''reason'', PStr ''observed-effect-request-binding-mismatch''),
                        (''observed_request_hash'', observed), (''expected_request_hash'', PStr request_hash)])
          else
            settlement_record_init
              ((no_record (rc_status rc) request_hash)\<lparr>st_effect_id := Some (rc_effect_id rc), st_amount_usd := rc_amount_usd rc\<rparr>)
              (dict_of (rc_evidence rc))))"

definition paper_effect_count :: "paper_venue \<Rightarrow> string \<Rightarrow> string \<Rightarrow> int" where
  "paper_effect_count v who iid = (case map_of (pt_effects v) (who @ UNIT_SEP @ iid) of
     None \<Rightarrow> 0 | Some rc \<Rightarrow> if rc_status rc = ST_CANCELLED then 0 else 1)"

section \<open>Balances and effects\<close>

lemma alist_all_update: "list_all P xs \<Longrightarrow> P (k, v) \<Longrightarrow> list_all P (AList.update k v xs)"
  by (induction xs) auto

text \<open>The constructor of a settlement record keeps what it checks.\<close>

lemma bounded_amount_id: "bounded_amount a = Inr b \<Longrightarrow> b = a"
  by (auto simp: bounded_amount_def if_bounded_def split: option.splits if_splits)

lemma settlement_record_fields:
  assumes "settlement_record_init s ev = Inr t"
  shows "st_status t = st_status s" and "st_effect_id t = st_effect_id s" and "st_authoritative t = st_authoritative s"
    and "st_verified_request_hash t = st_verified_request_hash s" and "st_amount_usd t = st_amount_usd s"
  using assms by (auto simp: settlement_record_init_def dest: bounded_amount_id split: sum.splits)

definition nonneg :: "decimal \<Rightarrow> bool" where
  "nonneg d \<longleftrightarrow> is_finite d \<and> 0 \<le> dval d"

definition solvent :: "paper_venue \<Rightarrow> bool" where
  "solvent v \<longleftrightarrow> list_all (\<lambda>(asset, b). nonneg b) (pt_balances v)"

lemma nonneg_sign: "c \<noteq> 0 \<Longrightarrow> 0 \<le> dval (DFin s c e) \<Longrightarrow> \<not> s"
proof
  assume "c \<noteq> 0" "0 \<le> dval (DFin s c e)" "s"
  moreover have "0 < of_nat c * pow10 e" using \<open>c \<noteq> 0\<close> pow10_pos [of e] by simp
  ultimately show False by simp
qed

lemma unsigned_value: "\<not> of_nat c * pow10 e < 0"
  using pow10_pos [of e] by (simp add: not_less less_imp_le)

lemma unsigned_nonneg [simp]: "nonneg (DFin False c e)"
  using pow10_pos [of e] by (simp add: nonneg_def less_imp_le)

lemma nonneg_add:
  assumes "is_finite x" and "is_finite y" and "0 \<le> dval x + dval y"
  shows "nonneg (dec_add x y)"
proof -
  obtain s c e s' c' e' where xy: "x = DFin s c e" "y = DFin s' c' e'" using assms(1,2) by (cases x; cases y) auto
  define m where "m = min e e'"
  define a where "a = (if s then - int c else int c) * 10 ^ nat (e - m)"
  define b where "b = (if s' then - int c' else int c') * 10 ^ nat (e' - m)"
  have scale: "pow10 f = 10 ^ nat (f - m) * pow10 m" if "m \<le> f" for f
    using pow10_add [of "f - m" m] pow10_of_nat [of "nat (f - m)"] that by simp
  have "dval x = of_int a * pow10 m" using scale [of e] by (simp add: xy(1) a_def m_def)
  moreover have "dval y = of_int b * pow10 m" using scale [of e'] by (simp add: xy(2) b_def m_def)
  ultimately have "of_int (a + b) * pow10 m = dval x + dval y" by (simp add: distrib_right)
  then have "\<not> a + b < 0" using assms(3) pow10_pos [of m]
    by (metis linorder_not_less mult_neg_pos of_int_less_0_iff)
  then show ?thesis by (auto simp: xy Let_def m_def [symmetric] a_def [symmetric] b_def [symmetric] split: prod.splits)
qed

lemma quotient_nonneg:
  assumes "is_finite n" and "0 < dval n" and "dec_less dzero price = Inr True" and "dec_div n price = Inr q"
  shows "nonneg q"
proof -
  obtain s c e where n: "n = DFin s c e" using assms(1) by (cases n) auto
  have "\<not> s" using assms(2) nonneg_sign [of c s e] n by (cases "c = 0") auto
  then show ?thesis using assms(3,4) n
    by (cases price) (auto simp: dzero_def dlt_def unsigned_value split: if_splits prod.splits)
qed

lemma balance_nonneg: "solvent v \<Longrightarrow> nonneg (balance v asset)"
  by (auto simp: balance_def solvent_def list_all_iff nonneg_def dest: map_of_SomeD split: option.splits)

lemma set_balance_solvent: "solvent v \<Longrightarrow> nonneg b \<Longrightarrow> solvent (set_balance asset b v)"
  by (simp add: solvent_def set_balance_def alist_all_update)

text \<open>A trade leaves every balance covered; it fails before it changes anything.\<close>

lemma debit_solvent: "nonneg q \<Longrightarrow> preserves solvent (debit asset q)"
proof (rule guaranteesI, rule impI)
  fix v assume q: "nonneg q" and v: "solvent v"
  have b: "nonneg (balance v asset)" by (rule balance_nonneg [OF v])
  have neg: "is_finite (dec_neg q)" "dval (dec_neg q) = - dval q" using q by (cases q; simp add: nonneg_def)+
  show "solvent (snd (debit asset q v))"
  proof (cases "dec_less (balance v asset) q = Inr False")
    case True
    then have "dval q \<le> dval (balance v asset)" using b q by (cases q; cases "balance v asset") (auto simp: nonneg_def dlt_def)
    then have "nonneg (dec_add (balance v asset) (dec_neg q))" using b neg by (intro nonneg_add) (auto simp: nonneg_def)
    with True v show ?thesis by (simp add: debit_def op_simps set_balance_solvent)
  next
    case False
    then show ?thesis using v by (auto simp: debit_def op_simps split: sum.splits)
  qed
qed

lemma credit_solvent: "nonneg q \<Longrightarrow> preserves solvent (credit asset q)"
proof (rule guaranteesI, rule impI)
  fix v assume "nonneg q" and v: "solvent v"
  with balance_nonneg [OF v, of asset] have "nonneg (dec_add (balance v asset) q)" by (intro nonneg_add) (auto simp: nonneg_def)
  with v show "solvent (snd (credit asset q v))" by (simp add: credit_def op_simps set_balance_solvent)
qed

lemma priced_nonneg:
  assumes "is_finite n" and "0 < dval n" and "priced asset n v = (Inr (Inr q), t)"
  shows "nonneg q \<and> t = v"
proof -
  obtain price where "paper_price v asset = Inr (Inr price)" "dec_div n price = Inr q" "t = v"
    using assms(3) by (auto simp: priced_def unless_failed_def op_simps split: sum.splits)
  moreover from this(1) have "dec_less dzero price = Inr True"
    by (auto simp: paper_price_def dzero_def dlt_def split: if_splits option.splits sum.splits)
  ultimately show ?thesis using quotient_nonneg assms(1,2) by blast
qed

lemma priced_reads: "preserves I (priced asset n)"
  unfolding priced_def unless_failed_def by (intro keep.guar_rules) (auto intro!: keep.guar_rules split: sum.splits)

lemma unless_failed_solvent:
  assumes "preserves solvent m" and "\<And>a v t. m v = (Inr (Inr a), t) \<Longrightarrow> preserves solvent (f a)"
  shows "preserves solvent (unless_failed m f)"
  unfolding unless_failed_def
proof (rule preserves_bindE_value [OF assms(1)])
  show "preserves solvent (case r of Inl msg \<Rightarrow> ret (Inl msg) | Inr a \<Rightarrow> f a)" if "m v = (Inr r, t)" for r v t
    using assms(2) that by (cases r) (auto intro: keep.guar_ret)
qed

lemma exchange_solvent:
  assumes "is_finite n" and "0 < dval n"
  shows "preserves solvent (exchange pay get n)"
  unfolding exchange_def
  by (intro unless_failed_solvent priced_reads debit_solvent credit_solvent keep.guar_seqE keep.guar_ret)
    (auto dest: priced_nonneg [OF assms])

lemma read_field_reads: "preserves I (read_field p k)"
  unfolding read_field_def by (intro keep.guar_rules)

lemma trade_solvent:
  assumes "rq_primitive rq \<noteq> CANCEL_ORDER \<Longrightarrow> is_finite n \<and> 0 < dval n"
  shows "preserves solvent (trade rq n)"
proof (cases "rq_primitive rq = CANCEL_ORDER")
  case False
  note ex = exchange_solvent [of n]
  from False assms show ?thesis unfolding trade_def Let_def
    by (cases "rq_primitive rq") (auto intro!: keep.guar_bindE keep.guar_ret read_field_reads unless_failed_solvent ex)
qed (simp add: trade_def keep.guar_bindE read_field_reads keep.guar_ret)

lemma paper_notional_positive:
  "paper_notional rq = Inr n \<Longrightarrow> rq_primitive rq \<noteq> CANCEL_ORDER \<Longrightarrow> is_finite n \<and> 0 < dval n"
  using parse_bounded by (auto simp: paper_notional_def dle_def split: option.splits if_splits)

lemma record_effect_solvent: "preserves solvent (record_effect rq rc)"
  by (simp add: guarantees_def record_effect_def modify_def solvent_def)

lemma admit_paper_solvent: "preserves solvent (admit_paper rq)"
proof -
  have "preserves solvent (paper_fill rq)"
    unfolding paper_fill_def Let_def
    by (intro unless_failed_solvent trade_solvent keep.guar_rules record_effect_solvent)
      (auto simp: ret_def dest: paper_notional_positive)
  then show ?thesis unfolding admit_paper_def paper_reject_def
    by (intro keep.guar_bindE) (auto intro!: keep.guar_rules record_effect_solvent split: sum.splits)
qed

text \<open>Only the receipt of this request is written.\<close>

lemma admit_paper_others:
  assumes "k \<noteq> venue_key rq"
  shows "preserves (\<lambda>v. map_of (pt_effects v) k = x) (admit_paper rq)"
proof -
  let ?I = "\<lambda>v. map_of (pt_effects v) k = x"
  have failing: "preserves ?I (unless_failed m f)" if "preserves ?I m" "\<And>a. preserves ?I (f a)" for m and f :: "'a \<Rightarrow> (paper_venue, string + 'b) op"
    using that unfolding unless_failed_def by (auto intro!: keep.guar_bindE keep.guar_ret split: sum.splits)
  have money: "preserves ?I (debit asset q)" "preserves ?I (credit asset q)" for asset q
    unfolding debit_def credit_def by (intro keep.guar_rules keep.guar_modify; simp add: set_balance_def)+
  have effect: "preserves ?I (record_effect rq rc)" for rc
    unfolding record_effect_def by (rule keep.guar_modify) (use assms in \<open>simp add: update_conv'\<close>)
  have ex: "preserves ?I (exchange pay get n)" for pay get n
    unfolding exchange_def by (intro failing priced_reads money keep.guar_rules)
  have trade: "preserves ?I (trade rq n)" for n
    unfolding trade_def Let_def
    by (cases "rq_primitive rq") (auto intro!: keep.guar_bindE keep.guar_ret read_field_reads failing ex)
  have "preserves ?I (paper_fill rq)"
    unfolding paper_fill_def Let_def by (intro failing trade effect keep.guar_rules)
  then show ?thesis unfolding admit_paper_def paper_reject_def
    by (intro keep.guar_bindE) (auto intro!: keep.guar_rules effect split: sum.splits)
qed

lemma paper_execute_cases:
  assumes "venue_untouched (w_env w)" and "exec (paper_execute rq permit) w = w'"
  obtains "w_venue w' = w_venue w"
  | now rs and u t :: "paper_venue world" where "map_of (pt_effects (w_venue w)) (venue_key rq) = None"
    and "gateway_consume (pt_permit_verifier (w_venue w)) permit rq now (Some (pt_name (w_venue w))) u = (Inr (True, rs), t)"
    and "w_sys w' = w_sys t" and "w_venue w' = snd (admit_paper rq (w_venue w))"
proof (cases "map_of (pt_effects (w_venue w)) (venue_key rq)")
  case (Some rc)
  with assms(2) have "w' = w" by (simp add: paper_execute_def exec_def op_simps)
  then show thesis using that(1) by simp
next
  case None
  let ?v = "w_venue w"
  let ?c = "\<lambda>now. gateway_consume (pt_permit_verifier ?v) permit rq now (Some (pt_name ?v))"
  obtain now w2 where w2: "read_clock w = (Inr now, w2)" by (auto simp: read_clock_def Let_def)
  have "at_rest ?v w" using assms(1) by (simp add: at_rest_def)
  then have rest2: "at_rest ?v w2" by (rule preservesD [OF read_clock_venue _ w2])
  obtain r w3 where w3: "?c now w2 = (r, w3)" by (cases "?c now w2")
  have rest3: "w_venue w3 = ?v" using preservesD [OF gateway_consume_venue rest2 w3] by (simp add: at_rest_def)
  have run: "w' = (if \<exists>rs. r = Inr (True, rs) then snd (on_venue (admit_paper rq) w3) else w3)"
    using assms(2) None w2 w3
    by (auto simp: paper_execute_def exec_def bindE_def gets_def ret_def split: sum.splits prod.splits)
  show thesis
  proof (cases "\<exists>rs. r = Inr (True, rs)")
    case True
    then obtain rs where "r = Inr (True, rs)" by blast
    moreover have "w_sys (snd (on_venue (admit_paper rq) w3)) = w_sys w3" "w_venue (snd (on_venue (admit_paper rq) w3)) = snd (admit_paper rq ?v)"
      using rest3 by (auto simp: on_venue_def split: prod.splits)
    ultimately show thesis using that(2) [OF None, of now w2 rs w3] w3 run by simp
  next
    case False
    then show thesis using that(1) run rest3 by simp
  qed
qed

text \<open>What a venue that passes its own name to the gateway knows of a request it may admit.\<close>

lemma consumption_binds:
  assumes "gateway_consume pg permit rq now (Some name) w = (Inr (True, rs), w')"
  shows "rq_venue rq = name"
    and "\<exists>row. permit_of (db (w_sys w')) (pm_permit_id (sp_permit permit)) = Some row \<and> pr_consumed_at row \<noteq> None"
    and "canonical_hash (c_crypto (pg_cfg pg)) (pv_request rq) = Inr (pm_request_hash (sp_permit permit))"
    and "\<forall>m. pm_max_amount_usd (sp_permit permit) = Some m \<longrightarrow> (\<exists>a. authorized_amount rq = Some a \<and> \<not> dlt m a)"
proof -
  obtain rs0 x row where v: "gateway_verify pg permit rq now (Some name) w = (Inr (True, rs0), x)"
    and row: "permit_of (db (w_sys w')) (pm_permit_id (sp_permit permit)) = Some row" "pr_consumed_at row \<noteq> None"
    by (rule gateway_consume_TrueE [OF assms])
  obtain b rh where g: "Some name = Some (rq_venue rq)" "canonical_hash (c_crypto (pg_cfg pg)) (pv_request rq) = Inr rh"
    "static_reasons pg b permit rq True rh now = []" "envelope_reasons (sp_permit permit) (request_amount rq) = []"
    by (rule verify_True [OF v]) simp
  show "\<forall>m. pm_max_amount_usd (sp_permit permit) = Some m \<longrightarrow> (\<exists>a. authorized_amount rq = Some a \<and> \<not> dlt m a)"
    using envelope_reasons_Nil [OF g(4)] by (auto simp: authorized_amount_def request_amount_def)
  show "rq_venue rq = name" "\<exists>row. permit_of (db (w_sys w')) (pm_permit_id (sp_permit permit)) = Some row \<and> pr_consumed_at row \<noteq> None"
    "canonical_hash (c_crypto (pg_cfg pg)) (pv_request rq) = Inr (pm_request_hash (sp_permit permit))"
    using row g(1,2) static_reasons_Nil(1-3) [OF g(3)] by auto
qed

text \<open>
  C11. The paper venue trades only what it holds, once, and under a consumed permit. Whatever a call for a request does, every
  balance stays covered and no other intent's receipt changes; and if anything at the venue changed, there was no receipt for
  the request before, the request was addressed to this venue, and a verified permit for exactly this request is consumed in the
  ledger with the amount inside the signed one.
\<close>

theorem paper_venue_safe:
  assumes "venue_untouched (w_env w)" and "solvent (w_venue w)" and "exec (paper_execute rq permit) w = w'"
  shows "solvent (w_venue w')
    \<and> (\<forall>k. k \<noteq> venue_key rq \<longrightarrow> map_of (pt_effects (w_venue w')) k = map_of (pt_effects (w_venue w)) k)
    \<and> (w_venue w' \<noteq> w_venue w \<longrightarrow>
         map_of (pt_effects (w_venue w)) (venue_key rq) = None \<and> rq_venue rq = pt_name (w_venue w)
         \<and> (\<exists>row. permit_of (db (w_sys w')) (pm_permit_id (sp_permit permit)) = Some row \<and> pr_consumed_at row \<noteq> None)
         \<and> canonical_hash (c_crypto (pg_cfg (pt_permit_verifier (w_venue w)))) (pv_request rq) = Inr (pm_request_hash (sp_permit permit))
         \<and> (\<forall>m. pm_max_amount_usd (sp_permit permit) = Some m \<longrightarrow> (\<exists>a. authorized_amount rq = Some a \<and> \<not> dlt m a)))"
  using assms(1,3)
proof (cases rule: paper_execute_cases)
  case 1
  with assms(2) show ?thesis by simp
next
  case (2 now rs u t)
  note bound = consumption_binds [OF 2(2)]
  have "solvent (w_venue w')" using admit_paper_solvent [of rq] assms(2) 2(4) by (simp add: guarantees_def)
  moreover have "map_of (pt_effects (w_venue w')) k = map_of (pt_effects (w_venue w)) k" if "k \<noteq> venue_key rq" for k
    using admit_paper_others [OF that, of "map_of (pt_effects (w_venue w)) k"] 2(4) by (simp add: guarantees_def)
  ultimately show ?thesis using 2(1,3) bound by auto
qed

end
