(* ===== verification/Money_Text.thy ===== *)
theory Money_Text
  imports Canonical
begin

text \<open>
  Amounts as text. The store keeps amounts as \<open>format(value, "f")\<close> and reads them back with
  \<open>Decimal(text)\<close>; settlement sources vote on the text of the normalized amount. Both are
  shown to lose nothing.
\<close>

section \<open>Reading a plain decimal text\<close>

definition dec_of_plain :: "string \<Rightarrow> decimal" where
  "dec_of_plain s = (if starts_with ''-'' s then dec_of_money True (tl s) else dec_of_money False s)"

lemma digits_val_zeros [simp]: "digits_val (s @ replicate n CHR ''0'') = digits_val s * 10 ^ n"
proof (induction n)
  case (Suc n)
  have "s @ replicate (Suc n) CHR ''0'' = (s @ replicate n CHR ''0'') @ [CHR ''0'']"
    by (simp add: replicate_append_same)
  then show ?case using Suc by (simp only: digits_val_snoc) (simp add: digit_val_def)
qed simp

lemma digits_val_lead [simp]: "digits_val (replicate n CHR ''0'' @ s) = digits_val s"
  by (induction n) simp_all

lemma digit_not_sign: "is_digit c \<Longrightarrow> c \<noteq> CHR ''-'' \<and> c \<noteq> CHR ''.''"
  by (auto simp: is_digit_def)

lemma dot_split:
  assumes "CHR ''.'' \<notin> set a"
  shows "before_dot (a @ CHR ''.'' # b) = a" and "after_dot (a @ CHR ''.'' # b) = b"
  using assms by (induction a) (auto simp: before_dot_def after_dot_def)

lemma dec_digits_plain: "CHR ''.'' \<notin> set (dec_digits c)" "CHR ''-'' \<notin> set (dec_digits c)"
  using is_digit_dec_digits digit_not_sign by blast+

lemma digits_val_zero [simp]: "digits_val ''0'' = 0"
  by (simp add: digits_val_def digit_val_def)

text \<open>The unsigned part of \<open>format_f\<close>.\<close>

definition plain_body :: "nat \<Rightarrow> int \<Rightarrow> string" where
  "plain_body c e =
     (let ds = dec_digits c; place = int (length ds) + e in
      if 0 \<le> e then (if c = 0 then ''0'' else ds @ replicate (nat e) CHR ''0'')
      else if place \<le> 0 then ''0.'' @ replicate (nat (- place)) CHR ''0'' @ ds
      else take (nat place) ds @ ''.'' @ drop (nat place) ds)"

lemma format_f_body: "format_f (DFin s c e) = (if s then ''-'' else []) @ plain_body c e"
  by (simp add: format_f_def plain_body_def Let_def)

lemma read_plain_body: "dec_of_money s (plain_body c e) = reread_f (DFin s c e)"
proof -
  let ?ds = "dec_digits c" and ?p = "int (ndigits c) + e"
  have dot: "CHR ''.'' \<notin> set ?ds" by (rule dec_digits_plain)
  consider "0 \<le> e" | "e < 0" "?p \<le> 0" | "e < 0" "0 < ?p" by linarith
  then show ?thesis
  proof cases
    case 1
    have "CHR ''.'' \<notin> set (?ds @ replicate (nat e) CHR ''0'')" using dot by simp
    with 1 show ?thesis
      by (auto simp: plain_body_def dec_of_money_def before_dot_no_dot after_dot_no_dot)
  next
    case 2
    have "plain_body c e = ''0'' @ CHR ''.'' # (replicate (nat (- ?p)) CHR ''0'' @ ?ds)"
      using 2 by (simp add: plain_body_def length_dec_digits)
    moreover have "CHR ''.'' \<notin> set ''0''" by simp
    ultimately show ?thesis using 2 dot_split [of "''0''"]
      by (simp add: dec_of_money_def length_dec_digits)
  next
    case 3
    have "plain_body c e = take (nat ?p) ?ds @ CHR ''.'' # drop (nat ?p) ?ds"
      using 3 by (simp add: plain_body_def length_dec_digits Let_def)
    moreover have "CHR ''.'' \<notin> set (take (nat ?p) ?ds)" using dot by (meson in_set_takeD)
    ultimately show ?thesis using 3 dot_split [of "take (nat ?p) ?ds"]
      by (simp add: dec_of_money_def length_dec_digits)
  qed
qed

lemma plain_body_unsigned: "starts_with ''-'' (plain_body c e) = False"
proof -
  have "CHR ''-'' \<notin> set (plain_body c e)"
    using dec_digits_plain(2) [of c] by (auto simp: plain_body_def Let_def dest: in_set_takeD in_set_dropD)
  moreover have "starts_with ''-'' s \<Longrightarrow> CHR ''-'' \<in> set s" for s by (cases s) (simp_all add: starts_with_def)
  ultimately show ?thesis by blast
qed

text \<open>
  Amounts survive their text. Reading the text of any finite amount gives the same value and sign, with the
  exponent spelled out; so an amount that the store keeps as text and reads back is
  the amount that was accepted, and two amounts with the same text are equal.
\<close>

lemma amount_text_roundtrip:
  assumes "is_finite d"
  shows "dec_of_plain (format_f d) = reread_f d \<and> dval (dec_of_plain (format_f d)) = dval d"
proof (cases d)
  case (DFin s c e)
  then have "dec_of_plain (format_f d) = reread_f d"
    using read_plain_body plain_body_unsigned [of c e] by (simp add: dec_of_plain_def format_f_body starts_with_def)
  then show ?thesis by simp
qed (use assms in simp_all)

lemma amount_text_roundtrip_witness:
  "dec_of_plain (format_f (DFin True 1205 (- 2))) = DFin True 1205 (- 2) \<and> dec_of_plain (format_f (DFin False 5 1)) = DFin False 50 0"
  using amount_text_roundtrip [of "DFin True 1205 (- 2)"] amount_text_roundtrip [of "DFin False 5 1"] by simp



end
