(* ===== verification/Settlement.thy ===== *)
theory Settlement
  imports Adapters Money_Text
begin

text \<open>
  \<open>faar/settlement.py\<close>: the reference verifier over the mock venue, and the quorum of
  independent sources.

  A source answers or raises; the quorum first collects the observations (\<open>poll\<close>), then
  decides (\<open>decide\<close>, a pure function of the observations). \<open>qv_render\<close> gives the class name
  of a raised exception, which enters the evidence.
\<close>

section \<open>MockSettlementVerifier\<close>

record settlement_security_profile =
  sp_authoritative :: bool
  sp_independent :: bool
  sp_stable_effect_identity :: bool
  sp_amount_evidence :: bool

definition trusted_profile :: "settlement_security_profile \<Rightarrow> bool" where
  "trusted_profile p \<longleftrightarrow>
     list_all (\<lambda>b. b) [sp_authoritative p, sp_independent p, sp_stable_effect_identity p, sp_amount_evidence p]"

definition no_settlement :: "settlement_status \<Rightarrow> settlement_record" where
  "no_settlement st =
     \<lparr>st_status = st, st_effect_id = None, st_amount_usd = None, st_evidence = [], st_authoritative = False,
      st_verified_request_hash = None\<rparr>"

definition mock_record :: "string \<Rightarrow> mock_venue \<Rightarrow> execution_request \<Rightarrow> string \<Rightarrow> exn + settlement_record" where
  "mock_record name v rq request_hash =
     (case map_of (mv_effects v) (venue_key rq) of
        Some rc \<Rightarrow>
          let observed = pget (rc_evidence rc) ''request_hash'' in
          if observed \<noteq> PStr request_hash then
            settlement_record_init
              ((no_settlement ST_CONTRADICTORY)\<lparr>st_authoritative := True, st_verified_request_hash := Some request_hash\<rparr>)
              (dict_of [(''verifier'', PStr name), (''reason'', PStr ''observed-effect-request-binding-mismatch''),
                        (''observed_request_hash'', observed), (''expected_request_hash'', PStr request_hash)])
          else
            settlement_record_init
              \<lparr>st_status = rc_status rc, st_effect_id = Some (rc_effect_id rc), st_amount_usd = rc_amount_usd rc,
               st_evidence = [], st_authoritative = True, st_verified_request_hash = Some request_hash\<rparr>
              (dict_of (rc_evidence rc))
      | None \<Rightarrow>
          if mv_mode v = AMBIGUOUS then
            settlement_record_init (no_settlement ST_UNKNOWN) (dict_of [(''verifier'', PStr name)])
          else
            settlement_record_init
              ((no_settlement ST_NONE)\<lparr>st_authoritative := True, st_verified_request_hash := Some request_hash\<rparr>)
              (dict_of [(''verifier'', PStr name)]))"

definition mock_verify :: "string \<Rightarrow> mock_venue settlement_source" where
  "mock_verify name rq =
     bindE (gets w_venue) (\<lambda>v.
     bindE (lift_sum (canonical_hash (mv_crypto v) (pv_request rq))) (\<lambda>request_hash.
     bindE (lift_sum (mock_record name v rq request_hash)) (\<lambda>s. ret (SettlementAnswer s))))"

section \<open>QuorumSettlementVerifier: sources and facts\<close>

record 'v quorum_source =
  qs_name :: string
  qs_object :: nat
  qs_trusted :: bool
  qs_verify :: "'v settlement_source"

record 'v quorum_verifier =
  qv_sources :: "'v quorum_source list"
  qv_quorum :: int
  qv_crypto :: crypto
  qv_render :: "exn \<Rightarrow> string"

definition quorum_init :: "'v quorum_verifier \<Rightarrow> exn + 'v quorum_verifier" where
  "quorum_init q =
     (if qv_quorum q < 2 then Inl ValueError
      else if int (length (qv_sources q)) < qv_quorum q then Inl ValueError
      else if list_ex (\<lambda>s. \<not> qs_trusted s) (qv_sources q) then Inl ValueError
      else if \<not> distinct (map qs_object (qv_sources q)) then Inl ValueError
      else if \<not> distinct (map qs_name (qv_sources q)) then Inl ValueError
      else Inr q)"

text \<open>\<open>Decimal.normalize\<close>: rounded to the context's precision, trailing zeros stripped.\<close>

function strip_zeros :: "nat \<Rightarrow> int \<Rightarrow> nat \<times> int" where
  "strip_zeros c e = (if c = 0 then (0, 0) else if c mod 10 = 0 then strip_zeros (c div 10) (e + 1) else (c, e))"
  by pat_completeness auto
termination by (relation "measure fst") auto

declare strip_zeros.simps [simp del]

fun dec_normalize :: "decimal \<Rightarrow> decimal" where
  "dec_normalize (DFin s c e) = (case round_coeff c e of (q, f) \<Rightarrow> (case strip_zeros q f of (r, h) \<Rightarrow> DFin s r h))"
| "dec_normalize d = d"

type_synonym fact = "settlement_status \<times> string option \<times> string option"

definition fact_of :: "settlement_record \<Rightarrow> fact" where
  "fact_of s = (st_status s, st_effect_id s, map_option (\<lambda>a. format_f (dec_normalize a)) (st_amount_usd s))"

definition FACT_ID_CHARS :: nat where "FACT_ID_CHARS = 512"

definition opt_str :: "string option \<Rightarrow> pyval" where
  "opt_str v = (case v of None \<Rightarrow> PNone | Some s \<Rightarrow> PStr s)"

definition fact_view :: "fact \<Rightarrow> pyval" where
  "fact_view f = (case f of (st, eff, amount) \<Rightarrow>
     PSeq [PStr (settlement_str st), opt_str (map_option (take FACT_ID_CHARS) eff), opt_str amount])"

text \<open>\<open>_record\<close>: the full evidence, or the compact one when it exceeds the bounds.\<close>

definition bounded_record :: "settlement_record \<Rightarrow> payload \<Rightarrow> payload \<Rightarrow> exn + settlement_record" where
  "bounded_record s full short = (case settlement_record_init s (dict_of full) of
     Inr r \<Rightarrow> Inr r
   | Inl e \<Rightarrow> if e = ValueError
       then settlement_record_init s (dict_of (AList.update ''evidence_truncated'' (PBool True) short)) else Inl e)"

section \<open>Observations\<close>

record observation =
  ob_name :: string
  ob_record :: settlement_record
  ob_error :: "string option"

definition observation_of :: "'v quorum_verifier \<Rightarrow> string \<Rightarrow> exn + settlement_answer \<Rightarrow> exn + observation" where
  "observation_of q name answer =
     (let failed = (\<lambda>ty. map_sum id (\<lambda>s. \<lparr>ob_name = name, ob_record = s, ob_error = Some ty\<rparr>)
            (settlement_record_init (no_settlement ST_UNKNOWN) (dict_of [(''verifier'', PStr name), (''error'', PStr ty)]))) in
      case answer of
        Inr (SettlementAnswer s) \<Rightarrow> Inr \<lparr>ob_name = name, ob_record = s, ob_error = None\<rparr>
      | Inr (NotARecord ty) \<Rightarrow> failed ''TypeError''
      | Inl e \<Rightarrow> failed (qv_render q e))"

fun poll :: "'v quorum_verifier \<Rightarrow> execution_request \<Rightarrow> 'v quorum_source list \<Rightarrow> ('v world, observation list) op" where
  "poll q rq [] = ret []"
| "poll q rq (s # ss) =
     bindE (attempt (qs_verify s rq)) (\<lambda>answer.
     bindE (lift_sum (observation_of q (qs_name s) answer)) (\<lambda>ob.
     bindE (poll q rq ss) (\<lambda>obs. ret (ob # obs))))"

definition errors_of :: "observation list \<Rightarrow> pyval" where
  "errors_of obs = dict_of (fold (\<lambda>ob acc. case ob_error ob of None \<Rightarrow> acc | Some ty \<Rightarrow> AList.update (ob_name ob) (PStr ty) acc) obs [])"

text \<open>A vote: an authoritative record bound to this request.\<close>

definition bound_to :: "string \<Rightarrow> settlement_record \<Rightarrow> bool" where
  "bound_to h s \<longleftrightarrow> st_authoritative s \<and> st_verified_request_hash s = Some h"

definition votes :: "string \<Rightarrow> observation list \<Rightarrow> fact list" where
  "votes h obs = map (\<lambda>ob. fact_of (ob_record ob)) (filter (\<lambda>ob. bound_to h (ob_record ob)) obs)"

definition binding_mismatches :: "string \<Rightarrow> observation list \<Rightarrow> int" where
  "binding_mismatches h obs =
     int (length (filter (\<lambda>ob. st_authoritative (ob_record ob) \<and> st_verified_request_hash (ob_record ob) \<noteq> Some h) obs))"

definition tally :: "fact list \<Rightarrow> (fact \<times> int) list" where
  "tally fs = fold (\<lambda>f counts. AList.update f ((case map_of counts f of None \<Rightarrow> 0 | Some n \<Rightarrow> n) + 1) counts) fs []"

section \<open>The decision\<close>

text \<open>
  Finality lag: CONFIRMED and FINALIZED for one effect and amount are one fact, at the
  weaker status unless finality alone has the quorum. The statuses that agree are returned too.
\<close>

definition merge_finality :: "int \<Rightarrow> int \<Rightarrow> (fact \<times> int) list \<Rightarrow> settlement_status list \<times> (fact \<times> int) list" where
  "merge_finality quorum mismatches counts = (case counts of
     [((st, rest), n), ((st', rest'), n')] \<Rightarrow>
       if mismatches = 0 \<and> rest = rest' \<and> st = ST_FINALIZED \<and> st' = ST_CONFIRMED then
         (if n \<ge> quorum then ([], [((ST_FINALIZED, rest), n)])
          else ([ST_CONFIRMED, ST_FINALIZED], [((ST_CONFIRMED, rest), n + n')]))
       else if mismatches = 0 \<and> rest = rest' \<and> st = ST_CONFIRMED \<and> st' = ST_FINALIZED then
         (if n' \<ge> quorum then ([], [((ST_FINALIZED, rest), n')])
          else ([ST_CONFIRMED, ST_FINALIZED], [((ST_CONFIRMED, rest), n + n')]))
       else ([], counts)
   | _ \<Rightarrow> ([], counts))"

fun hash_evidence :: "crypto \<Rightarrow> observation list \<Rightarrow> exn + (string \<times> string) list" where
  "hash_evidence L [] = Inr []"
| "hash_evidence L (ob # obs) =
     (case canonical_hash L (dict_of (st_evidence (ob_record ob))) of Inl e \<Rightarrow> Inl e | Inr h \<Rightarrow>
     (case hash_evidence L obs of Inl e \<Rightarrow> Inl e | Inr hs \<Rightarrow> Inr ((ob_name ob, h) # hs)))"

text \<open>The quorum reached: the fact, with the evidence of the sources that agree.\<close>

definition agreed ::
    "'v quorum_verifier \<Rightarrow> string \<Rightarrow> observation list \<Rightarrow> settlement_status list \<Rightarrow> fact \<Rightarrow> int \<Rightarrow> exn + settlement_record" where
  "agreed q h obs statuses f count = (case f of (st, eff, amount) \<Rightarrow>
     (let ok = (if statuses = [] then [st] else statuses);
          agreeing = filter (\<lambda>ob. bound_to h (ob_record ob) \<and> snd (fact_of (ob_record ob)) = (eff, amount)
                                 \<and> fst (fact_of (ob_record ob)) \<in> set ok) obs in
      case hash_evidence (qv_crypto q) agreeing of Inl e \<Rightarrow> Inl e | Inr hashes \<Rightarrow>
      (let common = (if agreeing \<noteq> [] \<and> length (dedup (map snd hashes)) = 1 then st_evidence (ob_record (hd agreeing)) else []);
           summary = [(''quorum'', PInt count), (''required'', PInt (qv_quorum q)),
                      (''sources'', PSeq (map (\<lambda>s. PStr (qs_name s)) (qv_sources q))), (''errors'', errors_of obs)];
           put = fold (\<lambda>(k, v) acc. AList.update k v acc);
           full = put (summary @ [(''source_evidence'',
                        dict_of (put (map (\<lambda>ob. (ob_name ob, dict_of (st_evidence (ob_record ob)))) agreeing) []))]) common;
           short = summary @ [(''source_evidence_hashes'', dict_of (put (map (\<lambda>(n, x). (n, PStr x)) hashes) []))] in
       bounded_record
         \<lparr>st_status = st, st_effect_id = eff, st_amount_usd = map_option dec_of_plain amount, st_evidence = [],
          st_authoritative = True, st_verified_request_hash = Some h\<rparr> full short)))"

definition decide :: "'v quorum_verifier \<Rightarrow> string \<Rightarrow> observation list \<Rightarrow> exn + settlement_record" where
  "decide q h obs =
     (let mismatches = binding_mismatches h obs;
          errors = (''errors'', errors_of obs);
          views = PSeq (map (\<lambda>ob. fact_view (fact_of (ob_record ob))) obs) in
      case merge_finality (qv_quorum q) mismatches (tally (votes h obs)) of (statuses, counts) \<Rightarrow>
      if mismatches \<noteq> 0 \<or> length counts > 1 then
        let kind = (if mismatches \<noteq> 0 \<and> length counts \<le> 1 then ''request-binding-mismatch'' else ''contested'') in
        bounded_record ((no_settlement ST_CONTRADICTORY)\<lparr>st_authoritative := True, st_verified_request_hash := Some h\<rparr>)
          [(''quorum'', PStr kind), (''required'', PInt (qv_quorum q)), (''facts'', views),
           (''binding_mismatches'', PInt mismatches), errors]
          [(''quorum'', PStr kind), (''required'', PInt (qv_quorum q)), (''binding_mismatches'', PInt mismatches), errors]
      else case counts of
        [] \<Rightarrow> bounded_record (no_settlement ST_UNKNOWN) [(''quorum'', PStr ''no-authoritative-facts''), errors]
                [(''quorum'', PStr ''no-authoritative-facts'')]
      | (f, count) # _ \<Rightarrow>
          if count < qv_quorum q then
            bounded_record (no_settlement ST_UNKNOWN)
              [(''quorum'', PStr ''quorum-not-reached''), (''votes'', PInt count), (''required'', PInt (qv_quorum q)),
               (''fact'', fact_view f), (''facts'', views), errors]
              [(''quorum'', PStr ''quorum-not-reached''), (''votes'', PInt count), (''required'', PInt (qv_quorum q)),
               (''fact'', fact_view f)]
          else agreed q h obs statuses f count)"

definition quorum_verify :: "'v quorum_verifier \<Rightarrow> 'v settlement_source" where
  "quorum_verify q rq =
     bindE (lift_sum (canonical_hash (qv_crypto q) (pv_request rq))) (\<lambda>h.
     bindE (poll q rq (qv_sources q)) (\<lambda>obs.
     bindE (lift_sum (decide q h obs)) (\<lambda>s. ret (SettlementAnswer s))))"


section \<open>Counting\<close>

lemma tally_snoc: "tally (fs @ [f]) = AList.update f ((case map_of (tally fs) f of None \<Rightarrow> 0 | Some n \<Rightarrow> n) + 1) (tally fs)"
  by (simp add: tally_def)

lemma tally_counts:
  "distinct (map fst (tally fs))" "set (map fst (tally fs)) = set fs"
  "map_of (tally fs) f = (if f \<in> set fs then Some (int (length (filter (\<lambda>x. x = f) fs))) else None)"
proof (induction fs arbitrary: f rule: rev_induct)
  case (snoc x fs)
  { case 1 then show ?case using snoc by (simp only: tally_snoc distinct_update) }
  { case 2 then show ?case using snoc(2) by (simp add: tally_snoc dom_update image_image) }
  { case 3 then show ?case using snoc(3) by (auto simp: tally_snoc update_conv filter_empty_conv) }
qed (simp_all add: tally_def)

lemma tally_entry: "(f, n) \<in> set (tally fs) \<Longrightarrow> f \<in> set fs \<and> n = int (length (filter (\<lambda>x. x = f) fs))"
  using tally_counts(1,3) [of fs] by (metis map_of_eq_Some_iff option.distinct(1) option.inject)

lemma tally_facts: "tally fs = [(f, n)] \<Longrightarrow> set fs = {f}" "tally fs = [(f, n), (f', n')] \<Longrightarrow> set fs = {f, f'}"
  using tally_counts(2) [of fs] by auto

text \<open>\<open>supports f v\<close>: the vote \<open>v\<close> counts for the fact \<open>f\<close>.\<close>

definition supports :: "fact \<Rightarrow> fact \<Rightarrow> bool" where
  "supports f v \<longleftrightarrow> snd v = snd f \<and> (fst v = fst f \<or> fst f = ST_CONFIRMED \<and> fst v = ST_FINALIZED)"

lemma filter_two:
  "f \<noteq> f' \<Longrightarrow> length (filter (\<lambda>x. x = f) fs) + length (filter (\<lambda>x. x = f') fs) = length (filter (\<lambda>x. x = f \<or> x = f') fs)"
  by (induction fs) auto

lemma merged_supported:
  assumes "merge_finality quorum 0 (tally fs) = (statuses, counts)" and "counts = (f, n) # rest" and "length counts \<le> 1"
  shows "n \<le> int (length (filter (supports f) fs))" and "\<forall>v \<in> set fs. snd v = snd f"
proof -
  have counts: "counts = [(f, n)]" using assms(2,3) by simp
  have mono: "int (length (filter (\<lambda>x. x = v \<or> x = u) fs)) \<le> int (length (filter (supports f) fs))"
    if "supports f v" "supports f u" for u v
    using that by (induction fs) auto
  consider (one) "tally fs = [(f, n)]"
    | (two) st st' r m m' where "tally fs = [((st, r), m), ((st', r), m')]" "st \<noteq> st'" "snd f = r"
        "supports f (st, r) \<and> n = m \<or> supports f (st', r) \<and> n = m' \<or> supports f (st, r) \<and> supports f (st', r) \<and> n = m + m'"
    using assms(1) unfolding counts merge_finality_def
    by (auto simp: supports_def split: list.splits if_splits prod.splits)
  then have "n \<le> int (length (filter (supports f) fs)) \<and> (\<forall>v \<in> set fs. snd v = snd f)"
  proof cases
    case one
    then have "n = int (length (filter (\<lambda>x. x = f) fs))" "set fs = {f}"
      using tally_entry [of f n fs] tally_facts(1) by auto
    with mono [of f f] show ?thesis by (auto simp: supports_def)
  next
    case two
    let ?a = "(st, r)" and ?b = "(st', r)"
    have m: "m = int (length (filter (\<lambda>x. x = ?a) fs))" "m' = int (length (filter (\<lambda>x. x = ?b) fs))" and s: "set fs = {?a, ?b}"
      using tally_entry [of ?a m fs] tally_entry [of ?b m' fs] tally_facts(2) [OF two(1)] two(1) by auto
    from two(4) have "n \<le> int (length (filter (supports f) fs))"
      using mono [of ?a ?a] mono [of ?b ?b] mono [of ?a ?b] filter_two [of ?a ?b fs] two(2) m by auto
    with s two(3) show ?thesis by auto
  qed
  then show "n \<le> int (length (filter (supports f) fs))" and "\<forall>v \<in> set fs. snd v = snd f" by auto
qed


section \<open>What a quorum answer proves\<close>

lemma settlement_record_init_fields:
  assumes "settlement_record_init s v = Inr r"
  shows "st_status r = st_status s \<and> st_effect_id r = st_effect_id s \<and> st_authoritative r = st_authoritative s
    \<and> st_verified_request_hash r = st_verified_request_hash s \<and> st_amount_usd r = st_amount_usd s"
proof -
  have "bounded_amount a = Inr b \<Longrightarrow> b = a" for a b
    by (auto simp: bounded_amount_def if_bounded_def split: option.splits if_splits)
  then show ?thesis using assms
    by (auto simp: settlement_record_init_def require_def split: if_splits sum.splits)
qed

lemma bounded_record_fields:
  "bounded_record s full short = Inr r \<Longrightarrow> st_status r = st_status s \<and> st_effect_id r = st_effect_id s
    \<and> st_authoritative r = st_authoritative s \<and> st_verified_request_hash r = st_verified_request_hash s
    \<and> st_amount_usd r = st_amount_usd s"
  by (auto simp: bounded_record_def dest!: settlement_record_init_fields split: sum.splits if_splits)

lemma agreed_fields:
  assumes "agreed q h obs statuses f count = Inr s"
  shows "st_status s = fst f \<and> st_effect_id s = fst (snd f) \<and> st_amount_usd s = map_option dec_of_plain (snd (snd f))
    \<and> st_authoritative s \<and> st_verified_request_hash s = Some h"
  using assms by (cases f) (auto simp: agreed_def Let_def dest!: bounded_record_fields split: sum.splits)

text \<open>The branches of \<open>decide\<close>.\<close>

lemma decide_cases:
  assumes "decide q h obs = Inr s" and "merge_finality (qv_quorum q) (binding_mismatches h obs) (tally (votes h obs)) = (statuses, counts)"
  obtains (contested) "binding_mismatches h obs \<noteq> 0 \<or> length counts > 1" "st_status s = ST_CONTRADICTORY"
  | (weak) "\<not> st_authoritative s" "st_status s = ST_UNKNOWN" "\<not> (binding_mismatches h obs \<noteq> 0 \<or> length counts > 1)"
  | (reached) f count rest where "binding_mismatches h obs = 0" "length counts \<le> 1" "counts = (f, count) # rest"
      "count \<ge> qv_quorum q" "agreed q h obs statuses f count = Inr s"
proof -
  have "binding_mismatches h obs \<noteq> 0 \<or> length counts > 1 \<Longrightarrow> thesis"
    using assms contested by (auto simp: decide_def Let_def no_settlement_def dest!: bounded_record_fields split: if_splits)
  moreover have "\<not> (binding_mismatches h obs \<noteq> 0 \<or> length counts > 1) \<Longrightarrow> thesis"
    using assms weak reached
    by (auto simp: decide_def Let_def no_settlement_def dest!: bounded_record_fields split: list.splits prod.splits if_splits)
  ultimately show thesis by blast
qed

text \<open>\<open>attests h s ob\<close>: the observation is an authoritative record of this request for the same effect and amount.\<close>

definition attests :: "string \<Rightarrow> settlement_record \<Rightarrow> observation \<Rightarrow> bool" where
  "attests h s ob \<longleftrightarrow> bound_to h (ob_record ob) \<and> st_effect_id (ob_record ob) = st_effect_id s
     \<and> map_option (\<lambda>a. dec_of_plain (format_f (dec_normalize a))) (st_amount_usd (ob_record ob)) = st_amount_usd s
     \<and> (st_status (ob_record ob) = st_status s \<or> st_status s = ST_CONFIRMED \<and> st_status (ob_record ob) = ST_FINALIZED)"

lemma supported_attests:
  "supports f (fact_of (ob_record ob)) \<Longrightarrow> bound_to h (ob_record ob) \<Longrightarrow> st_status s = fst f \<Longrightarrow> st_effect_id s = fst (snd f) \<Longrightarrow>
     st_amount_usd s = map_option dec_of_plain (snd (snd f)) \<Longrightarrow> attests h s ob"
  by (cases f) (auto simp: supports_def attests_def fact_of_def option.map_comp o_def)

lemma votes_filter: "length (filter P (votes h obs)) = length (filter (\<lambda>ob. bound_to h (ob_record ob) \<and> P (fact_of (ob_record ob))) obs)"
  by (simp add: votes_def filter_map o_def conj_commute)

lemma filter_length_mono: "(\<And>x. x \<in> set xs \<Longrightarrow> P x \<Longrightarrow> Q x) \<Longrightarrow> length (filter P xs) \<le> length (filter Q xs)"
  by (induction xs) auto


text \<open>
  Disagreement fails closed: two authoritative records of this request that differ in the
  effect or in the amount, or one authoritative record bound to another request, make
  the quorum report a contradiction, whether or not any fact has enough votes.
\<close>

lemma quorum_disagreement_contradicts:
  assumes "decide q h obs = Inr s" and "a \<in> set obs" and "b \<in> set obs"
    and "st_authoritative (ob_record a)" and "st_authoritative (ob_record b)"
    and "snd (fact_of (ob_record a)) \<noteq> snd (fact_of (ob_record b)) \<or> st_verified_request_hash (ob_record a) \<noteq> Some h"
  shows "st_status s = ST_CONTRADICTORY"
proof -
  obtain statuses counts where m: "merge_finality (qv_quorum q) (binding_mismatches h obs) (tally (votes h obs)) = (statuses, counts)"
    by (cases "merge_finality (qv_quorum q) (binding_mismatches h obs) (tally (votes h obs))")
  have "binding_mismatches h obs \<noteq> 0 \<or> length counts > 1"
  proof (rule ccontr)
    assume no: "\<not> ?thesis"
    then have bound: "bound_to h (ob_record x)" if "x \<in> set obs" "st_authoritative (ob_record x)" for x
      using that by (auto simp: binding_mismatches_def filter_empty_conv bound_to_def)
    with assms have votes: "fact_of (ob_record a) \<in> set (votes h obs)" "fact_of (ob_record b) \<in> set (votes h obs)"
      and differ: "snd (fact_of (ob_record a)) \<noteq> snd (fact_of (ob_record b))"
      by (auto simp: votes_def bound_to_def)
    have m0: "merge_finality (qv_quorum q) 0 (tally (votes h obs)) = (statuses, counts)" using m no by simp
    have "counts \<noteq> []"
      using m0 votes(1) tally_counts(2) [of "votes h obs"]
      by (auto simp: merge_finality_def split: list.splits if_splits prod.splits)
    then obtain f n rest where "counts = (f, n) # rest" by (cases counts) auto
    then show False using merged_supported(2) [OF m0, of f n rest] no votes differ by (metis not_less)
  qed
  then show ?thesis by (rule_tac decide_cases [OF assms(1) m]) auto
qed


section \<open>A concrete quorum\<close>

definition demo_settled :: "settlement_status \<Rightarrow> decimal \<Rightarrow> settlement_record" where
  "demo_settled st a =
     \<lparr>st_status = st, st_effect_id = Some ''fx'', st_amount_usd = Some a, st_evidence = [], st_authoritative = True,
      st_verified_request_hash = Some ''h''\<rparr>"

definition demo_quorum :: "unit quorum_verifier" where
  "demo_quorum = \<lparr>qv_sources = [], qv_quorum = 2, qv_crypto = demo_crypto, qv_render = (\<lambda>e. ''Error'')\<rparr>"

definition demo_observations :: "decimal \<Rightarrow> observation list" where
  "demo_observations a =
     [\<lparr>ob_name = ''a'', ob_record = demo_settled ST_FINALIZED (DFin False 50 0), ob_error = None\<rparr>,
      \<lparr>ob_name = ''b'', ob_record = demo_settled ST_CONFIRMED a, ob_error = None\<rparr>]"


lemma quorum_disagreement_contradicts_witness:
  "\<exists>s. decide demo_quorum ''h'' (demo_observations (DFin False 51 0)) = Inr s \<and> st_status s = ST_CONTRADICTORY"
proof -
  let ?obs = "demo_observations (DFin False 51 0)"
  have "case decide demo_quorum ''h'' ?obs of Inr s \<Rightarrow> True | Inl e \<Rightarrow> False" by code_simp
  then obtain s where s: "decide demo_quorum ''h'' ?obs = Inr s" by (auto split: sum.splits)
  have "snd (fact_of (demo_settled ST_FINALIZED (DFin False 50 0))) \<noteq> snd (fact_of (demo_settled ST_CONFIRMED (DFin False 51 0)))"
    by code_simp
  then have "st_status s = ST_CONTRADICTORY"
    by (intro quorum_disagreement_contradicts [OF s, of "?obs ! 0" "?obs ! 1"]) (simp_all add: demo_observations_def demo_settled_def)
  with s show ?thesis by blast
qed

end
