(* ===== verification/Permit_Delivery.thy ===== *)
theory Permit_Delivery
  imports Permits
begin

text \<open>
  From the issuer to the gateway: a permit that was issued is accepted and consumed when it
  is delivered in time and nothing else happened meanwhile. The safety theorems of
  \<open>Permits\<close> bound what an issued permit is; this theory shows that the two sides meet.
\<close>

section \<open>A world at rest\<close>

lemma call_quiet: "w_env w = [] \<Longrightarrow> call m w = (fst (m (w_sys w)), w\<lparr>w_sys := snd (m (w_sys w))\<rparr>)"
  by (simp add: call_def seqE_def bindE_def disturb_def on_sys_def split: prod.splits)

lemma call_quiet_Inr:
  "w_env w = [] \<Longrightarrow> call m w = (Inr b, t) \<longleftrightarrow> (\<exists>s. m (w_sys w) = (Inr b, s) \<and> t = w\<lparr>w_sys := s\<rparr>)"
  by (cases "m (w_sys w)") (auto simp: call_quiet)

definition quiet :: "'v world \<Rightarrow> 'v world \<Rightarrow> bool" where
  "quiet s t \<longleftrightarrow> (w_env s = [] \<longrightarrow> w_env t = [])"

interpretation quieting: step_preorder quiet
  by unfold_locales (auto simp: quiet_def)

lemma call_quiet_env: "guarantees quiet (call m)"
  by (simp add: guarantees_def quiet_def call_quiet)

lemma issue_reasons_quiet: "guarantees quiet (issue_reasons pa rq i ad g r aa ra now)"
  unfolding issue_reasons_def Let_def by (intro quieting.guar_rules call_quiet_env)

section \<open>When the grant control answers ACTIVE\<close>

definition active_grant :: "cfg \<Rightarrow> string \<Rightarrow> string \<Rightarrow> int \<Rightarrow> int \<Rightarrow> sys \<Rightarrow> bool" where
  "active_grant c who gid v epoch s \<longleftrightarrow> \<not> anchor_missing c \<and> active_halt (db s) who = None
     \<and> (\<exists>r. grant_of (db s) gid v = Some r \<and> gr_principal_id r = who \<and> gr_status r = GS_ACTIVE \<and> gr_epoch r = epoch
          \<and> reg_res c gid v (gr_epoch r, gr_fence r) (anchor s) = Inr False)"

lemma get_grant_control_wp:
  "wp (get_grant_control c who gid v) Q s =
     (case grant_of (db s) gid v of
        None \<Rightarrow> Q (Inl UnknownGrant) s
      | Some r \<Rightarrow>
          if gr_principal_id r \<noteq> who then Q (Inl GrantConflict) s
          else if anchor_missing c then Q (Inr (CS_ANCHOR_REQUIRED, gr_epoch r, gr_fence r)) s
          else case reg_res c gid v (gr_epoch r, gr_fence r) (anchor s) of
            Inl e \<Rightarrow> Q (Inr (CS_ANCHOR_UNAVAILABLE, gr_epoch r, gr_fence r)) s
          | Inr behind \<Rightarrow> Q (Inr (if behind then CS_REGRESSED
                 else if gr_status r = GS_ACTIVE \<and> active_halt (db s) who \<noteq> None then CS_HALTED
                 else CS (gr_status r), gr_epoch r, gr_fence r)) s)"
  by (cases "grant_of (db s) gid v"; cases "\<exists>r. grant_of (db s) gid v = Some r \<and> reg_res c gid v (gr_epoch r, gr_fence r) (anchor s) = Inr True";
      cases "\<exists>r. grant_of (db s) gid v = Some r \<and> reg_res c gid v (gr_epoch r, gr_fence r) (anchor s) = Inr False")
    (simp_all add: get_grant_control_def wp_simps split: sum.splits)

lemma get_grant_control_active:
  "(\<exists>f t. get_grant_control c who gid v s = (Inr (CS GS_ACTIVE, epoch, f), t)) \<longleftrightarrow> active_grant c who gid v epoch s"
  using get_grant_control_wp [of c who gid v "\<lambda>res t. \<exists>f. res = Inr (CS GS_ACTIVE, epoch, f)" s]
  by (auto simp: wp_def active_grant_def split: option.splits sum.splits if_splits)
lemma active_grant_cong:
  "grants (db t) = grants (db s) \<Longrightarrow> controls (db t) = controls (db s) \<Longrightarrow> anchor t = anchor s \<Longrightarrow>
     active_grant c who gid v epoch t = active_grant c who gid v epoch s"
  by (simp add: active_grant_def active_halt_def grant_of_def)

text \<open>An anchor that takes every write: none at all, or the one in memory.\<close>

definition anchor_takes :: "cfg \<Rightarrow> anchor_state \<Rightarrow> bool" where
  "anchor_takes c a \<longleftrightarrow> (c_has_anchor c \<longrightarrow> (\<exists>m. a = Memory m))"

lemma anchor_takes_record: "anchor_takes c a \<Longrightarrow> rec_res c gid v k a = Inr ()"
  by (auto simp: anchor_takes_def rec_res_def record_mark_def ma_record_def op_simps split: prod.splits sum.splits if_splits)

text \<open>A permit that is in the ledger, unused and the newest of its intent, under an active grant, is consumed.\<close>

lemma consume_succeeds:
  assumes "permit_of (db s) pid = Some p" and "pr_principal_id p = who" "pr_grant_id p = gid" "pr_grant_version p = v"
    "pr_grant_epoch p = epoch" "pr_fence p = fence" "pr_hash p = h" "pr_consumed_at p = None" "pr_voided_at p = None"
    and "\<not> superseded (db s) p" and "active_grant c who gid v epoch s" and "anchor_takes c (anchor s)"
  shows "\<exists>t. consume_execution_permit c pid who gid v epoch fence h s = (Inr (True, []), t)"
proof -
  obtain r where r: "grant_of (db s) gid v = Some r" "gr_principal_id r = who" "gr_status r = GS_ACTIVE" "gr_epoch r = epoch"
    "reg_res c gid v (gr_epoch r, gr_fence r) (anchor s) = Inr False"
    using assms(11) by (auto simp: active_grant_def)
  have "wp (consume_execution_permit c pid who gid v epoch fence h) (\<lambda>res t. res = Inr (True, [])) s"
    using assms r unfolding active_grant_def
    by (auto simp: consume_execution_permit_def commit_consumption_def consume_reasons_def wp_simps anchor_takes_record Let_def)
  then show ?thesis by (auto simp: wp_def split: prod.splits)
qed

section \<open>Issued, then consumed\<close>

lemma issue_quietE:
  assumes "issue pa rq i ad g r aa ra now w = (Inr signed, t)" and "w_env w = []"
  obtains u v epoch fence f h s where
    "issue_reasons pa rq i ad g r aa ra now w = (Inr [], u)"
    and "get_grant_control (pa_cfg pa) (g_principal_id g) (g_grant_id g) (g_version g) v = (Inr (CS GS_ACTIVE, epoch, f), v)"
    and "permit_expiry pa i g aa ra now > now"
    and "mint pa rq i g aa ra now (permit_expiry pa i g aa ra now) epoch fence = Inr signed"
    and "canonical_hash (c_crypto (pa_cfg pa)) (pv_signed_permit signed) = Inr h"
    and "record_execution_permit (pm_permit_id (sp_permit signed)) i g epoch fence h
      (Some (permit_expiry pa i g aa ra now)) (Some now) v = (Inr (), s)"
    and "w_sys t = s" and "w_env t = []"
proof -
  obtain u where u: "issue_reasons pa rq i ad g r aa ra now w = (Inr [], u)"
    using assms(1) by (auto simp: issue_def inr_simps Let_def split: if_splits)
  have env: "w_env u = []"
    using issue_reasons_quiet assms(2) u unfolding guarantees_def quiet_def by (metis snd_conv)
  obtain x y epoch fence f h s where
    c: "get_grant_control (pa_cfg pa) (g_principal_id g) (g_grant_id g) (g_version g) x = (Inr (CS GS_ACTIVE, epoch, f), y)"
    and rest: "permit_expiry pa i g aa ra now > now"
      "mint pa rq i g aa ra now (permit_expiry pa i g aa ra now) epoch fence = Inr signed"
      "canonical_hash (c_crypto (pa_cfg pa)) (pv_signed_permit signed) = Inr h"
      "record_execution_permit (pm_permit_id (sp_permit signed)) i g epoch fence h
        (Some (permit_expiry pa i g aa ra now)) (Some now) y = (Inr (), s)" "w_sys t = s" "w_env t = []"
    using assms(1) u env by (auto simp: issue_def inr_simps call_quiet_Inr Let_def split: if_splits)
  have "y = x"
    using get_grant_control_wp [of "pa_cfg pa" "g_principal_id g" "g_grant_id g" "g_version g" "\<lambda>res y. y = x" x] c
    by (auto simp: wp_def split: prod.splits option.splits sum.splits if_splits)
  with that [OF u, of x epoch f fence h s] c rest show thesis by simp
qed

lemma newest_not_superseded:
  assumes "permit_insertable d p"
  shows "\<not> superseded (d\<lparr>permits := permits d @ [p]\<rparr>) p"
proof -
  have "\<forall>q \<in> set (permits d). pr_permit_id q \<noteq> pr_permit_id p"
    using assms by (auto simp: permit_insertable_def list_all_iff)
  then have "dropWhile (\<lambda>q. pr_permit_id q \<noteq> pr_permit_id p) (permits d @ [p]) = [p]"
    by (simp add: dropWhile_append2)
  then show ?thesis by (simp add: superseded_def)
qed

lemma recorded_not_superseded:
  assumes "record_execution_permit pid i g epoch fence h expires now s = (Inr u, t)" and "permit_of (db t) pid = Some p"
  shows "\<not> superseded (db t) p"
proof -
  obtain row where ins: "permit_insertable (db s) row" and pid: "pr_permit_id row = pid"
    and t: "permits (db t) = permits (db s) @ [row]"
    using assms(1) by (auto simp: record_execution_permit_def op_simps Let_def split: if_splits option.splits)
  have "permit_of (db t) pid = permit_of ((db s)\<lparr>permits := permits (db s) @ [row]\<rparr>) (pr_permit_id row)"
    by (simp add: permit_of_def t pid)
  then have "p = row" using permit_of_append [OF ins] assms(2) by simp
  with newest_not_superseded [OF ins] show ?thesis by (simp add: superseded_def t)
qed

lemma minted_verifies:
  assumes "mint pa rq i g aa ra now expires_at epoch fence = Inr signed"
    and "pa_backend pa = Ed25519PermitSigner sid k" and "ed_correct (pa_ed pa)"
  shows "\<exists>payload. signed_permit_payload (sp_permit signed) (sp_signer_id signed) (sp_algorithm signed) = Inr payload
    \<and> backend_verify L (pa_ed pa) (backend_public (pa_ed pa) (pa_backend pa)) payload (sp_signature signed) = Inr True"
proof -
  obtain payload where p: "signed_permit_payload (sp_permit signed) (sp_signer_id signed) (sp_algorithm signed) = Inr payload"
    and "sp_signature signed = encode_ed25519_signature (ed_sign (pa_ed pa) k payload)"
    using minted(14) [OF assms(1)] assms(2) by auto
  then have "backend_verify L (pa_ed pa) (backend_public (pa_ed pa) (pa_backend pa)) payload (sp_signature signed) = Inr True"
    using assms(2,3) by (simp add: backend_public_def ed25519_verify_def ed_correct_def signature_decodes)
  with p show ?thesis by blast
qed

lemma allowed_amount_positive:
  "d_verdict (evaluate_capability i g now) = V_ALLOW \<Longrightarrow> request_amount (from_intent i) = Some a \<Longrightarrow> \<not> dle a dzero"
  unfolding capability_ALLOW_iff
  by (auto simp: amount_reasons_def amount_usd_def request_amount_def from_intent_def split: if_splits)

lemma get_grant_control_state: "get_grant_control c who gid v s = (res, t) \<Longrightarrow> t = s"
  using get_grant_control_wp [of c who gid v "\<lambda>res y. y = s" s]
  by (auto simp: wp_def split: prod.splits option.splits sum.splits if_splits)

text \<open>The gateway's answer in a world at rest: every check passes.\<close>

lemma gateway_accepts:
  assumes "w_env t = []" and "active_grant (pg_cfg pg) (pm_principal_id (sp_permit signed)) (pm_grant_id (sp_permit signed))
      (pm_grant_version (sp_permit signed)) (pm_grant_epoch (sp_permit signed)) (w_sys t)"
    and "map_of (pg_verifiers pg) (sp_signer_id signed) = Some b"
    and "signed_permit_payload (sp_permit signed) (sp_signer_id signed) (sp_algorithm signed) = Inr payload"
    and "backend_verify (c_crypto (pg_cfg pg)) (pg_ed pg) b payload (sp_signature signed) = Inr True"
    and "canonical_hash (c_crypto (pg_cfg pg)) (pv_request rq) = Inr rh"
    and "static_reasons pg b signed rq True rh clock = []" and "envelope_reasons (sp_permit signed) (request_amount rq) = []"
  shows "gateway_verify pg signed rq clock (Some (rq_venue rq)) t = (Inr (True, []), t)"
proof -
  obtain f y where c: "get_grant_control (pg_cfg pg) (pm_principal_id (sp_permit signed)) (pm_grant_id (sp_permit signed))
      (pm_grant_version (sp_permit signed)) (w_sys t) = (Inr (CS GS_ACTIVE, pm_grant_epoch (sp_permit signed), f), y)"
    using get_grant_control_active assms(2) by blast
  then have "y = w_sys t" by (rule get_grant_control_state)
  with assms c show ?thesis
    by (simp add: gateway_verify_def verify_checked_def op_simps call_quiet control_reasons_def Let_def)
qed

text \<open>Delivered in any later world with the same store.\<close>

lemma permit_delivered:
  fixes w t :: "'v world" and x :: "'u world"
  assumes "issue pa (from_intent i) i ad g r aa ra now w = (Inr signed, t)" and "w_env w = []"
    and "pa_backend pa = Ed25519PermitSigner sid k" and "ed_correct (pa_ed pa)"
    and "pg_cfg pg = pa_cfg pa" and "pg_ed pg = pa_ed pa"
    and "map_of (pg_verifiers pg) sid = Some (backend_public (pa_ed pa) (pa_backend pa))" and "map_of (pg_validity pg) sid = None"
    and "pa_ttl pa \<le> pg_lifetime pg" and "now \<le> clock + secs (pg_skew pg)" and "clock \<le> pm_expires_at (sp_permit signed)"
    and "anchor_takes (pa_cfg pa) (anchor (w_sys t))" and "w_sys x = w_sys t" and "w_env x = []"
  shows "\<exists>s row. gateway_consume pg signed (from_intent i) clock (Some (i_venue i)) x = (Inr (True, []), x\<lparr>w_sys := s\<rparr>)
    \<and> permit_of (db s) (pm_permit_id (sp_permit signed)) = Some row \<and> pr_consumed_at row \<noteq> None"
proof -
  obtain u v epoch fence f h s where iss: "issue_reasons pa (from_intent i) i ad g r aa ra now w = (Inr [], u)"
    "get_grant_control (pa_cfg pa) (g_principal_id g) (g_grant_id g) (g_version g) v = (Inr (CS GS_ACTIVE, epoch, f), v)"
    "permit_expiry pa i g aa ra now > now"
    "mint pa (from_intent i) i g aa ra now (permit_expiry pa i g aa ra now) epoch fence = Inr signed"
    "canonical_hash (c_crypto (pa_cfg pa)) (pv_signed_permit signed) = Inr h"
    "record_execution_permit (pm_permit_id (sp_permit signed)) i g epoch fence h
      (Some (permit_expiry pa i g aa ra now)) (Some now) v = (Inr (), s)" "w_sys t = s" "w_env t = []"
    by (rule issue_quietE [OF assms(1,2)])
  let ?p = "sp_permit signed"
  note no = issue_reasons_NilE [OF iss(1)] and m = minted [OF iss(4)] and rec = record_permit_effect [OF iss(6)]
  have who: "g_principal_id g = i_principal_id i" by (fact no(2))
  have active: "active_grant (pg_cfg pg) (pm_principal_id ?p) (pm_grant_id ?p) (pm_grant_version ?p) (pm_grant_epoch ?p) (w_sys t)"
  proof -
    have "active_grant (pa_cfg pa) (g_principal_id g) (g_grant_id g) (g_version g) epoch v"
      using iss(2) get_grant_control_active by blast
    then show ?thesis using active_grant_cong [OF rec(2-4)] m(3,5-7) who assms(5) iss(7) by simp
  qed
  obtain row where row: "permit_of (db (w_sys t)) (pm_permit_id ?p) = Some row" "pr_principal_id row = i_principal_id i"
    "pr_grant_id row = g_grant_id g" "pr_grant_version row = g_version g" "pr_grant_epoch row = epoch" "pr_fence row = fence"
    "pr_hash row = h" "pr_consumed_at row = None" "pr_voided_at row = None"
    using rec(1) iss(7) by auto
  have "\<exists>y. consume_execution_permit (pg_cfg pg) (pm_permit_id ?p) (pm_principal_id ?p) (pm_grant_id ?p) (pm_grant_version ?p)
      (pm_grant_epoch ?p) (pm_fence_token ?p) h (w_sys t) = (Inr (True, []), y)"
    using consume_succeeds [OF row(1), of _ _ _ _ _ h "pg_cfg pg"] row active recorded_not_superseded [OF iss(6)] iss(7) m(3,5-8)
      assms(5,12) by auto
  then obtain y where y: "consume_execution_permit (pg_cfg pg) (pm_permit_id ?p) (pm_principal_id ?p) (pm_grant_id ?p)
      (pm_grant_version ?p) (pm_grant_epoch ?p) (pm_fence_token ?p) h (w_sys t) = (Inr (True, []), y)" ..
  obtain payload where sig: "signed_permit_payload ?p (sp_signer_id signed) (sp_algorithm signed) = Inr payload"
    "backend_verify (c_crypto (pg_cfg pg)) (pa_ed pa) (backend_public (pa_ed pa) (pa_backend pa)) payload (sp_signature signed) = Inr True"
    using minted_verifies [OF iss(4) assms(3,4)] by blast
  have static: "static_reasons pg (backend_public (pa_ed pa) (pa_backend pa)) signed (from_intent i) True (pm_request_hash ?p) clock = []"
    using assms(3,8-11) m(3,4,10-13) permit_expiry_le(4) [of pa i g aa ra now]
    by (simp add: static_reasons_def from_intent_def backend_public_def secs_def)
  have envelope: "envelope_reasons ?p (request_amount (from_intent i)) = []"
    using m(9) allowed_amount_positive [OF no(4)] by (auto simp: envelope_reasons_def dlt_def split: option.splits)
  have "gateway_verify pg signed (from_intent i) clock (Some (i_venue i)) x = (Inr (True, []), x)"
    using gateway_accepts [OF assms(14) active [folded assms(13)] _ sig(1) _ _ static envelope] sig(2) assms(3,5-7) m(1,12)
    by (simp add: from_intent_def)
  then have consumed: "gateway_consume pg signed (from_intent i) clock (Some (i_venue i)) x = (Inr (True, []), x\<lparr>w_sys := y\<rparr>)"
    using iss(5) y assms(5,13,14) by (simp add: gateway_consume_def op_simps call_quiet Let_def)
  show ?thesis
  proof (rule gateway_consume_TrueE [OF consumed])
    fix row assume "permit_of (db (w_sys (x\<lparr>w_sys := y\<rparr>))) (pm_permit_id ?p) = Some row" "pr_consumed_at row \<noteq> None"
    with consumed show ?thesis by auto
  qed
qed

text \<open>
  C6. Delivery: a permit that the issuer returned is consumed at the gateway. In a world where nobody else acts, a permit
  signed with an Ed25519 key and presented, with the intent's request, at a gateway
  of the intent's venue that trusts the public half, after its issuance (less the clock skew) and before its expiry,
  is accepted, and the ledger records its consumption.
\<close>

theorem issued_permit_consumable:
  assumes "issue pa (from_intent i) i ad g r aa ra now w = (Inr signed, t)" and "w_env w = []"
    and "pa_backend pa = Ed25519PermitSigner sid k" and "ed_correct (pa_ed pa)"
    and "pg_cfg pg = pa_cfg pa" and "pg_ed pg = pa_ed pa"
    and "map_of (pg_verifiers pg) sid = Some (backend_public (pa_ed pa) (pa_backend pa))" and "map_of (pg_validity pg) sid = None"
    and "pa_ttl pa \<le> pg_lifetime pg" and "now \<le> clock + secs (pg_skew pg)" and "clock \<le> pm_expires_at (sp_permit signed)"
    and "anchor_takes (pa_cfg pa) (anchor (w_sys t))"
  shows "\<exists>u row. gateway_consume pg signed (from_intent i) clock (Some (i_venue i)) t = (Inr (True, []), u)
    \<and> permit_of (db (w_sys u)) (pm_permit_id (sp_permit signed)) = Some row \<and> pr_consumed_at row \<noteq> None"
proof -
  obtain s row where "gateway_consume pg signed (from_intent i) clock (Some (i_venue i)) t = (Inr (True, []), t\<lparr>w_sys := s\<rparr>)"
    "permit_of (db s) (pm_permit_id (sp_permit signed)) = Some row" "pr_consumed_at row \<noteq> None"
    using permit_delivered [OF assms refl] issue_quietE [OF assms(1,2)] by metis
  then show ?thesis by (intro exI [of _ "t\<lparr>w_sys := s\<rparr>"] exI [of _ row]) simp
qed

end
