(* ===== verification/Encodable.thy ===== *)
theory Encodable
  imports Models
begin

text \<open>
  Which values \<open>canonical_json\<close> encodes. \<open>encodable\<close> looks only at the shape of a value; the
  encoding succeeds exactly there, so a hash of a model object never fails unless a
  payload carries a value outside it.
\<close>

fun encodable :: "pyval \<Rightarrow> bool" where
  "encodable (PFloat f) = (case f of FRepr r \<Rightarrow> True | _ \<Rightarrow> False)"
| "encodable (PDec d) = canonically_bounded d"
| "encodable PNaive = False"
| "encodable (PSeq xs) = list_all encodable xs"
| "encodable (PSet xs) = list_all encodable xs"
| "encodable (PDict kvs) = list_all (\<lambda>(k, v). k \<noteq> KOther \<and> encodable v) kvs"
| "encodable POther = False"
| "encodable v = True"

lemma isl_all_ok: "isl (all_ok rs) \<longleftrightarrow> list_ex isl rs"
proof (induction rs)
  case (Cons r rs)
  have "all_ok (r # rs) = (case r of Inl e \<Rightarrow> Inl e | Inr x \<Rightarrow> map_sum id (\<lambda>xs. x # xs) (all_ok rs))"
    by (cases r) (simp_all add: all_ok_def)
  with Cons show ?case by (cases r) (simp_all add: isl_map_sum)
qed (simp add: all_ok_def)

lemma isl_keyed: "isl (keyed k r) \<longleftrightarrow> k = KOther \<or> isl r"
  by (cases k) (simp_all add: keyed_def isl_map_sum)

lemma isl_canonicalize: "isl (canonicalize v) \<longleftrightarrow> \<not> encodable v"
proof (induction v rule: canonicalize.induct)
  case (7 d)
  show ?case by (cases "canonical_decimal d") (simp_all add: canonically_bounded_def)
next
  case (14 kvs)
  then have "list_ex (\<lambda>x. isl (case x of (k, v) \<Rightarrow> keyed k (canonicalize v))) kvs \<longleftrightarrow> \<not> encodable (PDict kvs)"
    if "KOther \<notin> set (map fst kvs)"
    using that by (fastforce simp: list_ex_iff list_all_iff isl_keyed)
  moreover have "\<not> encodable (PDict kvs)" if "KOther \<in> set (map fst kvs)"
    using that by (auto simp: list_all_iff)
  ultimately show ?case by (simp add: isl_map_sum isl_all_ok list_ex_iff)
qed (auto simp: isl_map_sum isl_all_ok list_ex_iff list_all_iff)

lemma isl_canonical_hash: "isl (canonical_hash L v) \<longleftrightarrow> \<not> encodable v"
  by (simp add: canonical_hash_def canonical_json_def isl_map_sum isl_canonicalize)

lemma encodable_json: "encodable v \<Longrightarrow> \<exists>s. canonical_json v = Inr s"
  using isl_canonicalize [of v] by (cases "canonicalize v") (auto simp: canonical_json_def)

lemma encodable_hash: "encodable v \<Longrightarrow> \<exists>h. canonical_hash L v = Inr h"
  using isl_canonical_hash [of L v] by (cases "canonical_hash L v") auto

lemma encodable_dict [simp]: "encodable (dict_of p) = list_all (\<lambda>(k, v). encodable v) p"
  by (induction p) (auto simp: dict_of_def)

lemma encodable_strs [simp]: "encodable (p_strs xs)"
  by (simp add: p_strs_def list_all_iff)


end
