(* ===== verification/Scenarios.thy ===== *)
theory Scenarios
  imports Runtime_Progress Paper Settlement Permit_Delivery Encodable
begin

text \<open>
  One deployment, run: the demo grant and intent, an Ed25519 signer and issuer, the mock venue
  behind its permit gateway and the mock settlement verifier. The theorems of the other theories are
  applied to it here where their hypotheses concern several components. Hashes stay symbolic:
  the canonical form of every artifact exists, and nothing else about it is used.
\<close>

section \<open>The deployment\<close>

definition demo_issuer :: permit_authority where
  "demo_issuer =
     \<lparr>pa_cfg = demo_cfg, pa_trust = verify_ed25519_attestation demo_crypto demo_ed demo_verifier, pa_ed = demo_ed,
      pa_backend = Ed25519PermitSigner ''issuer-1'' ''permit-key'', pa_ttl = 15\<rparr>"

definition demo_gateway :: permit_gateway where
  "demo_gateway =
     \<lparr>pg_cfg = demo_cfg, pg_ed = demo_ed, pg_verifiers = [(''issuer-1'', Ed25519PermitVerifier ''issuer-1'' ''permit-key'')],
      pg_validity = [], pg_skew = 5, pg_lifetime = 60, pg_venue = None\<rparr>"

definition demo_venue :: "mock_mode \<Rightarrow> mock_venue" where
  "demo_venue m =
     \<lparr>mv_permit_verifier = demo_gateway, mv_crypto = demo_crypto, mv_name = ''mock'', mv_mode = m, mv_effects = [],
      mv_execute_calls = []\<rparr>"

definition demo_rt :: "mock_venue runtime" where
  "demo_rt =
     \<lparr>rt_cfg = demo_cfg, rt_adapters = [(''mock'', venue_execute)],
      rt_trust = verify_ed25519_attestation demo_crypto demo_ed demo_verifier, rt_authority = demo_issuer,
      rt_verifiers = [(''mock'', mock_verify ''verifier'')], rt_allow_test_time_override = False,
      rt_deadline_text = None, rt_max_orphaned = 8, rt_render = (\<lambda>e. (''Error'', ''text''))\<rparr>"

definition demo_risk_attestation :: attestation where
  "demo_risk_attestation =
     projr (ed_store_sign demo_crypto demo_ed demo_signer ''key-1'' K_RISK (pv_risk demo_risk) demo_intent (secs 1005) 30)"

definition demo_reauth :: reauth where
  "demo_reauth = (demo_authority, demo_risk, demo_authority_attestation, demo_risk_attestation)"

definition demo_usage_row :: usage_row where
  "demo_usage_row = new_usage demo_intent demo_grant (usd 40) (secs 1008) (secs 1008)"

text \<open>The grant is provisioned under the hash \<open>gh\<close> and the demo intent's usage is held.\<close>

definition demo_held :: "string \<Rightarrow> sys" where
  "demo_held gh = demo_sys\<lparr>db := empty_db\<lparr>grants := [demo_grant_row\<lparr>gr_hash := gh\<rparr>], usage := [demo_usage_row]\<rparr>\<rparr>"

definition demo_world :: "sys \<Rightarrow> mock_mode \<Rightarrow> mock_venue world" where
  "demo_world s m =
     \<lparr>w_sys = s, w_venue = demo_venue m, w_orphans = 0, w_active = [], w_env = [], w_late = [], w_calls = []\<rparr>"


section \<open>The demo permit is issued\<close>

lemma demo_risk_signed:
  "ed_store_sign demo_crypto demo_ed demo_signer ''key-1'' K_RISK (pv_risk demo_risk) demo_intent (secs 1005) 30
     = Inr demo_risk_attestation"
proof -
  have "\<not> isl (ed_store_sign demo_crypto demo_ed demo_signer ''key-1'' K_RISK (pv_risk demo_risk) demo_intent (secs 1005) 30)"
    by code_simp
  then show ?thesis by (simp add: demo_risk_attestation_def)
qed

lemma demo_risk_accepted:
  "verify_ed25519_attestation demo_crypto demo_ed demo_verifier demo_risk_attestation K_RISK (pv_risk demo_risk)
     demo_intent (secs 1010) = Inr (True, [])"
  by (rule sign_then_verify [OF demo_ed_correct demo_public demo_risk_signed])
    (simp_all add: demo_signer_def secs_def rejection_def)

lemma demo_allowed:
  "d_verdict (evaluate_authority demo_authority) = V_ALLOW \<and> d_verdict (evaluate_capability demo_intent demo_grant (secs 1010)) = V_ALLOW
    \<and> d_verdict (evaluate_risk demo_intent demo_grant demo_risk (secs 1010)) = V_ALLOW
    \<and> amount_reasons_of demo_intent demo_grant (request_amount (from_intent demo_intent)) = []"
  by code_simp

fun in_memory :: "anchor_state \<Rightarrow> bool" where
  "in_memory (Memory m) = True"
| "in_memory (Filed f) = False"

lemma in_memory_takes: "in_memory a \<Longrightarrow> anchor_takes c a"
  by (cases a) (simp_all add: anchor_takes_def)

lemma demo_store_calls:
  "\<exists>t. bindE (claim_permit_risk_state demo_intent demo_grant demo_risk) (\<lambda>claimed.
        bindE (next_execution_fence demo_cfg demo_grant) (\<lambda>ef.
        bindE (get_grant_control demo_cfg (g_principal_id demo_grant) (g_grant_id demo_grant) (g_version demo_grant)) (\<lambda>ctl.
        seqE (record_execution_permit pid demo_intent demo_grant 1 2 h (Some (secs 1025)) (Some (secs 1010)))
          (bindE (gets (\<lambda>s. (in_memory (anchor s), wall s))) (\<lambda>m. ret (claimed, ef, ctl, m)))))) (demo_held gh)
     = (Inr ((True, []), (1, 2), (CS GS_ACTIVE, 1, 2), True, secs 1006), t)"
  by (rule exI, rule run_eqI) code_simp

lemma demo_usage_held: "fst (verify_usage_held demo_intent demo_grant (demo_held gh)) = Inr True"
  by code_simp

lemma demo_sha: "canonical_hash demo_crypto v = Inr h \<Longrightarrow> h \<noteq> [] \<and> length h \<le> 12"
  by (cases "canonical_json v") (auto simp: canonical_hash_def demo_crypto_def)

lemma demo_encodable: "encodable (pv_request (from_intent demo_intent)) \<and> encodable (pv_grant demo_grant)"
  by code_simp

lemma encodable_attestation: "encodable (pv_attestation a)"
  by (simp add: pv_attestation_def)

lemma demo_amount: "request_amount (from_intent demo_intent) = Some (usd 40)
    \<and> (case parse_bounded_decimal (PDec (usd 40)) of None \<Rightarrow> False | Some b \<Rightarrow> \<not> dle b dzero)
    \<and> canonically_bounded (usd 40)"
  by code_simp

lemma encode_nonempty: "length raw = ED25519_SIGNATURE_BYTES \<Longrightarrow> encode_ed25519_signature raw \<noteq> []"
  using signature_decodes [of raw] by (auto simp: decode_ed25519_signature_def ED25519_SIGNATURE_CHARS_def)

lemma demo_minted:
  "\<exists>signed. mint demo_issuer (from_intent demo_intent) demo_intent demo_grant aa ra (secs 1010) (secs 1025) 1 2 = Inr signed"
proof -
  let ?L = "demo_crypto"
  obtain rh gh ah rah where h: "canonical_hash ?L (pv_request (from_intent demo_intent)) = Inr rh"
    "canonical_hash ?L (pv_grant demo_grant) = Inr gh" "canonical_hash ?L (pv_attestation aa) = Inr ah"
    "canonical_hash ?L (pv_attestation ra) = Inr rah"
    using encodable_hash demo_encodable encodable_attestation by meson
  note sizes = h [THEN demo_sha]
  let ?seed = "dict_of [(''principal_id'', PStr (i_principal_id demo_intent)), (''intent_id'', PStr (i_intent_id demo_intent)),
    (''grant_hash'', PStr gh), (''request_hash'', PStr rh), (''grant_epoch'', PInt 1), (''fence_token'', PInt 2)]"
  obtain seed where seed: "canonical_json ?seed = Inr seed" using encodable_json [of ?seed] by auto
  let ?permit = "\<lparr>pm_permit_id = ''permit_'' @ take 32 (sha256 ?L seed), pm_principal_id = i_principal_id demo_intent,
    pm_intent_id = i_intent_id demo_intent, pm_grant_id = g_grant_id demo_grant, pm_grant_version = g_version demo_grant,
    pm_grant_hash = gh, pm_request_hash = rh, pm_authority_attestation_hash = ah, pm_risk_attestation_hash = rah,
    pm_grant_epoch = 1, pm_fence_token = 2, pm_max_amount_usd = Some (usd 40), pm_issued_at = secs 1010, pm_expires_at = secs 1025\<rparr>"
  have permit: "execution_permit_init ?permit = Inr ?permit"
    using sizes demo_amount
    by (simp add: execution_permit_init_def require_def require_identifier_def require_int_def MAX_IDENTIFIER_CHARS_def
        MIN_INTENT_ID_CHARS_def MAX_SAFE_INT_def demo_intent_def demo_grant_def demo_crypto_def secs_def min_le_iff_disj
        del: parse_bounded_decimal.simps)
  obtain payload where payload: "signed_permit_payload ?permit ''issuer-1'' ED25519 = Inr payload"
    using encodable_json [of "dict_of [(''permit'', pv_permit ?permit), (''signer_id'', PStr ''issuer-1''), (''algorithm'', PStr (algorithm_str ED25519))]"]
      demo_amount
    by (auto simp: signed_permit_payload_def pv_permit_def p_opt_def)
  have "encode_ed25519_signature (ed_sign demo_ed ''permit-key'' payload) \<noteq> []"
    using demo_ed_correct by (intro encode_nonempty) (simp add: ed_correct_def)
  then show ?thesis
    using h seed permit payload
    by (simp add: mint_def demo_issuer_def demo_amount signed_permit_init_def require_def require_identifier_def MAX_IDENTIFIER_CHARS_def
        demo_cfg_def)
qed

lemma signed_expiry: "ed_store_sign L E st key_id kind subject i issued_at ttl = Inr a \<Longrightarrow> at_expires_at a = issued_at + secs ttl"
  by (auto simp: ed_store_sign_def sign_with_def attestation_init_def require_def Let_def split: if_splits option.splits sum.splits)

lemma demo_expiry:
  "permit_expiry demo_issuer demo_intent demo_grant demo_authority_attestation demo_risk_attestation (secs 1010) = secs 1025"
  using signed_expiry [OF demo_signed] signed_expiry [OF demo_risk_signed]
  by (simp add: permit_expiry_def demo_issuer_def demo_intent_def demo_grant_def secs_def)

text \<open>The whole issuance, in a world at rest.\<close>

lemma demo_grant_hash: "\<exists>gh. canonical_hash demo_crypto (pv_grant demo_grant) = Inr gh"
  using encodable_hash demo_encodable by blast

lemma demo_no_reasons:
  assumes "canonical_hash demo_crypto (pv_grant demo_grant) = Inr gh"
  shows "issue_reasons demo_issuer (from_intent demo_intent) demo_intent demo_authority demo_grant demo_risk
    demo_authority_attestation demo_risk_attestation (secs 1010) (demo_world (demo_held gh) m) = (Inr [], demo_world (demo_held gh) m)"
proof -
  let ?w = "demo_world (demo_held gh) m"
  obtain rh where rh: "canonical_hash demo_crypto (pv_request (from_intent demo_intent)) = Inr rh"
    using encodable_hash demo_encodable by blast
  have "verify_grant demo_grant gh (demo_held gh) = (Inr (), demo_held gh)"
    by (simp add: verify_grant_def op_simps demo_held_def demo_sys_def empty_db_def grant_of_def grant_key_def demo_grant_row_def demo_grant_def)
  moreover have "verify_usage_held demo_intent demo_grant (demo_held gh) = (Inr True, demo_held gh)"
    using demo_usage_held [of gh] by (simp add: verify_usage_held_def op_simps)
  moreover have "w_env ?w = []" "w_sys ?w = demo_held gh" "?w\<lparr>w_sys := demo_held gh\<rparr> = ?w" by (simp_all add: demo_world_def)
  moreover have "rq_principal_id (from_intent demo_intent) = i_principal_id demo_intent" "g_principal_id demo_grant = i_principal_id demo_intent"
    "\<not> secs 1010 > i_expires_at demo_intent" "g_valid_until demo_grant = Some (secs 100000)" "\<not> secs 1010 > secs 100000"
    by (simp_all add: from_intent_def demo_intent_def demo_grant_def secs_def)
  moreover have "pa_trust demo_issuer = verify_ed25519_attestation demo_crypto demo_ed demo_verifier"
    "c_crypto (pa_cfg demo_issuer) = demo_crypto"
    by (simp_all add: demo_issuer_def demo_cfg_def)
  ultimately show ?thesis
    using rh assms demo_allowed demo_accepted demo_risk_accepted
    by (simp add: issue_reasons_def op_simps call_quiet prefixed_def)
qed

lemma demo_issued:
  assumes "canonical_hash demo_crypto (pv_grant demo_grant) = Inr gh"
  shows "\<exists>signed t. issue demo_issuer (from_intent demo_intent) demo_intent demo_authority demo_grant demo_risk
    demo_authority_attestation demo_risk_attestation (secs 1010) (demo_world (demo_held gh) m) = (Inr signed, t)
    \<and> pm_expires_at (sp_permit signed) = secs 1025 \<and> in_memory (anchor (w_sys t)) \<and> wall (w_sys t) = secs 1006 \<and> w_venue t = demo_venue m \<and> w_env t = []"
proof -
  let ?w = "demo_world (demo_held gh) m"
  obtain signed where signed: "mint demo_issuer (from_intent demo_intent) demo_intent demo_grant demo_authority_attestation
      demo_risk_attestation (secs 1010) (secs 1025) 1 2 = Inr signed"
    using demo_minted by blast
  obtain h where h: "canonical_hash demo_crypto (pv_signed_permit signed) = Inr h"
    using encodable_hash [of "pv_signed_permit signed"] minted(9) [OF signed] demo_amount
    by (auto simp: pv_signed_permit_def pv_permit_def p_opt_def)
  obtain s1 s2 s3 s4 where calls:
    "claim_permit_risk_state demo_intent demo_grant demo_risk (demo_held gh) = (Inr (True, []), s1)"
    "next_execution_fence demo_cfg demo_grant s1 = (Inr (1, 2), s2)"
    "get_grant_control demo_cfg (g_principal_id demo_grant) (g_grant_id demo_grant) (g_version demo_grant) s2 = (Inr (CS GS_ACTIVE, 1, 2), s3)"
    "record_execution_permit (pm_permit_id (sp_permit signed)) demo_intent demo_grant 1 2 h (Some (secs 1025)) (Some (secs 1010)) s3 = (Inr (), s4)"
    and memory: "in_memory (anchor s4)" "wall s4 = secs 1006"
    using demo_store_calls [of "pm_permit_id (sp_permit signed)" h gh]
    by (auto simp: inr_simps gets_def)
  have "issue demo_issuer (from_intent demo_intent) demo_intent demo_authority demo_grant demo_risk
    demo_authority_attestation demo_risk_attestation (secs 1010) ?w = (Inr signed, ?w\<lparr>w_sys := s4\<rparr>)"
  proof -
    have "w_env ?w = []" "w_sys ?w = demo_held gh" "pa_cfg demo_issuer = demo_cfg" "c_crypto demo_cfg = demo_crypto" "\<not> secs 1025 \<le> secs 1010"
      by (simp_all add: demo_world_def demo_issuer_def demo_cfg_def secs_def)
    then show ?thesis
      using demo_no_reasons [OF assms, of m] signed h calls demo_expiry by (simp add: issue_def op_simps call_quiet Let_def)
  qed
  then show ?thesis using memory minted(11) [OF signed] by (auto simp: demo_world_def)
qed

text \<open>The demo permit, and its consumption at the venue's gateway in any world with the same store.\<close>

lemma demo_delivery:
  "\<exists>gh signed t. issue demo_issuer (from_intent demo_intent) demo_intent demo_authority demo_grant demo_risk
      demo_authority_attestation demo_risk_attestation (secs 1010) (demo_world (demo_held gh) m) = (Inr signed, t)
    \<and> wall (w_sys t) = secs 1006 \<and> w_venue t = demo_venue m \<and> w_env t = []
    \<and> (\<forall>x :: 'u world. w_sys x = w_sys t \<longrightarrow> w_env x = [] \<longrightarrow>
         (\<exists>s. gateway_consume demo_gateway signed (from_intent demo_intent) (secs 1006) (Some ''mock'') x
            = (Inr (True, []), x\<lparr>w_sys := s\<rparr>)))"
proof -
  obtain gh where "canonical_hash demo_crypto (pv_grant demo_grant) = Inr gh" using demo_grant_hash by blast
  then obtain signed t where iss: "issue demo_issuer (from_intent demo_intent) demo_intent demo_authority demo_grant demo_risk
      demo_authority_attestation demo_risk_attestation (secs 1010) (demo_world (demo_held gh) m) = (Inr signed, t)"
    "pm_expires_at (sp_permit signed) = secs 1025" "in_memory (anchor (w_sys t))"
    "wall (w_sys t) = secs 1006" "w_venue t = demo_venue m" "w_env t = []"
    using demo_issued by blast
  have venue: "i_venue demo_intent = ''mock''" by (simp add: demo_intent_def)
  have "\<exists>s. gateway_consume demo_gateway signed (from_intent demo_intent) (secs 1006) (Some ''mock'') x = (Inr (True, []), x\<lparr>w_sys := s\<rparr>)"
    if "w_sys x = w_sys t" "w_env x = []" for x :: "'u world"
  proof -
    have "\<exists>s row. gateway_consume demo_gateway signed (from_intent demo_intent) (secs 1006) (Some (i_venue demo_intent)) x
        = (Inr (True, []), x\<lparr>w_sys := s\<rparr>)
      \<and> permit_of (db s) (pm_permit_id (sp_permit signed)) = Some row \<and> pr_consumed_at row \<noteq> None"
      by (rule permit_delivered [OF iss(1), of "''issuer-1''" "''permit-key''"])
        (use iss(2) demo_ed_correct in_memory_takes [OF iss(3)] that in
          \<open>simp_all add: demo_world_def demo_issuer_def demo_gateway_def backend_public_def demo_ed_def secs_def\<close>)
    then show ?thesis unfolding venue by blast
  qed
  with iss show ?thesis by blast
qed

theorem issued_permit_sound_witness:
  "\<exists>w signed t. issue demo_issuer (from_intent demo_intent) demo_intent demo_authority demo_grant demo_risk
      demo_authority_attestation demo_risk_attestation (secs 1010) (w :: mock_venue world) = (Inr signed, t)
    \<and> pm_expires_at (sp_permit signed) \<le> i_expires_at demo_intent
    \<and> (\<exists>row. permit_of (db (w_sys t)) (pm_permit_id (sp_permit signed)) = Some row \<and> pr_consumed_at row = None)"
proof -
  obtain gh where "canonical_hash demo_crypto (pv_grant demo_grant) = Inr gh" using demo_grant_hash by blast
  then obtain signed t where iss: "issue demo_issuer (from_intent demo_intent) demo_intent demo_authority demo_grant demo_risk
      demo_authority_attestation demo_risk_attestation (secs 1010) (demo_world (demo_held gh) SUCCESS) = (Inr signed, t)"
    using demo_issued by blast
  have "pa_trust demo_issuer = verify_ed25519_attestation demo_crypto demo_ed demo_verifier" by (simp add: demo_issuer_def)
  from issued_permit_sound [OF iss this] iss show ?thesis by blast
qed

theorem issued_permit_consumable_witness:
  "\<exists>w signed t u. issue demo_issuer (from_intent demo_intent) demo_intent demo_authority demo_grant demo_risk
      demo_authority_attestation demo_risk_attestation (secs 1010) (w :: mock_venue world) = (Inr signed, t)
    \<and> gateway_consume demo_gateway signed (from_intent demo_intent) (secs 1012) (Some ''mock'') t = (Inr (True, []), u)"
proof -
  obtain gh where "canonical_hash demo_crypto (pv_grant demo_grant) = Inr gh" using demo_grant_hash by blast
  then obtain signed t where iss: "issue demo_issuer (from_intent demo_intent) demo_intent demo_authority demo_grant demo_risk
      demo_authority_attestation demo_risk_attestation (secs 1010) (demo_world (demo_held gh) SUCCESS) = (Inr signed, t)"
    "pm_expires_at (sp_permit signed) = secs 1025" "in_memory (anchor (w_sys t))"
    using demo_issued by blast
  have "\<exists>u row. gateway_consume demo_gateway signed (from_intent demo_intent) (secs 1012) (Some (i_venue demo_intent)) t = (Inr (True, []), u)
      \<and> permit_of (db (w_sys u)) (pm_permit_id (sp_permit signed)) = Some row \<and> pr_consumed_at row \<noteq> None"
    by (rule issued_permit_consumable [OF iss(1), of "''issuer-1''" "''permit-key''"])
      (use iss(2) demo_ed_correct in_memory_takes [OF iss(3)] in
        \<open>simp_all add: demo_world_def demo_issuer_def demo_gateway_def backend_public_def demo_ed_def secs_def\<close>)
  moreover have "i_venue demo_intent = ''mock''" by (simp add: demo_intent_def)
  ultimately show ?thesis using iss(1) by auto
qed

theorem gateway_consume_sound_witness:
  "\<exists>signed t u. gateway_consume demo_gateway signed (from_intent demo_intent) (secs 1006) (Some ''mock'') (t :: mock_venue world) = (Inr (True, []), u)
    \<and> secs 1006 \<le> pm_expires_at (sp_permit signed) \<and> pm_intent_id (sp_permit signed) = ''intent-0000000001''"
proof -
  obtain signed and t u :: "mock_venue world" where
    c: "gateway_consume demo_gateway signed (from_intent demo_intent) (secs 1006) (Some ''mock'') t = (Inr (True, []), u)"
    using demo_delivery by blast
  have "rq_intent_id (from_intent demo_intent) = ''intent-0000000001''" by (simp add: from_intent_def demo_intent_def)
  with gateway_consume_sound [OF c, of "''mock''"] c show ?thesis by auto
qed

section \<open>The demo request at the mock venue\<close>

lemma demo_receipt:
  "\<not> isl (admitted_receipt ((demo_venue SUCCESS)\<lparr>mv_execute_calls := calls\<rparr>) (from_intent demo_intent))
    \<and> mv_mode (demo_venue SUCCESS) = SUCCESS"
  by code_simp

lemma demo_effect:
  "\<exists>permit w. w_env (w :: mock_venue world) = [] \<and> w_venue w = demo_venue SUCCESS
    \<and> map_of (mv_effects (w_venue (exec (venue_execute (from_intent demo_intent) permit) w))) (venue_key (from_intent demo_intent)) \<noteq> None"
proof -
  let ?rq = "from_intent demo_intent" and ?k = "venue_key (from_intent demo_intent)"
  obtain signed and t :: "mock_venue world" where t: "wall (w_sys t) = secs 1006" "w_venue t = demo_venue SUCCESS" "w_env t = []"
    and accepts: "\<And>x :: mock_venue world. w_sys x = w_sys t \<Longrightarrow> w_env x = [] \<Longrightarrow>
      \<exists>s. gateway_consume demo_gateway signed ?rq (secs 1006) (Some ''mock'') x = (Inr (True, []), x\<lparr>w_sys := s\<rparr>)"
    using demo_delivery [of SUCCESS] by blast
  define x where "x = snd (count_call ?k t)"
  have x: "w_sys x = w_sys t" "w_env x = []" "mv_effects (w_venue x) = []" "mv_permit_verifier (w_venue x) = demo_gateway"
    "mv_name (w_venue x) = ''mock''" "mv_mode (w_venue x) = SUCCESS"
    "w_venue x = (demo_venue SUCCESS)\<lparr>mv_execute_calls := mv_execute_calls (w_venue x)\<rparr>"
    using t by (simp_all add: x_def count_call_def modify_def demo_venue_def)
  obtain s where s: "gateway_consume demo_gateway signed ?rq (secs 1006) (Some ''mock'') x = (Inr (True, []), x\<lparr>w_sys := s\<rparr>)"
    using accepts [OF x(1,2)] by blast
  obtain rc where rc: "admitted_receipt (w_venue x) ?rq = Inr rc"
    using demo_receipt [of "mv_execute_calls (w_venue x)"] x(7) by (cases "admitted_receipt (w_venue x) ?rq") auto
  have clock: "read_clock x = (Inr (secs 1006), x)" using t(1) x(1,2) by (simp add: read_clock_def disturb_def)
  have "count_call ?k t = (Inr (), x)" by (simp add: x_def count_call_def modify_def)
  then have "exec (venue_execute ?rq signed) t
      = x\<lparr>w_sys := s, w_venue := (w_venue x)\<lparr>mv_effects := AList.update ?k rc (mv_effects (w_venue x))\<rparr>\<rparr>"
    using x(3-6) clock s rc by (simp add: exec_def venue_execute_def admit_def set_effect_def op_simps)
  then show ?thesis using t(2,3) by (intro exI [of _ signed] exI [of _ t]) (simp add: update_conv)
qed

theorem venue_effect_needs_consumed_permit_witness:
  "\<exists>permit w. map_of (mv_effects (w_venue (exec (venue_execute (from_intent demo_intent) permit) w))) (venue_key (from_intent demo_intent)) \<noteq> None
    \<and> (\<exists>row. permit_of (db (w_sys (exec (venue_execute (from_intent demo_intent) permit) w))) (pm_permit_id (sp_permit permit)) = Some row
         \<and> pr_consumed_at row \<noteq> None)"
proof -
  obtain permit and w :: "mock_venue world" where w: "w_env w = []" "w_venue w = demo_venue SUCCESS"
    "map_of (mv_effects (w_venue (exec (venue_execute (from_intent demo_intent) permit) w))) (venue_key (from_intent demo_intent)) \<noteq> None"
    using demo_effect by blast
  have "venue_untouched (w_env w)" "map_of (mv_effects (w_venue w)) (venue_key (from_intent demo_intent)) = None"
    using w(1,2) by (simp_all add: venue_untouched_def demo_venue_def)
  from venue_effect_needs_consumed_permit [OF this w(3)] w(3) show ?thesis by blast
qed

theorem venue_idempotent_witness:
  "\<exists>rc permit w. map_of (mv_effects (w_venue w)) (venue_key (from_intent demo_intent)) = Some rc
    \<and> fst (venue_execute (from_intent demo_intent) permit w) = Inr (Receipt rc)
    \<and> w_sys (exec (venue_execute (from_intent demo_intent) permit) w) = w_sys w"
proof -
  obtain rc permit and w :: "mock_venue world" where "map_of (mv_effects (w_venue w)) (venue_key (from_intent demo_intent)) = Some rc"
    using demo_effect by blast
  from venue_idempotent [OF this] this show ?thesis by blast
qed

section \<open>The demo request at a paper venue\<close>

text \<open>A paper venue under the same gateway: it does not pay, so it records the admitted request as cancelled.\<close>

definition demo_paper_at :: "permit_gateway \<Rightarrow> paper_venue" where
  "demo_paper_at gateway = \<lparr>pt_name = ''mock'', pt_prices_usd = [(''GOLD'', usd 50)], pt_permit_verifier = gateway, pt_crypto = demo_crypto,
     pt_balances = [(''USDC'', usd 100)], pt_effects = [], pt_render = (\<lambda>_. [])\<rparr>"

definition demo_refusal :: string where
  "demo_refusal = ''primitive '' @ primitive_str PAY @ '' unsupported by paper trading venue''"

lemma demo_rejection:
  "\<not> isl (paper_receipt (demo_paper_at gateway) (from_intent demo_intent)
      (''paper_rej_'' @ take 24 (sha256 demo_crypto (venue_key (from_intent demo_intent)))) ST_CANCELLED (Some dzero)
      (''rejected'', PStr demo_refusal))
    \<and> paper_notional (from_intent demo_intent) = Inr (DFin False 40 0)"
  by code_simp

lemma demo_paper_admits: "pt_effects (snd (admit_paper (from_intent demo_intent) (demo_paper_at demo_gateway))) \<noteq> []"
proof -
  let ?rq = "from_intent demo_intent"
  have "rq_primitive ?rq = PAY" "pt_crypto (demo_paper_at demo_gateway) = demo_crypto" by (simp_all add: from_intent_def demo_intent_def demo_paper_at_def)
  moreover obtain rc where "paper_receipt (demo_paper_at demo_gateway) ?rq (''paper_rej_'' @ take 24 (sha256 demo_crypto (venue_key ?rq))) ST_CANCELLED (Some dzero)
      (''rejected'', PStr demo_refusal) = Inr rc"
    using demo_rejection [of demo_gateway] by (metis sum.collapse(2))
  moreover have "map_of (AList.update (venue_key ?rq) rc xs) (venue_key ?rq) = Some rc" for rc and xs :: "(string \<times> execution_receipt) list"
    by (simp add: update_conv)
  ultimately have "map_of (pt_effects (snd (admit_paper ?rq (demo_paper_at demo_gateway)))) (venue_key ?rq) = Some rc"
    using demo_rejection [of demo_gateway] unfolding demo_refusal_def
    by (simp add: admit_paper_def paper_fill_def paper_reject_def unless_failed_def trade_def record_effect_def op_simps)
  then show ?thesis by auto
qed

theorem paper_venue_safe_witness:
  "\<exists>permit w. w_venue w = demo_paper_at demo_gateway \<and> w_venue (exec (paper_execute (from_intent demo_intent) permit) w) \<noteq> demo_paper_at demo_gateway
    \<and> solvent (w_venue (exec (paper_execute (from_intent demo_intent) permit) w))
    \<and> (\<exists>row. permit_of (db (w_sys (exec (paper_execute (from_intent demo_intent) permit) w))) (pm_permit_id (sp_permit permit)) = Some row
         \<and> pr_consumed_at row \<noteq> None)"
proof -
  let ?rq = "from_intent demo_intent"
  obtain signed and t :: "mock_venue world" where t: "wall (w_sys t) = secs 1006"
    and accepts: "\<And>x :: paper_venue world. w_sys x = w_sys t \<Longrightarrow> w_env x = [] \<Longrightarrow>
      \<exists>s. gateway_consume demo_gateway signed ?rq (secs 1006) (Some ''mock'') x = (Inr (True, []), x\<lparr>w_sys := s\<rparr>)"
    using demo_delivery [of SUCCESS] by blast
  define x :: "paper_venue world" where
    "x = \<lparr>w_sys = w_sys t, w_venue = demo_paper_at demo_gateway, w_orphans = 0, w_active = [], w_env = [], w_late = [], w_calls = []\<rparr>"
  obtain s where s: "gateway_consume demo_gateway signed ?rq (secs 1006) (Some ''mock'') x = (Inr (True, []), x\<lparr>w_sys := s\<rparr>)"
    using accepts [of x] by (auto simp: x_def)
  have clock: "read_clock x = (Inr (secs 1006), x)" using t(1) by (simp add: read_clock_def disturb_def x_def)
  have x: "w_venue x = (demo_paper_at demo_gateway)" "pt_effects (demo_paper_at demo_gateway) = []" "pt_permit_verifier (demo_paper_at demo_gateway) = demo_gateway" "pt_name (demo_paper_at demo_gateway) = ''mock''"
    by (simp_all add: x_def demo_paper_at_def)
  have "w_venue (exec (paper_execute ?rq signed) x) = snd (admit_paper ?rq (demo_paper_at demo_gateway))"
    using x clock s by (simp add: exec_def paper_execute_def op_simps on_venue_def split: prod.splits)
  with demo_paper_admits x(2) have changed: "w_venue (exec (paper_execute ?rq signed) x) \<noteq> (demo_paper_at demo_gateway)" by metis
  have "venue_untouched (w_env x)" "solvent (w_venue x)"
    by (simp_all add: x_def venue_untouched_def demo_paper_at_def solvent_def usd_def)
  from paper_venue_safe [OF this refl] x(1) changed show ?thesis by (intro exI [of _ signed] exI [of _ x]) auto
qed

section \<open>What the mock venue and the mock verifier do to the store\<close>

fun is_consume :: "store_action \<Rightarrow> bool" where
  "is_consume (Consume c pid who gid v epoch fence h) = True"
| "is_consume a = False"

lemma performs_acts: "performs P m \<Longrightarrow> guarantees (acts P) (call m)"
  by (rule call_acts) (simp add: performs_def)

lemma venue_modify_acts: "guarantees (acts P) (modify (\<lambda>w. w\<lparr>w_venue := f w\<rparr>))"
  by (auto simp: guarantees_def modify_def acts_def intro: exI [of _ "[]"])

lemma gateway_consume_acts:
  assumes "\<And>a. is_consume a \<Longrightarrow> P a"
  shows "guarantees (acts P) (gateway_consume pg permit rq now venue)"
proof -
  have "performs P (consume_execution_permit c pid who gid ver epoch fence h)" for c pid who gid ver epoch fence h
    by (rule performsI, rule perform.simps, rule assms) simp
  then show ?thesis
    unfolding gateway_consume_def gateway_verify_def verify_checked_def Let_def
    by (intro acting.guar_rules performs_acts reads_only)
qed

lemma mock_components_act:
  assumes "\<And>a. is_consume a \<Longrightarrow> P a"
  shows "guarantees (acts P) (venue_execute rq permit)" and "guarantees (acts P) (mock_verify name rq)"
  unfolding venue_execute_def mock_verify_def count_call_def admit_def set_effect_def
  by (intro acting.guar_rules venue_modify_acts gateway_consume_acts read_clock_acts assms; simp)+

lemma mock_components_frame: "guarantees frame (venue_execute rq permit)" "guarantees frame (mock_verify name rq)"
proof -
  have venue: "guarantees frame (modify (\<lambda>w :: mock_venue world. w\<lparr>w_venue := f w\<rparr>))" for f
    by (simp add: guarantees_def modify_def frame_def)
  have consume: "guarantees frame (gateway_consume pg permit rq now v :: (mock_venue world, bool \<times> string list) op)" for pg now v
    unfolding gateway_consume_def gateway_verify_def verify_checked_def Let_def by (intro World.framing.guar_rules call_frame)
  show "guarantees frame (venue_execute rq permit)" "guarantees frame (mock_verify name rq)"
    unfolding venue_execute_def mock_verify_def count_call_def admit_def set_effect_def
    by (intro World.framing.guar_rules venue consume read_clock_frame)+
qed

lemma demo_silent: "silent demo_rt"
  using mock_components_frame by (auto simp: silent_def demo_rt_def guarantees_def frame_def)

section \<open>The theorems on the runtime, on this deployment\<close>

theorem worker_least_privilege_witness:
  "\<exists>as. list_all (\<lambda>a. is_consume a \<or> worker_action demo_cfg demo_intent a \<or> issuing_action demo_issuer demo_intent a) as
    \<and> w_sys (exec (process 3 demo_rt demo_intent demo_grant demo_reauth None) (demo_world (demo_held ''hash'') SUCCESS))
      = run_actions as (demo_held ''hash'')"
proof -
  let ?w = "demo_world (demo_held ''hash'') SUCCESS"
  have "env_ok is_consume (w_env ?w)" by (simp add: env_ok_def demo_world_def)
  moreover have "rt_cfg demo_rt = demo_cfg" "rt_authority demo_rt = demo_issuer" "w_sys ?w = demo_held ''hash''"
    "set (rt_adapters demo_rt) = {(''mock'', venue_execute)}" "set (rt_verifiers demo_rt) = {(''mock'', mock_verify ''verifier'')}"
    by (simp_all add: demo_rt_def demo_world_def)
  ultimately show ?thesis
    using worker_least_privilege [of is_consume ?w demo_rt demo_intent 3 demo_grant demo_reauth None] by (simp add: mock_components_act)
qed


theorem one_consumption_per_intent_witness:
  "length (filter (\<lambda>p. pr_consumed_at p \<noteq> None)
     (permits_of (db (w_sys (fold (enter demo_rt demo_intent)
        [Process 3 demo_grant demo_reauth None, Reconcile 3 demo_grant None None, Process 3 demo_grant demo_reauth None]
        (demo_world (demo_held ''hash'') TIMEOUT_BEFORE_EFFECT)))) ''intent-0000000001'')) \<le> 1"
proof -
  let ?w = "demo_world (demo_held ''hash'') TIMEOUT_BEFORE_EFFECT"
  have "sole_issuer demo_rt (i_intent_id demo_intent)"
  proof -
    have "is_consume a \<Longrightarrow> \<not> issues_for (i_intent_id demo_intent) a" for a by (cases a) simp_all
    with mock_components_act [of "\<lambda>a. \<not> issues_for (i_intent_id demo_intent) a"] show ?thesis
      by (simp add: sole_issuer_def demo_rt_def)
  qed
  moreover have "env_ok (\<lambda>a. \<not> issues_for (i_intent_id demo_intent) a) (w_env ?w)" by (simp add: env_ok_def demo_world_def)
  moreover have "db_ok (db (w_sys ?w))"
    by (simp add: demo_world_def demo_held_def db_ok_def empty_db_def effects_unique_def demo_usage_row_def)
  moreover have "permits_of (db (w_sys ?w)) (i_intent_id demo_intent) = []"
    by (simp add: demo_world_def demo_held_def permits_of_def empty_db_def)
  moreover have "i_intent_id demo_intent = ''intent-0000000001''" by (simp add: demo_intent_def)
  ultimately show ?thesis using one_consumption_per_intent [of demo_rt demo_intent ?w] by metis
qed

text \<open>The mock components are bounded: they respect the ledgers and the verifier only reads.\<close>

lemma mock_components_steady: "guarantees steady (venue_execute rq permit)" "guarantees steady (mock_verify name rq)"
proof -
  have venue: "guarantees steady (modify (\<lambda>w :: mock_venue world. w\<lparr>w_venue := f w\<rparr>))" for f
    by (simp add: guarantees_def modify_def steady_def)
  have "performs is_consume (consume_execution_permit c pid who gid ver epoch fence h)" for c pid who gid ver epoch fence h
    by (rule performsI, rule perform.simps) simp
  then have consume: "guarantees steady (gateway_consume pg permit rq now v :: (mock_venue world, bool \<times> string list) op)" for pg now v
    unfolding gateway_consume_def gateway_verify_def verify_checked_def Let_def
    by (intro steadying.guar_rules call_steady [of is_consume] reads_only)
  show "guarantees steady (venue_execute rq permit)" "guarantees steady (mock_verify name rq)"
    unfolding venue_execute_def mock_verify_def count_call_def admit_def set_effect_def
    by (intro steadying.guar_rules venue consume clock_steady)+
qed

lemma mock_verify_reads: "snd (mock_verify name rq w) = w"
  by (auto simp: mock_verify_def op_simps split: sum.splits prod.splits)

interpretation demo_bounded: bounded_runtime demo_rt demo_intent demo_grant
  by unfold_locales (auto simp: demo_rt_def mock_components_steady mock_verify_reads)

text \<open>The demo intent's grant allows two attempts, so three levels are enough for it.\<close>

theorem process_fuel_enough_witness:
  "process (3 + 7) demo_rt demo_intent demo_grant demo_reauth None (demo_world (demo_held ''hash'') TIMEOUT_BEFORE_EFFECT)
   = process 3 demo_rt demo_intent demo_grant demo_reauth None (demo_world (demo_held ''hash'') TIMEOUT_BEFORE_EFFECT)"
proof (rule process_fuel_enough)
  show "enough demo_intent demo_grant 3 (demo_world (demo_held ''hash'') TIMEOUT_BEFORE_EFFECT)"
    by (simp add: enough_def demo_world_def demo_held_def db_ok_def empty_db_def effects_unique_def demo_usage_row_def intent_of_def
        demo_grant_def demo_limits_def)
qed (auto simp: demo_rt_def mock_components_steady mock_verify_reads)

definition demo_registered :: sys where
  "demo_registered = (demo_held ''hash'')\<lparr>db := (db (demo_held ''hash''))\<lparr>intents := [new_intent_row demo_intent ''hash'' ''{}'' 0]\<rparr>\<rparr>"

theorem reconcile_terminates_witness:
  "reconcile_over (\<lambda>i g re now ds allow block. raise_exn KeyError) 3 demo_rt demo_intent demo_grant None None [] True None
     (demo_world demo_registered SUCCESS)
   = reconcile 3 demo_rt demo_intent demo_grant None None [] True None (demo_world demo_registered SUCCESS)"
proof (rule reconcile_terminates)
  show "db_ok (db (w_sys (demo_world demo_registered SUCCESS)))"
    "intent_of (db (w_sys (demo_world demo_registered SUCCESS))) (i_intent_id demo_intent) = Some (new_intent_row demo_intent ''hash'' ''{}'' 0)"
    by (simp_all add: demo_registered_def demo_world_def demo_held_def db_ok_def empty_db_def effects_unique_def demo_usage_row_def
        intent_of_def new_intent_row_def)
qed (auto simp: demo_rt_def mock_components_steady mock_verify_reads new_intent_row_def demo_grant_def demo_limits_def demo_world_def)

end
