(* ===== verification/Anchor_Refine.thy ===== *)
theory Anchor_Refine
  imports Anchor
begin

text \<open>
  The two anchors of \<open>faar/anchor.py\<close> are one component: on every sequence of calls a healthy
  \<open>FileAuthorityAnchor\<close> answers what \<open>InMemoryAuthorityAnchor\<close> answers. The relation between
  them reads the file as the marks and the identity it denotes.
\<close>

section \<open>Calls and answers\<close>

datatype anchor_call = HighWater string int | Record string int mark | Reset string int mark | Identity | BindIdentity string

datatype anchor_answer = AnsMark "exn + mark option" | AnsUnit "exn + unit" | AnsIdentity "exn + string option"

definition answered :: "('b \<Rightarrow> anchor_answer) \<Rightarrow> 'b \<times> 's \<Rightarrow> anchor_answer \<times> 's" where
  "answered c p = (c (fst p), snd p)"

fun memory_call :: "anchor_call \<Rightarrow> memory_anchor \<Rightarrow> anchor_answer \<times> memory_anchor" where
  "memory_call (HighWater g v) b = answered AnsMark (ma_high_water g v b)"
| "memory_call (Record g v k) b = answered AnsUnit (ma_record g v k b)"
| "memory_call (Reset g v k) b = answered AnsUnit (ma_reset g v k b)"
| "memory_call Identity b = answered AnsIdentity (ma_identity_op b)"
| "memory_call (BindIdentity n) b = answered AnsUnit (ma_bind_identity n b)"

fun file_call :: "anchor_call \<Rightarrow> file_anchor \<Rightarrow> anchor_answer \<times> file_anchor" where
  "file_call (HighWater g v) a = answered AnsMark (fa_high_water g v a)"
| "file_call (Record g v k) a = answered AnsUnit (fa_record g v k a)"
| "file_call (Reset g v k) a = answered AnsUnit (fa_reset g v k a)"
| "file_call Identity a = answered AnsIdentity (fa_identity a)"
| "file_call (BindIdentity n) a = answered AnsUnit (fa_bind_identity n a)"

fun run_calls :: "(anchor_call \<Rightarrow> 's \<Rightarrow> anchor_answer \<times> 's) \<Rightarrow> anchor_call list \<Rightarrow> 's \<Rightarrow> anchor_answer list \<times> 's" where
  "run_calls f [] s = ([], s)"
| "run_calls f (c # cs) s = (case f c s of (r, t) \<Rightarrow> (case run_calls f cs t of (rs, u) \<Rightarrow> (r # rs, u)))"

text \<open>The calls the store makes: marks are never negative and an identity is never empty.\<close>

fun proper_call :: "anchor_call \<Rightarrow> bool" where
  "proper_call (Record g v k) \<longleftrightarrow> (0, 0) \<le> k"
| "proper_call (BindIdentity n) \<longleftrightarrow> n \<noteq> []"
| "proper_call c \<longleftrightarrow> True"

section \<open>The simulation\<close>

definition denotes :: "file_anchor \<Rightarrow> memory_anchor \<Rightarrow> bool" where
  "denotes a b \<longleftrightarrow> fa_lock_free a \<and> fa_writable a \<and> fa_content a \<noteq> Missing \<and> fa_content a \<noteq> Unparsable
     \<and> (\<forall>g v. map_of (fa_entries a) (fa_key g v) = map_option (\<lambda>(e, f). FMark e f) (map_of (ma_marks b) (g, v)))
     \<and> map_of (fa_entries a) ANCHOR_IDENTITY_KEY = map_option FText (ma_identity b) \<and> ma_identity b \<noteq> Some []"

lemma denotes_read: "denotes a b \<Longrightarrow> fa_lock_free a \<and> fa_read a = (Inr (fa_entries a), a)"
  by (auto simp: denotes_def fa_read_def fa_entries_def split: file_content.splits)

lemma denotes_put:
  assumes "denotes a b"
  shows "denotes (a\<lparr>fa_content := Marks (fa_put (fa_key g v) (FMark e f) (fa_entries a))\<rparr>) (b\<lparr>ma_marks := AList.update (g, v) (e, f) (ma_marks b)\<rparr>)"
    and "n \<noteq> [] \<Longrightarrow> denotes (a\<lparr>fa_content := Marks (fa_put ANCHOR_IDENTITY_KEY (FText n) (fa_entries a))\<rparr>) (b\<lparr>ma_identity := Some n\<rparr>)"
  using assms fa_key_not_identity
  by (auto simp: denotes_def fa_entries_def [of "_\<lparr>fa_content := _\<rparr>"] fa_key_inj update_conv' dest: not_sym)

lemma denotes_same_mark:
  assumes "denotes a b" and "map_of (ma_marks b) (g, v) = Some m"
  shows "denotes a (b\<lparr>ma_marks := AList.update (g, v) m (ma_marks b)\<rparr>)"
  using assms by (auto simp: denotes_def update_conv')

lemma call_simulated:
  assumes "denotes a b" and "proper_call c"
  shows "fst (file_call c a) = fst (memory_call c b) \<and> denotes (snd (file_call c a)) (snd (memory_call c b))"
proof -
  note r = denotes_read [OF assms(1)]
  have entry: "map_of (fa_entries a) (fa_key g v) = map_option (\<lambda>(e, f). FMark e f) (map_of (ma_marks b) (g, v))" for g v
    using assms(1) by (auto simp: denotes_def)
  have ident: "map_of (fa_entries a) ANCHOR_IDENTITY_KEY = map_option FText (ma_identity b)" "ma_identity b \<noteq> Some []" "fa_writable a"
    using assms(1) by (auto simp: denotes_def)
  have same: "ma_identity b = Some n \<Longrightarrow> b\<lparr>ma_identity := Some n\<rparr> = b" for n by simp
  show ?thesis
  proof (cases c)
    case (Record g v k)
    then show ?thesis
      using assms r entry [of g v] ident(3) denotes_put(1) [OF assms(1), of g v "fst k" "snd k"] denotes_same_mark [OF assms(1), of g v]
      by (auto simp: answered_def fa_record_def ma_record_def fa_exclusive_def fa_write_def fa_mark_def op_simps max_def not_le
          split: option.splits)
  qed (use assms r entry ident denotes_put [OF assms(1)] in
      \<open>auto simp: answered_def fa_high_water_def fa_reset_def fa_identity_def fa_bind_identity_def ma_high_water_def ma_reset_def
        ma_identity_op_def ma_bind_identity_def fa_exclusive_def fa_write_def fa_mark_def op_simps same split: option.splits\<close>)
qed

text \<open>
  C39. The file anchor refines the in-memory one: related states give the same answers to any sequence of
  proper calls, and stay related. So whatever is shown of a store over the in-memory anchor holds
  over a file that is readable, writable and not locked by another process.
\<close>

theorem file_anchor_refines_memory:
  assumes "denotes a b" and "list_all proper_call calls"
  shows "fst (run_calls file_call calls a) = fst (run_calls memory_call calls b)
    \<and> denotes (snd (run_calls file_call calls a)) (snd (run_calls memory_call calls b))"
  using assms
proof (induction calls arbitrary: a b)
  case (Cons c calls)
  then have "fst (file_call c a) = fst (memory_call c b)" "denotes (snd (file_call c a)) (snd (memory_call c b))"
    using call_simulated by auto
  with Cons show ?case by (auto simp: split_def)
qed simp

theorem file_anchor_refines_memory_witness:
  "fst (run_calls file_call [BindIdentity ''id'', Record ''g'' 1 (1, 2), Record ''g'' 1 (1, 0), HighWater ''g'' 1]
      \<lparr>fa_content = Blank, fa_lock_free = True, fa_writable = True\<rparr>)
    = [AnsUnit (Inr ()), AnsUnit (Inr ()), AnsUnit (Inr ()), AnsMark (Inr (Some (1, 2)))]"
proof -
  have "denotes \<lparr>fa_content = Blank, fa_lock_free = True, fa_writable = True\<rparr> ma_new"
    by (simp add: denotes_def ma_new_def fa_entries_def)
  moreover have "fst (run_calls memory_call [BindIdentity ''id'', Record ''g'' 1 (1, 2), Record ''g'' 1 (1, 0), HighWater ''g'' 1] ma_new)
    = [AnsUnit (Inr ()), AnsUnit (Inr ()), AnsUnit (Inr ()), AnsMark (Inr (Some (1, 2)))]"
    by (simp add: answered_def ma_new_def ma_bind_identity_def ma_record_def ma_high_water_def max_def less_eq_prod_def)
  moreover have "list_all proper_call [BindIdentity ''id'', Record ''g'' 1 (1, 2), Record ''g'' 1 (1, 0), HighWater ''g'' 1]"
    by (simp add: less_eq_prod_def)
  ultimately show ?thesis using file_anchor_refines_memory [THEN conjunct1, THEN trans] by blast
qed

end
