(* ===== verification/Protocol.thy ===== *)
theory Protocol
  imports Canonical "HOL-Library.Multiset"
begin

text \<open>
  \<open>evals/model_check_permit_protocol.py\<close>: the abstract permit protocol of one intent and the
  bounded search over it. The search explores the states up to a depth; here its invariant is
  proved for runs of every length and every number of permits, the two rules are shown necessary,
  and the search itself is a terminating function whose verdict is the invariant's.
\<close>

section \<open>State and actions\<close>

record ppermit =
  pp_epoch :: int
  in_flight :: bool
  consumed :: bool
  expired :: bool
  voided :: bool

definition live :: "ppermit \<Rightarrow> bool" where
  "live p \<longleftrightarrow> \<not> consumed p \<and> \<not> expired p \<and> \<not> voided p"

datatype observation_status = OBS_NONE | OBS_FINALIZED

record pstate =
  grant_epoch :: int
  grant_active :: bool
  halted :: bool
  ps_permits :: "ppermit list"
  effect_count :: int
  observed :: observation_status
  finalized :: bool

definition initial :: pstate where
  "initial =
     \<lparr>grant_epoch = 1, grant_active = True, halted = False, ps_permits = [], effect_count = 0, observed = OBS_NONE,
      finalized = False\<rparr>"

definition new_permit :: "int \<Rightarrow> ppermit" where
  "new_permit epoch = \<lparr>pp_epoch = epoch, in_flight = False, consumed = False, expired = False, voided = False\<rparr>"

definition with_permit :: "pstate \<Rightarrow> nat \<Rightarrow> ppermit \<Rightarrow> pstate" where
  "with_permit s idx p = s\<lparr>ps_permits := (ps_permits s)[idx := p]\<rparr>"

definition numbered :: "string \<Rightarrow> nat \<Rightarrow> string" where
  "numbered name idx = name @ str_int (int idx)"

text \<open>\<open>yield_if\<close> is an \<open>if\<close> around a \<open>yield\<close>.\<close>

definition yield_if :: "bool \<Rightarrow> 'a \<Rightarrow> 'a list" where
  "yield_if b x = (if b then [x] else [])"

definition issue_actions :: "nat \<Rightarrow> bool \<Rightarrow> bool \<Rightarrow> pstate \<Rightarrow> (string \<times> pstate) list" where
  "issue_actions max_permits require_quiescence require_ledger_check s =
     (let quiescent = list_all (\<lambda>p. \<not> live p) (ps_permits s);
          ledger_clean = (\<not> list_ex consumed (ps_permits s)) in
      yield_if (grant_active s \<and> \<not> halted s \<and> observed s = OBS_NONE \<and> \<not> finalized s \<and> length (ps_permits s) < max_permits
            \<and> (quiescent \<or> \<not> require_quiescence) \<and> (ledger_clean \<or> \<not> require_ledger_check))
        (''issue'', s\<lparr>ps_permits := ps_permits s @ [new_permit (grant_epoch s)]\<rparr>))"

definition permit_actions :: "pstate \<Rightarrow> nat \<Rightarrow> (string \<times> pstate) list" where
  "permit_actions s idx =
     (let p = ps_permits s ! idx in
      yield_if (live p \<and> \<not> in_flight p) (numbered ''submit'' idx, with_permit s idx (p\<lparr>in_flight := True\<rparr>)) @
      yield_if (live p \<and> in_flight p \<and> grant_active s \<and> \<not> halted s \<and> pp_epoch p = grant_epoch s)
        (numbered ''consume'' idx, (with_permit s idx (p\<lparr>consumed := True\<rparr>))\<lparr>effect_count := effect_count s + 1\<rparr>) @
      yield_if (live p) (numbered ''expire'' idx, with_permit s idx (p\<lparr>expired := True\<rparr>)))"

definition void_live :: "ppermit \<Rightarrow> ppermit" where
  "void_live p = (if live p then p\<lparr>voided := True\<rparr> else p)"

definition control_actions :: "pstate \<Rightarrow> (string \<times> pstate) list" where
  "control_actions s =
     yield_if (list_ex live (ps_permits s) \<and> observed s = OBS_NONE)
       (''void'', s\<lparr>ps_permits := map void_live (ps_permits s)\<rparr>) @
     yield_if (grant_active s) (''revoke'', s\<lparr>grant_active := False, grant_epoch := grant_epoch s + 1\<rparr>) @
     (if \<not> halted s then [(''halt'', s\<lparr>halted := True, grant_epoch := grant_epoch s + 1\<rparr>)]
      else [(''resume'', s\<lparr>halted := False\<rparr>)]) @
     yield_if (effect_count s \<ge> 1 \<and> observed s \<noteq> OBS_FINALIZED) (''verify_final'', s\<lparr>observed := OBS_FINALIZED\<rparr>) @
     yield_if (observed s = OBS_FINALIZED \<and> \<not> finalized s) (''finalize'', s\<lparr>finalized := True\<rparr>)"

definition protocol_actions :: "nat \<Rightarrow> bool \<Rightarrow> bool \<Rightarrow> pstate \<Rightarrow> (string \<times> pstate) list" where
  "protocol_actions max_permits q l s =
     issue_actions max_permits q l s @ concat (map (permit_actions s) [0..<length (ps_permits s)]) @ control_actions s"

definition invariant_failures :: "pstate \<Rightarrow> string list" where
  "invariant_failures s =
     yield_if (effect_count s > 1) ''DUPLICATE_EFFECT'' @
     yield_if (effect_count s > int (length (filter consumed (ps_permits s)))) ''EFFECT_WITHOUT_CONSUMED_PERMIT'' @
     yield_if (finalized s \<and> (effect_count s \<noteq> 1 \<or> observed s \<noteq> OBS_FINALIZED)) ''FINALIZED_WITHOUT_AUTHORITATIVE_EFFECT'' @
     yield_if (list_ex (\<lambda>p. consumed p \<and> (expired p \<or> voided p)) (ps_permits s)) ''DEAD_PERMIT_CONSUMED''"

section \<open>Runs and their invariant\<close>

inductive reaches :: "nat \<Rightarrow> bool \<Rightarrow> bool \<Rightarrow> pstate \<Rightarrow> string list \<Rightarrow> pstate \<Rightarrow> bool" for m q l where
  start: "reaches m q l s [] s"
| step: "reaches m q l s path t \<Longrightarrow> (name, u) \<in> set (protocol_actions m q l t) \<Longrightarrow> reaches m q l s (path @ [name]) u"

inductive_cases reaches_NilE: "reaches m q l s [] t"

text \<open>
  Every effect has its consumed permit, no dead permit is consumed, finality has its effect; and at most one permit is
  consumed or can still be.
\<close>

definition protocol_inv :: "pstate \<Rightarrow> bool" where
  "protocol_inv s \<longleftrightarrow>
     effect_count s = int (length (filter consumed (ps_permits s)))
     \<and> length (filter (\<lambda>p. consumed p \<or> live p) (ps_permits s)) \<le> 1
     \<and> list_all (\<lambda>p. consumed p \<longrightarrow> \<not> expired p \<and> \<not> voided p) (ps_permits s)
     \<and> (observed s = OBS_FINALIZED \<longrightarrow> effect_count s \<ge> 1) \<and> (finalized s \<longrightarrow> observed s = OBS_FINALIZED)"

lemma in_yield [simp]: "x \<in> set (yield_if b y) \<longleftrightarrow> b \<and> x = y"
  by (auto simp: yield_if_def)

lemma yield_Nil [simp]: "yield_if b x = [] \<longleftrightarrow> \<not> b"
  by (simp add: yield_if_def)

lemma protocol_inv_ok: "protocol_inv s \<Longrightarrow> invariant_failures s = []"
proof -
  assume inv: "protocol_inv s"
  have "length (filter consumed ps) \<le> length (filter (\<lambda>p. consumed p \<or> live p) ps)" for ps
    by (induction ps) auto
  from this [of "ps_permits s"] inv show ?thesis by (auto simp: protocol_inv_def invariant_failures_def list_all_iff list_ex_iff)
qed

text \<open>Replacing one permit changes the counts by what that permit contributes.\<close>

lemma filter_update:
  "idx < length xs \<Longrightarrow> length (filter P (xs[idx := y])) + (if P (xs ! idx) then 1 else 0) = length (filter P xs) + (if P y then 1 else 0)"
proof (induction xs arbitrary: idx)
  case (Cons x xs)
  then show ?case by (cases idx) auto
qed simp

lemma protocol_issue_keeps:
  assumes "protocol_inv s" and "(name, t) \<in> set (issue_actions m True True s)"
  shows "protocol_inv t"
proof -
  have none: "filter (\<lambda>p. consumed p \<or> live p) (ps_permits s) = []" "filter consumed (ps_permits s) = []"
    using assms(2) by (auto simp: issue_actions_def Let_def filter_empty_conv list_all_iff list_ex_iff)
  from assms(2) have "t = s\<lparr>ps_permits := ps_permits s @ [new_permit (grant_epoch s)]\<rparr>"
    by (simp add: issue_actions_def Let_def)
  with assms(1) none show ?thesis by (auto simp: protocol_inv_def new_permit_def)
qed

lemma list_all_update: "list_all P xs \<Longrightarrow> P y \<Longrightarrow> list_all P (xs[i := y])"
  by (auto simp: list_all_iff dest: set_update_subset_insert [THEN subsetD])

lemma permit_keeps:
  assumes "protocol_inv s" and "idx < length (ps_permits s)" and "(name, t) \<in> set (permit_actions s idx)"
  shows "protocol_inv t"
proof -
  let ?p = "ps_permits s ! idx"
  have ok: "list_all (\<lambda>p. consumed p \<longrightarrow> \<not> expired p \<and> \<not> voided p) (ps_permits s)" using assms(1) by (simp add: protocol_inv_def)
  have step: "protocol_inv ((with_permit s idx p')\<lparr>effect_count := effect_count s + (if consumed p' then 1 else 0)\<rparr>)"
    if "live ?p" "consumed p' \<longrightarrow> \<not> expired p' \<and> \<not> voided p'" for p'
    using assms(1) that filter_update [OF assms(2), of consumed p'] filter_update [OF assms(2), of "\<lambda>p. consumed p \<or> live p" p']
      list_all_update [OF ok, of p' idx]
    by (auto simp: protocol_inv_def with_permit_def live_def split: if_splits)
  have "live ?p" using assms(3) by (auto simp: permit_actions_def Let_def)
  with step [of "?p\<lparr>in_flight := True\<rparr>"] step [of "?p\<lparr>consumed := True\<rparr>"] step [of "?p\<lparr>expired := True\<rparr>"] assms(3)
  show ?thesis by (auto simp: permit_actions_def Let_def live_def with_permit_def)
qed

lemma void_live_flags [simp]:
  "consumed (void_live p) = consumed p" "expired (void_live p) = expired p" "\<not> live (void_live p)"
  "consumed p \<Longrightarrow> voided (void_live p) = voided p"
  by (auto simp: void_live_def live_def)

lemma void_inv: "protocol_inv s \<Longrightarrow> protocol_inv (s\<lparr>ps_permits := map void_live (ps_permits s)\<rparr>)"
proof -
  assume inv: "protocol_inv s"
  have "length (filter consumed (map void_live ps)) = length (filter consumed ps)"
    "length (filter (\<lambda>p. consumed p \<or> live p) (map void_live ps)) \<le> length (filter (\<lambda>p. consumed p \<or> live p) ps)" for ps
    by (induction ps) auto
  moreover have "list_all (\<lambda>p. consumed p \<longrightarrow> \<not> expired p \<and> \<not> voided p) ps \<Longrightarrow>
     list_all (\<lambda>p. consumed p \<longrightarrow> \<not> expired p \<and> \<not> voided p) (map void_live ps)" for ps
    by (induction ps) auto
  ultimately have "length (filter consumed (map void_live (ps_permits s))) = length (filter consumed (ps_permits s))"
    "length (filter (\<lambda>p. consumed p \<or> live p) (map void_live (ps_permits s))) \<le> 1"
    "list_all (\<lambda>p. consumed p \<longrightarrow> \<not> expired p \<and> \<not> voided p) (map void_live (ps_permits s))"
    using inv unfolding protocol_inv_def by (meson le_trans)+
  with inv show ?thesis unfolding protocol_inv_def by (auto simp del: filter_map)
qed

lemma control_keeps:
  assumes "protocol_inv s" and "(name, t) \<in> set (control_actions s)"
  shows "protocol_inv t"
proof -
  have "protocol_inv (s\<lparr>grant_active := False, grant_epoch := e\<rparr>)" "protocol_inv (s\<lparr>halted := b, grant_epoch := e\<rparr>)"
    "protocol_inv (s\<lparr>halted := b\<rparr>)" for b e
    using assms(1) by (auto simp: protocol_inv_def)
  moreover have "effect_count s \<ge> 1 \<Longrightarrow> protocol_inv (s\<lparr>observed := OBS_FINALIZED\<rparr>)"
    "observed s = OBS_FINALIZED \<Longrightarrow> protocol_inv (s\<lparr>finalized := True\<rparr>)"
    using assms(1) by (auto simp: protocol_inv_def)
  ultimately show ?thesis using assms(2) void_inv [OF assms(1)] by (auto simp: control_actions_def split: if_splits)
qed

lemma protocol_step_keeps: "protocol_inv s \<Longrightarrow> (name, t) \<in> set (protocol_actions m True True s) \<Longrightarrow> protocol_inv t"
  by (auto simp: protocol_actions_def intro: protocol_issue_keeps permit_keeps control_keeps)

lemma reaches_inv: "reaches m True True s path t \<Longrightarrow> protocol_inv s \<Longrightarrow> protocol_inv t"
  by (induction rule: reaches.induct) (auto intro: protocol_step_keeps)

lemma initial_inv: "protocol_inv initial"
  by (simp add: protocol_inv_def initial_def)

text \<open>
  C37. The permit protocol is safe, without bound: on every run, of any length, with any number of permits per
  intent, revocations, halts and settlement lag included, the checker's invariant holds: at most
  one effect, none without a consumed permit, no finality without an observed effect, no dead permit consumed.
\<close>

theorem protocol_safe:
  "reaches m True True initial path s \<Longrightarrow> invariant_failures s = []"
  using reaches_inv initial_inv protocol_inv_ok by blast

lemma protocol_safe_witness:
  "invariant_failures (initial\<lparr>ps_permits := [new_permit 1]\<rparr>) = []"
proof -
  have "reaches 2 True True initial ([] @ [''issue'']) (initial\<lparr>ps_permits := [new_permit 1]\<rparr>)"
    by (rule reaches.step [OF reaches.start]) (simp add: protocol_actions_def issue_actions_def initial_def Let_def)
  from protocol_safe [OF this] show ?thesis .
qed

section \<open>The search\<close>

record report =
  unique_states :: nat
  transitions_explored :: nat
  violations :: "(string list \<times> string list) list"

text \<open>One state taken from the queue: its transitions are counted, checked and, inside the depth, queued once.\<close>

fun visit ::
    "nat \<Rightarrow> string list \<Rightarrow> (string \<times> pstate) list \<Rightarrow> (pstate \<times> string list) list \<times> pstate list \<times> nat \<times> (string list \<times> string list) list
      \<Rightarrow> (pstate \<times> string list) list \<times> pstate list \<times> nat \<times> (string list \<times> string list) list" where
  "visit depth path [] acc = acc"
| "visit depth path ((name, nxt) # rest) (queue, seen, n, bad) =
     (let next_path = path @ [name]; failures = invariant_failures nxt;
          bad' = (if failures \<noteq> [] then bad @ [(next_path, failures)] else bad) in
      if length next_path < depth \<and> nxt \<notin> set seen
      then visit depth path rest (queue @ [(nxt, next_path)], seen @ [nxt], n + 1, bad')
      else visit depth path rest (queue, seen, n + 1, bad'))"

lemma visit_queue:
  "visit depth path acts (queue, seen, n, bad) = (queue', seen', n', bad') \<Longrightarrow>
     \<exists>new. queue' = queue @ new \<and> (\<forall>(s, p) \<in> set new. length p = Suc (length path) \<and> length p < depth)"
proof (induction depth path acts "(queue, seen, n, bad)" arbitrary: queue seen n bad rule: visit.induct)
  case (2 depth path name nxt rest queue seen n bad)
  then show ?case by (fastforce simp: Let_def split: if_splits)
qed simp

text \<open>The loop ends: a state leaves the queue for finitely many one level deeper.\<close>

definition level :: "nat \<Rightarrow> pstate \<times> string list \<Rightarrow> nat" where
  "level depth e = depth - length (snd e)"

function search ::
    "nat \<Rightarrow> bool \<Rightarrow> bool \<Rightarrow> nat \<Rightarrow> (pstate \<times> string list) list \<times> pstate list \<times> nat \<times> (string list \<times> string list) list \<Rightarrow> report" where
  "search m q l depth ([], seen, n, bad) = \<lparr>unique_states = length seen, transitions_explored = n, violations = bad\<rparr>"
| "search m q l depth ((s, path) # queue, seen, n, bad) =
     search m q l depth (visit depth path (protocol_actions m q l s) (queue, seen, n, bad))"
  by pat_completeness auto

termination
proof (relation "inv_image (mult less_than) (\<lambda>(m, q, l, depth, queue, seen, n, bad). image_mset (level depth) (mset queue))")
  show "wf (inv_image (mult less_than) (\<lambda>(m :: nat, q :: bool, l :: bool, depth, queue, seen :: pstate list, n :: nat,
      bad :: (string list \<times> string list) list). image_mset (level depth) (mset queue)))"
    by (intro wf_inv_image wf_mult wf_less_than)
next
  fix m q l depth s path queue seen n bad
  obtain queue' seen' n' bad' where v: "visit depth path (protocol_actions m q l s) (queue, seen, n, bad) = (queue', seen', n', bad')"
    by (metis prod_cases4)
  obtain new where new: "queue' = queue @ new" "\<forall>(s, p) \<in> set new. length p = Suc (length path) \<and> length p < depth"
    using visit_queue [OF v] by blast
  have "(image_mset (level depth) (mset queue) + image_mset (level depth) (mset new),
      image_mset (level depth) (mset queue) + {#level depth (s, path)#}) \<in> mult less_than"
    using new(2) by (intro one_step_implies_mult) (auto simp: level_def)
  then show "((m, q, l, depth, visit depth path (protocol_actions m q l s) (queue, seen, n, bad)), m, q, l, depth, (s, path) # queue, seen, n, bad)
      \<in> inv_image (mult less_than) (\<lambda>(m, q, l, depth, queue, seen, n, bad). image_mset (level depth) (mset queue))"
    by (simp add: v new(1))
qed

definition explore :: "nat \<Rightarrow> bool \<Rightarrow> bool \<Rightarrow> nat \<Rightarrow> report" where
  "explore m q l depth = search m q l depth ([(initial, [])], [initial], 0, [])"

section \<open>The search decides the invariant up to its depth\<close>

lemma visit_bad:
  "snd (snd (snd (visit depth path acts (queue, seen, n, bad)))) =
     bad @ map (\<lambda>(name, t). (path @ [name], invariant_failures t)) (filter (\<lambda>(name, t). invariant_failures t \<noteq> []) acts)"
  by (induction depth path acts "(queue, seen, n, bad)" arbitrary: queue seen n bad rule: visit.induct) (auto simp: Let_def)

lemma visit_new:
  "visit depth path acts (queue, seen, n, bad) = (queue', seen', n', bad') \<Longrightarrow>
     \<exists>new. queue' = queue @ new \<and> set seen' = set seen \<union> fst ` set new
       \<and> (\<forall>(t, p) \<in> set new. t \<notin> set seen \<and> length p < depth \<and> (\<exists>name. (name, t) \<in> set acts \<and> p = path @ [name]))
       \<and> (\<forall>(name, t) \<in> set acts. Suc (length path) < depth \<longrightarrow> t \<in> set seen')"
proof (induction depth path acts "(queue, seen, n, bad)" arbitrary: queue seen n bad rule: visit.induct)
  case (2 depth path name nxt rest queue seen n bad)
  let ?bad = "if invariant_failures nxt \<noteq> [] then bad @ [(path @ [name], invariant_failures nxt)] else bad"
  show ?case
  proof (cases "length (path @ [name]) < depth \<and> nxt \<notin> set seen")
    case True
    then have run: "visit depth path rest (queue @ [(nxt, path @ [name])], seen @ [nxt], n + 1, ?bad) = (queue', seen', n', bad')"
      using 2(3) by (simp add: Let_def)
    obtain new where "queue' = (queue @ [(nxt, path @ [name])]) @ new" "set seen' = set (seen @ [nxt]) \<union> fst ` set new"
      "\<forall>(t, p) \<in> set new. t \<notin> set (seen @ [nxt]) \<and> length p < depth \<and> (\<exists>name. (name, t) \<in> set rest \<and> p = path @ [name])"
      "\<forall>(name, t) \<in> set rest. Suc (length path) < depth \<longrightarrow> t \<in> set seen'"
      using 2(1) [OF refl refl refl True run] by blast
    with True show ?thesis by (intro exI [of _ "(nxt, path @ [name]) # new"]) fastforce
  next
    case False
    have run: "visit depth path rest (queue, seen, n + 1, ?bad) = (queue', seen', n', bad')"
      using 2(3) unfolding visit.simps Let_def if_not_P [OF False] .
    obtain new where "queue' = queue @ new" "set seen' = set seen \<union> fst ` set new"
      "\<forall>(t, p) \<in> set new. t \<notin> set seen \<and> length p < depth \<and> (\<exists>name. (name, t) \<in> set rest \<and> p = path @ [name])"
      "\<forall>(name, t) \<in> set rest. Suc (length path) < depth \<longrightarrow> t \<in> set seen'"
      using 2(2) [OF refl refl refl False run] by blast
    with False show ?thesis by (intro exI [of _ new]) fastforce
  qed
qed simp

text \<open>Soundness: a reported violation is a run of the protocol into a state that fails.\<close>

definition real_violation :: "nat \<Rightarrow> bool \<Rightarrow> bool \<Rightarrow> nat \<Rightarrow> string list \<times> string list \<Rightarrow> bool" where
  "real_violation m q l depth v \<longleftrightarrow>
     (\<exists>t. reaches m q l initial (fst v) t \<and> fst v \<noteq> [] \<and> length (fst v) \<le> depth \<and> snd v = invariant_failures t \<and> snd v \<noteq> [])"

lemma search_sound:
  "\<forall>(s, p) \<in> set queue. reaches m q l initial p s \<and> length p < depth \<Longrightarrow> \<forall>v \<in> set bad. real_violation m q l depth v \<Longrightarrow>
     \<forall>v \<in> set (violations (search m q l depth (queue, seen, n, bad))). real_violation m q l depth v"
proof (induction m q l depth "(queue, seen, n, bad)" arbitrary: queue seen n bad rule: search.induct)
  case (2 m q l depth s path queue seen n bad)
  obtain queue' seen' n' bad' where v: "visit depth path (protocol_actions m q l s) (queue, seen, n, bad) = (queue', seen', n', bad')"
    by (metis prod_cases4)
  have here: "reaches m q l initial path s" "length path < depth" using 2(2) by auto
  from visit_new [OF v] 2(2) have "\<forall>(s, p) \<in> set queue'. reaches m q l initial p s \<and> length p < depth"
    by (fastforce intro: reaches.step [OF here(1)])
  moreover from visit_bad [of depth path "protocol_actions m q l s" queue seen n bad] 2(3) here v
  have "\<forall>v \<in> set bad'. real_violation m q l depth v"
    by (fastforce simp: real_violation_def intro: reaches.step [OF here(1)])
  ultimately show ?case using 2(1) [OF v] v by simp
qed simp

text \<open>
  Completeness. \<open>d\<close> is the level a state was first seen at; a state that has left the queue has had all its transitions
  checked, and inside the depth all its successors seen, at most one level further.
\<close>

definition search_inv ::
    "nat \<Rightarrow> bool \<Rightarrow> bool \<Rightarrow> nat \<Rightarrow> (pstate \<Rightarrow> nat) \<Rightarrow> (pstate \<times> string list) list \<Rightarrow> pstate list \<Rightarrow> (string list \<times> string list) list \<Rightarrow> bool" where
  "search_inv m q l depth d queue seen bad \<longleftrightarrow>
     initial \<in> set seen \<and> d initial = 0
     \<and> (\<forall>(s, p) \<in> set queue. s \<in> set seen \<and> d s = length p)
     \<and> sorted (map (length \<circ> snd) queue)
     \<and> (queue \<noteq> [] \<longrightarrow> (\<forall>s \<in> set seen. d s \<le> Suc (length (snd (hd queue)))))
     \<and> (\<forall>s \<in> set seen - fst ` set queue. \<forall>(name, t) \<in> set (protocol_actions m q l s).
          (Suc (d s) < depth \<longrightarrow> t \<in> set seen \<and> d t \<le> Suc (d s)) \<and> (bad = [] \<longrightarrow> invariant_failures t = []))"

lemma search_inv_step:
  assumes inv: "search_inv m q l depth d ((s, path) # queue) seen bad"
    and v: "visit depth path (protocol_actions m q l s) (queue, seen, n, bad) = (queue', seen', n', bad')"
  shows "search_inv m q l depth (\<lambda>t. if t \<in> set seen then d t else Suc (length path)) queue' seen' bad'"
proof -
  let ?d = "\<lambda>t. if t \<in> set seen then d t else Suc (length path)"
  obtain new where new: "queue' = queue @ new" "set seen' = set seen \<union> fst ` set new"
    "\<forall>(t, p) \<in> set new. t \<notin> set seen \<and> length p = Suc (length path)"
    "\<forall>(name, t) \<in> set (protocol_actions m q l s). Suc (length path) < depth \<longrightarrow> t \<in> set seen'"
    using visit_new [OF v] by fastforce
  have bad: "bad' = [] \<Longrightarrow> bad = [] \<and> (\<forall>(name, t) \<in> set (protocol_actions m q l s). invariant_failures t = [])"
    using visit_bad [of depth path "protocol_actions m q l s" queue seen n bad] v by (auto simp: filter_empty_conv)
  have near: "\<forall>t \<in> set seen. d t \<le> Suc (length path)" and s: "s \<in> set seen" "d s = length path"
    and sorted: "\<forall>(t, p) \<in> set queue. length path \<le> length p" "sorted (map (length \<circ> snd) queue)"
    and q: "\<forall>(t, p) \<in> set queue. t \<in> set seen \<and> d t = length p"
    using inv by (auto simp: search_inv_def)
  have near': "?d t \<le> Suc (length path)" for t using near by auto
  have "sorted (map (length \<circ> snd) queue')"
  proof -
    have "map (length \<circ> snd) new = replicate (length new) (Suc (length path))" using new(3) by (induction new) auto
    then have "sorted (map (length \<circ> snd) new)" by simp
    moreover have "\<forall>x \<in> set (map (length \<circ> snd) queue). \<forall>y \<in> set (map (length \<circ> snd) new). x \<le> y"
      using q near new(3) by fastforce
    ultimately show ?thesis using sorted(2) by (simp add: new(1) sorted_append)
  qed
  moreover have "queue' \<noteq> [] \<longrightarrow> (\<forall>t \<in> set seen'. ?d t \<le> Suc (length (snd (hd queue'))))"
  proof
    assume "queue' \<noteq> []"
    then have "hd queue' \<in> set queue \<or> hd queue' \<in> set new" using new(1) hd_in_set [of queue'] by auto
    then have "length path \<le> length (snd (hd queue'))" using sorted(1) new(3) by (cases "hd queue'") fastforce
    with near' show "\<forall>t \<in> set seen'. ?d t \<le> Suc (length (snd (hd queue')))" by (meson Suc_le_mono le_trans)
  qed
  moreover have "\<forall>u \<in> set seen' - fst ` set queue'. \<forall>(name, t) \<in> set (protocol_actions m q l u).
      (Suc (?d u) < depth \<longrightarrow> t \<in> set seen' \<and> ?d t \<le> Suc (?d u)) \<and> (bad' = [] \<longrightarrow> invariant_failures t = [])"
  proof
    fix u assume "u \<in> set seen' - fst ` set queue'"
    then have u: "u \<in> set seen" "u = s \<or> u \<in> set seen - fst ` set ((s, path) # queue)" using new(1,2) by auto
    from u(2) show "\<forall>(name, t) \<in> set (protocol_actions m q l u).
      (Suc (?d u) < depth \<longrightarrow> t \<in> set seen' \<and> ?d t \<le> Suc (?d u)) \<and> (bad' = [] \<longrightarrow> invariant_failures t = [])"
    proof
      assume "u = s"
      with s new(4) bad near' show ?thesis by fastforce
    next
      assume "u \<in> set seen - fst ` set ((s, path) # queue)"
      then have "\<forall>(name, t) \<in> set (protocol_actions m q l u).
          (Suc (d u) < depth \<longrightarrow> t \<in> set seen \<and> d t \<le> Suc (d u)) \<and> (bad = [] \<longrightarrow> invariant_failures t = [])"
        using inv unfolding search_inv_def by blast
      with u(1) new(2) bad show ?thesis by fastforce
    qed
  qed
  moreover have "initial \<in> set seen'" "?d initial = 0" using inv new(2) by (simp_all add: search_inv_def)
  moreover have "\<forall>(t, p) \<in> set queue'. t \<in> set seen' \<and> ?d t = length p"
  proof (intro ballI case_prodI2)
    fix e t p assume "e \<in> set queue'" "e = (t, p)"
    then consider "(t, p) \<in> set queue" | "(t, p) \<in> set new" using new(1) by auto
    then show "t \<in> set seen' \<and> ?d t = length p"
    proof cases
      case 1 then show ?thesis using q new(2) by auto
    next
      case 2 then show ?thesis using new(2,3) by (metis (mono_tags, lifting) UnCI case_prodD fst_conv image_eqI)
    qed
  qed
  ultimately show ?thesis unfolding search_inv_def by blast
qed

lemma search_inv_final:
  assumes "search_inv m q l depth d [] seen []" and "reaches m q l initial path t"
  shows "(length path < depth \<longrightarrow> t \<in> set seen \<and> d t \<le> length path) \<and> (path \<noteq> [] \<and> length path \<le> depth \<longrightarrow> invariant_failures t = [])"
  using assms(2,1)
proof (induction initial path t rule: reaches.induct)
  case start
  then show ?case by (simp add: search_inv_def)
next
  case (step path t name u)
  have "\<forall>(name, u) \<in> set (protocol_actions m q l t).
      (Suc (d t) < depth \<longrightarrow> u \<in> set seen \<and> d u \<le> Suc (d t)) \<and> invariant_failures u = []" if "t \<in> set seen"
    using step.prems that unfolding search_inv_def by simp
  with step show ?case by fastforce
qed

lemma search_complete:
  "search_inv m q l depth d queue seen bad \<Longrightarrow> violations (search m q l depth (queue, seen, n, bad)) = [] \<Longrightarrow>
     reaches m q l initial path t \<Longrightarrow> path \<noteq> [] \<Longrightarrow> length path \<le> depth \<Longrightarrow> invariant_failures t = []"
proof (induction m q l depth "(queue, seen, n, bad)" arbitrary: d queue seen n bad rule: search.induct)
  case (1 m q l depth seen n bad)
  then show ?case using search_inv_final by fastforce
next
  case (2 m q l depth s p queue seen n bad)
  obtain queue' seen' n' bad' where v: "visit depth p (protocol_actions m q l s) (queue, seen, n, bad) = (queue', seen', n', bad')"
    by (metis prod_cases4)
  show ?case using 2(1) [OF v search_inv_step [OF 2(2) v]] 2(3-) v by simp
qed

lemma search_inv_initial: "search_inv m q l depth (\<lambda>_. 0) [(initial, [])] [initial] []"
  by (simp add: search_inv_def)

text \<open>
  C38. The bounded search decides what it claims to: at every depth, for every permit budget and either rule switched off, it
  ends, and it reports no violation exactly when every run of the protocol of at most that many steps ends in a state that
  satisfies the invariant. Visiting each state once, at the level it was first seen, loses nothing.
\<close>

theorem explore_decides:
  "0 < depth \<Longrightarrow> violations (explore m q l depth) = [] \<longleftrightarrow>
     (\<forall>path t. reaches m q l initial path t \<and> path \<noteq> [] \<and> length path \<le> depth \<longrightarrow> invariant_failures t = [])"
proof
  assume depth: "0 < depth" and "violations (explore m q l depth) = []"
  then show "\<forall>path t. reaches m q l initial path t \<and> path \<noteq> [] \<and> length path \<le> depth \<longrightarrow> invariant_failures t = []"
    using search_complete [OF search_inv_initial] unfolding explore_def by blast
next
  assume depth: "0 < depth"
    and safe: "\<forall>path t. reaches m q l initial path t \<and> path \<noteq> [] \<and> length path \<le> depth \<longrightarrow> invariant_failures t = []"
  have "\<forall>v \<in> set (violations (explore m q l depth)). real_violation m q l depth v"
    unfolding explore_def using depth by (intro search_sound) (auto intro: reaches.start)
  with safe show "violations (explore m q l depth) = []" unfolding real_violation_def
    by (metis list.set_intros(1) neq_Nil_conv)
qed

lemma explore_decides_witness: "violations (explore 2 False True 1) = []"
  using explore_decides [of 1 2 False True] by (simp add: explore_def initial_def protocol_actions_def issue_actions_def control_actions_def
      new_permit_def yield_if_def invariant_failures_def Let_def)

section \<open>The checker's report\<close>

definition MAX_PERMITS :: nat where
  "MAX_PERMITS = 2"

definition startswith_consume :: "string \<Rightarrow> bool" where
  "startswith_consume name = (take 7 name = ''consume'')"

definition consumable :: "pstate \<Rightarrow> bool" where
  "consumable s = list_ex (\<lambda>(name, _). startswith_consume name) (protocol_actions MAX_PERMITS True True s)"

definition stale_after_revoke :: pstate where
  "stale_after_revoke = initial\<lparr>grant_epoch := 2, grant_active := False, ps_permits := [(new_permit 1)\<lparr>in_flight := True\<rparr>]\<rparr>"

definition stale_after_halt_resume :: pstate where
  "stale_after_halt_resume =
     initial\<lparr>grant_epoch := 2, grant_active := True, halted := False, ps_permits := [(new_permit 1)\<lparr>in_flight := True\<rparr>]\<rparr>"

definition voided_state :: pstate where
  "voided_state = initial\<lparr>ps_permits := [(new_permit 1)\<lparr>in_flight := True, voided := True\<rparr>]\<rparr>"

definition main_pass :: "nat \<Rightarrow> bool" where
  "main_pass max_depth =
     (let both = explore MAX_PERMITS True True max_depth; no_quiescence = explore MAX_PERMITS False True max_depth;
          no_ledger = explore MAX_PERMITS True False max_depth in
      length (violations both) = 0 \<and> \<not> consumable stale_after_revoke \<and> \<not> consumable stale_after_halt_resume
      \<and> \<not> consumable voided_state \<and> length (violations no_quiescence) > 0 \<and> length (violations no_ledger) > 0)"

text \<open>A run by the names of its actions.\<close>

fun follow :: "nat \<Rightarrow> bool \<Rightarrow> bool \<Rightarrow> string list \<Rightarrow> pstate \<Rightarrow> pstate option" where
  "follow m q l [] s = Some s"
| "follow m q l (name # path) s = (case map_of (protocol_actions m q l s) name of None \<Rightarrow> None | Some t \<Rightarrow> follow m q l path t)"

lemma reaches_trans: "reaches m q l t p u \<Longrightarrow> reaches m q l s p' t \<Longrightarrow> reaches m q l s (p' @ p) u"
proof (induction rule: reaches.induct)
  case (step t path v name u)
  then show ?case using reaches.step [of m q l s "p' @ path" v name u] by simp
qed simp

lemma follow_reaches: "follow m q l path s = Some t \<Longrightarrow> reaches m q l s path t"
proof (induction path arbitrary: s)
  case (Cons name path)
  then obtain u where "(name, u) \<in> set (protocol_actions m q l s)" "reaches m q l u path t"
    by (auto split: option.splits dest: map_of_SomeD)
  then show ?case using reaches_trans [of m q l u path t s "[name]"] reaches.step [OF reaches.start] by fastforce
qed (simp add: reaches.start)

text \<open>The two runs to a second effect: with both permits in flight, and with one consumed before the second is issued.\<close>

definition both_in_flight :: "string list" where
  "both_in_flight = [''issue'', ''submit0'', ''issue'', ''submit1'', ''consume0'', ''consume1'']"

definition reissued_over_consumed :: "string list" where
  "reissued_over_consumed = [''issue'', ''submit0'', ''consume0'', ''issue'', ''submit1'', ''consume1'']"

lemma two_effects:
  "map_option invariant_failures (follow MAX_PERMITS False True both_in_flight initial) = Some [''DUPLICATE_EFFECT'']"
  "map_option invariant_failures (follow MAX_PERMITS True False reissued_over_consumed initial) = Some [''DUPLICATE_EFFECT'']"
  by code_simp+

lemma explore_finds:
  assumes "map_option invariant_failures (follow m q l path initial) = Some f" and "f \<noteq> []" and "path \<noteq> []" and "length path \<le> depth"
  shows "violations (explore m q l depth) \<noteq> []"
proof -
  from assms(1) obtain t where t: "reaches m q l initial path t" "invariant_failures t = f" by (auto dest: follow_reaches)
  show ?thesis using search_complete [OF search_inv_initial _ t(1) assms(3,4)] t(2) assms(2) unfolding explore_def by blast
qed

lemma explore_safe:
  assumes "0 < depth"
  shows "violations (explore m True True depth) = []"
proof -
  have "\<forall>v \<in> set (violations (explore m True True depth)). real_violation m True True depth v"
    unfolding explore_def using assms by (intro search_sound) (auto intro: reaches.start)
  moreover have "\<not> real_violation m True True depth v" for v
    using reaches_inv [THEN protocol_inv_ok] initial_inv by (auto simp: real_violation_def)
  ultimately show ?thesis by (metis list.set_intros(1) neq_Nil_conv)
qed

text \<open>
  The model check passes, at its depth of 14 and at every depth of at least six: both rules together leave no
  violation, without either of them the search finds one, and no permit is consumable after a revocation, after a halt and its
  resume, or once voided. The script's verdict does not depend on the bound it was run with.
\<close>

lemma model_check_passes:
  "6 \<le> max_depth \<Longrightarrow> main_pass max_depth"
proof -
  assume depth: "6 \<le> max_depth"
  have "violations (explore MAX_PERMITS False True max_depth) \<noteq> []" "violations (explore MAX_PERMITS True False max_depth) \<noteq> []"
    using explore_finds [OF two_effects(1)] explore_finds [OF two_effects(2)] depth
    by (auto simp: both_in_flight_def reissued_over_consumed_def)
  moreover have "\<not> consumable stale_after_revoke" "\<not> consumable stale_after_halt_resume" "\<not> consumable voided_state"
    by code_simp+
  ultimately show ?thesis using explore_safe [of max_depth] depth by (simp add: main_pass_def Let_def)
qed

lemma model_check_passes_witness: "main_pass 14"
  using model_check_passes [of 14] by simp

end
