(* ===== verification/Outcomes.thy ===== *)
theory Outcomes
  imports Permits "HOL-Library.AList"
begin

text \<open>
  \<open>faar/outcomes.py\<close>: whether a task is done. A criterion of the task contract addresses a value of the settlement
  record by a path and compares it; the verdict is MET only for a finalized, authoritative effect of this intent's own
  request. The trust verifier is a parameter, as in \<open>Permits\<close>.
\<close>

section \<open>Numbers and equality of Python values\<close>

text \<open>
  \<open>Decimal(text)\<close> where it yields a finite number: surrounding white space is stripped and underscores are dropped; a
  sign, digits with at most one point and at least one digit, an exponent. The exact constructor refuses exponents outside
  the range of the C implementation. Texts for infinities and NaNs, and all others, give None here: the caller treats a
  non-finite number and a conversion error alike.
\<close>

definition strip :: "string \<Rightarrow> string" where
  "strip s = rev (dropWhile is_space (rev (dropWhile is_space s)))"

definition take_sign :: "string \<Rightarrow> bool \<times> string" where
  "take_sign s = (case s of c # r \<Rightarrow> if c = CHR ''-'' then (True, r) else if c = CHR ''+'' then (False, r) else (False, s) | [] \<Rightarrow> (False, []))"

definition all_digits :: "string \<Rightarrow> bool" where
  "all_digits s \<longleftrightarrow> s \<noteq> [] \<and> list_all is_digit s"

definition exponent_text :: "string \<Rightarrow> int option" where
  "exponent_text s = (case s of [] \<Rightarrow> Some 0
     | c # r \<Rightarrow> if c \<noteq> CHR ''e'' \<and> c \<noteq> CHR ''E'' then None
                else let (neg, ds) = take_sign r in
                  if all_digits ds then Some (if neg then - int (digits_val ds) else int (digits_val ds)) else None)"

definition MAX_EMAX :: int where
  "MAX_EMAX = 999999999999999999"

definition exponent_in_range :: "nat \<Rightarrow> int \<Rightarrow> bool" where
  "exponent_in_range c e \<longleftrightarrow> - 2 * MAX_EMAX + 1 \<le> e \<and> (if c = 0 then e else adjusted c e) \<le> MAX_EMAX"

definition finite_decimal_text :: "string \<Rightarrow> decimal option" where
  "finite_decimal_text s =
     (let (neg, t) = take_sign (filter (\<lambda>c. c \<noteq> CHR ''_'') (strip s));
          whole = takeWhile is_digit t; r = dropWhile is_digit t;
          pointed = (r \<noteq> [] \<and> hd r = CHR ''.'');
          frac = (if pointed then takeWhile is_digit (tl r) else []);
          rest = (if pointed then dropWhile is_digit (tl r) else r) in
      if whole @ frac = [] then None
      else (case exponent_text rest of None \<Rightarrow> None
        | Some e \<Rightarrow> let c = digits_val (whole @ frac); x = e - int (length frac) in
            if exponent_in_range c x then Some (DFin neg c x) else None))"

text \<open>The exact value of the double a float's text stands for: the nearest multiple of the binary64 spacing, ties to even.\<close>

definition round_even :: "rat \<Rightarrow> int" where
  "round_even x = (let n = \<lfloor>x\<rfloor>; r = x - of_int n in if r > 1 / 2 \<or> (r = 1 / 2 \<and> odd n) then n + 1 else n)"

definition pow2 :: "int \<Rightarrow> rat" where
  "pow2 e = (if 0 \<le> e then 2 ^ nat e else 1 / 2 ^ nat (- e))"

function bit_length :: "int \<Rightarrow> int" where
  "bit_length n = (if n \<le> 0 then 0 else 1 + bit_length (n div 2))"
  by auto

termination
  by (relation "measure nat") auto

declare bit_length.simps [simp del]

definition binary64 :: "rat \<Rightarrow> rat" where
  "binary64 x =
     (if x = 0 then 0 else
      let (n, d) = quotient_of \<bar>x\<bar>; e0 = bit_length n - bit_length d - 53;
          e = max (- 1074) (if \<bar>x\<bar> / pow2 e0 \<ge> 2 ^ 53 then e0 + 1 else e0)
      in (if x < 0 then - 1 else 1) * of_int (round_even (\<bar>x\<bar> / pow2 e)) * pow2 e)"

fun py_number :: "pyval \<Rightarrow> rat option" where
  "py_number (PBool b) = Some (if b then 1 else 0)"
| "py_number (PInt n) = Some (of_int n)"
| "py_number (PFloat (FRepr t)) = map_option (\<lambda>d. binary64 (dval d)) (finite_decimal_text t)"
| "py_number (PDec d) = (if is_finite d then Some (dval d) else None)"
| "py_number v = None"

fun py_infinity :: "pyval \<Rightarrow> bool option" where
  "py_infinity (PFloat (FInf s)) = Some s"
| "py_infinity (PDec (DInf s)) = Some s"
| "py_infinity v = None"

fun py_text :: "pyval \<Rightarrow> string option" where
  "py_text (PStr s) = Some s"
| "py_text (PEnum s) = Some s"
| "py_text v = None"

text \<open>\<open>a == b\<close>: numbers of every type by value, texts by their characters, containers by their items; a NaN equals nothing.\<close>

definition some_equal :: "'a option \<Rightarrow> 'a option \<Rightarrow> bool" where
  "some_equal x y \<longleftrightarrow> x \<noteq> None \<and> x = y"

function (sequential) py_eq :: "pyval \<Rightarrow> pyval \<Rightarrow> bool" where
  "py_eq PNone v = (v = PNone)"
| "py_eq (PTime t) v = (v = PTime t)"
| "py_eq (PSeq xs) v = (case v of PSeq ys \<Rightarrow> length xs = length ys \<and> list_all (\<lambda>(x, y). py_eq x y) (zip xs ys) | _ \<Rightarrow> False)"
| "py_eq (PSet xs) v = (case v of PSet ys \<Rightarrow> length xs = length ys \<and> list_all (\<lambda>x. list_ex (\<lambda>y. py_eq x y) ys) xs | _ \<Rightarrow> False)"
| "py_eq (PDict xs) v = (case v of PDict ys \<Rightarrow> length xs = length ys \<and>
     list_all (\<lambda>(k, x). case map_of ys k of None \<Rightarrow> False | Some y \<Rightarrow> py_eq x y) xs | _ \<Rightarrow> False)"
| "py_eq a v = (some_equal (py_number a) (py_number v) \<or> some_equal (py_infinity a) (py_infinity v) \<or> some_equal (py_text a) (py_text v))"
  by pat_completeness auto

termination
proof (relation "measure (\<lambda>p. size (fst p))")
  have seq: "x \<in> set xs \<Longrightarrow> size x < Suc (size_list size xs)" for x :: pyval and xs by (induction xs) auto
  have dict: "e \<in> set xs \<Longrightarrow> size (snd e) < size (PDict xs)" for e :: "pykey \<times> pyval" and xs by (induction xs) auto
  show "((x, y), PSeq xs, v) \<in> measure (\<lambda>p. size (fst p))" if "e \<in> set (zip xs ys)" "(x, y) = e" for e x y xs ys v
    using seq [of x xs] that by (auto dest: set_zip_leftD)
  show "((x, y), PSet xs, v) \<in> measure (\<lambda>p. size (fst p))" if "x \<in> set xs" for x y xs v using seq [OF that] by simp
  show "((x, y), PDict xs, v) \<in> measure (\<lambda>p. size (fst p))" if "e \<in> set xs" "(k, x) = e" for e k x y xs v
    using dict [OF that(1)] that(2) by auto
qed simp

fun type_name :: "pyval \<Rightarrow> string" where
  "type_name PNone = ''NoneType''"
| "type_name (PBool b) = ''bool''"
| "type_name (PInt n) = ''int''"
| "type_name (PFloat f) = ''float''"
| "type_name (PDec d) = ''Decimal''"
| "type_name (PStr s) = ''str''"
| "type_name (PTime t) = ''datetime''"
| "type_name PNaive = ''datetime''"
| "type_name (PEnum s) = ''StrEnum''"
| "type_name (PSeq xs) = ''tuple''"
| "type_name (PSet xs) = ''frozenset''"
| "type_name (PDict xs) = ''mappingproxy''"
| "type_name POther = ''object''"

section \<open>Paths and comparisons\<close>

fun split_dots :: "string \<Rightarrow> string list" where
  "split_dots [] = [[]]"
| "split_dots (c # s) = (if c = CHR ''.'' then [] # split_dots s else (c # hd (split_dots s)) # tl (split_dots s))"

fun path_walk :: "pyval \<Rightarrow> string list \<Rightarrow> pyval option" where
  "path_walk current [] = Some current"
| "path_walk (PDict kvs) (part # rest) = (case map_of kvs (KStr part) of None \<Rightarrow> None | Some v \<Rightarrow> path_walk v rest)"
| "path_walk current (part # rest) = None"

definition path_get :: "payload \<Rightarrow> string \<Rightarrow> pyval option" where
  "path_get view path = path_walk (dict_of view) (split_dots path)"

fun as_number :: "pyval \<Rightarrow> decimal option" where
  "as_number (PInt n) = Some (DFin (n < 0) (nat \<bar>n\<bar>) 0)"
| "as_number (PFloat (FRepr t)) = finite_decimal_text t"
| "as_number (PDec d) = (if is_finite d then Some d else None)"
| "as_number (PStr s) = finite_decimal_text s"
| "as_number (PEnum s) = finite_decimal_text s"
| "as_number v = None"

definition is_bool :: "pyval \<Rightarrow> bool" where
  "is_bool v = (case v of PBool b \<Rightarrow> True | _ \<Rightarrow> False)"

definition cmp :: "pyval \<Rightarrow> pyval \<Rightarrow> string \<Rightarrow> bool" where
  "cmp actual expected op =
     (if op = ''eq'' then
        if is_bool actual \<or> is_bool expected then is_bool actual \<and> is_bool expected \<and> actual = expected
        else (case (as_number actual, as_number expected) of
            (Some left, Some right) \<Rightarrow> deq left right
          | _ \<Rightarrow> type_name actual = type_name expected \<and> py_eq actual expected)
      else (case (as_number actual, as_number expected) of
          (Some left, Some right) \<Rightarrow> if op = ''gte'' then dle right left else if op = ''lte'' then dle left right else False
        | _ \<Rightarrow> False))"

section \<open>The verdict\<close>

definition outcome_result_init :: "outcome_verdict \<Rightarrow> string list \<Rightarrow> payload \<Rightarrow> exn + outcome_result" where
  "outcome_result_init v reasons evaluated =
     map_sum id (\<lambda>ev. \<lparr>or_verdict = v, or_reason_codes = reasons, or_evaluated = ev\<rparr>) (freeze_mapping (dict_of evaluated))"

definition unknown_outcome :: "string \<Rightarrow> outcome_result" where
  "unknown_outcome reason = \<lparr>or_verdict = O_UNKNOWN, or_reason_codes = [reason], or_evaluated = []\<rparr>"

text \<open>The normalized fields replace evidence of the same name.\<close>

definition outcome_root :: "settlement_record \<Rightarrow> payload" where
  "outcome_root s =
     AList.update ''status'' (PStr (settlement_str (st_status s)))
       (AList.update ''amount_usd'' (p_opt PDec (st_amount_usd s))
         (AList.update ''effect_id'' (p_opt PStr (st_effect_id s)) (st_evidence s)))"

definition criterion_ok :: "payload \<Rightarrow> outcome_criterion \<Rightarrow> bool" where
  "criterion_ok view c =
     (case path_get view (oc_path c) of None \<Rightarrow> False
      | Some actual \<Rightarrow> if oc_op c = ''present'' then \<not> none_or_empty actual else cmp actual (oc_value c) (oc_op c))"

definition criterion_failure :: "int \<Rightarrow> outcome_criterion \<Rightarrow> string" where
  "criterion_failure idx c = ''OUTCOME_CRITERION_FAILED:'' @ str_int idx @ '':'' @ oc_path c @ '':'' @ oc_op c"

fun evaluate_criteria :: "payload \<Rightarrow> int \<Rightarrow> outcome_criterion list \<Rightarrow> payload \<Rightarrow> string list \<Rightarrow> payload \<times> string list" where
  "evaluate_criteria view idx [] evaluated failures = (evaluated, failures)"
| "evaluate_criteria view idx (c # cs) evaluated failures =
     evaluate_criteria view (idx + 1) cs
       (AList.update (oc_path c) (case path_get view (oc_path c) of None \<Rightarrow> PNone | Some actual \<Rightarrow> actual) evaluated)
       (if criterion_ok view c then failures else failures @ [criterion_failure idx c])"

definition verify_task_outcome :: "task_contract \<Rightarrow> settlement_record \<Rightarrow> string option \<Rightarrow> outcome_result" where
  "verify_task_outcome contract s expected_request_hash =
     (if st_status s \<noteq> ST_FINALIZED then unknown_outcome ''ECONOMIC_EFFECT_NOT_FINALIZED''
      else if \<not> st_authoritative s then unknown_outcome ''SETTLEMENT_NOT_AUTHORITATIVE''
      else if st_effect_id s = None \<or> st_effect_id s = Some [] then unknown_outcome ''FINALIZED_EFFECT_ID_REQUIRED''
      else if expected_request_hash \<noteq> None \<and> st_verified_request_hash s \<noteq> expected_request_hash
        then unknown_outcome ''TASK_SETTLEMENT_INTENT_MISMATCH''
      else let (evaluated, failures) = evaluate_criteria (outcome_root s) 0 (tc_criteria contract) [] [] in
        if failures \<noteq> [] then
          (case outcome_result_init O_NOT_MET failures evaluated of
             Inr r \<Rightarrow> r
           | Inl e \<Rightarrow> \<lparr>or_verdict = O_NOT_MET, or_reason_codes = failures @ [''OUTCOME_EVALUATION_UNBOUNDED''], or_evaluated = []\<rparr>)
        else
          (case outcome_result_init O_MET [] evaluated of
             Inr r \<Rightarrow> r
           | Inl e \<Rightarrow> unknown_outcome ''OUTCOME_EVALUATION_UNBOUNDED''))"

definition verify_attested_task_outcome ::
    "crypto \<Rightarrow> task_contract \<Rightarrow> settlement_record \<Rightarrow> attestation \<Rightarrow> intent \<Rightarrow> trust \<Rightarrow> time \<Rightarrow> int
      \<Rightarrow> intent_state option \<Rightarrow> string option \<Rightarrow> exn + outcome_result" where
  "verify_attested_task_outcome L contract s a i trust now skew runtime_state runtime_effect_id =
     (if tc_intent_id contract \<noteq> i_intent_id i then Inr (unknown_outcome ''TASK_INTENT_ID_MISMATCH'')
      else if runtime_state \<noteq> None \<and> runtime_state \<noteq> Some S_FINALIZED then Inr (unknown_outcome ''TASK_INTENT_NOT_FINALIZED'')
      else if runtime_state \<noteq> None \<and> runtime_effect_id \<noteq> st_effect_id s then Inr (unknown_outcome ''TASK_EFFECT_ID_MISMATCH'')
      else if now + secs (max skew 0) < tc_issued_at contract then Inr (unknown_outcome ''TASK_CONTRACT_FROM_FUTURE'')
      else if now > tc_expires_at contract then Inr (unknown_outcome ''TASK_CONTRACT_EXPIRED'')
      else (case trust a K_TASK (pv_contract contract) i now of Inl e \<Rightarrow> Inl e
        | Inr (ok, reasons) \<Rightarrow>
            if \<not> ok then Inr \<lparr>or_verdict = O_UNKNOWN, or_reason_codes = map ((@) ''TASK_'') reasons, or_evaluated = []\<rparr>
            else (case canonical_hash L (pv_request (from_intent i)) of Inl e \<Rightarrow> Inl e
              | Inr expected \<Rightarrow> Inr (verify_task_outcome contract s (Some expected)))))"

section \<open>What a verdict means\<close>

lemma evaluate_failures:
  "snd (evaluate_criteria view idx cs evaluated failures) = [] \<longleftrightarrow> failures = [] \<and> list_all (criterion_ok view) cs"
  by (induction view idx cs evaluated failures rule: evaluate_criteria.induct) auto

text \<open>The evaluation that is recorded: the value each criterion addresses.\<close>

definition evaluation :: "task_contract \<Rightarrow> settlement_record \<Rightarrow> payload" where
  "evaluation contract s = fst (evaluate_criteria (outcome_root s) 0 (tc_criteria contract) [] [])"

lemma split_dots_plain: "CHR ''.'' \<notin> set p \<Longrightarrow> split_dots p = [p]"
  by (induction p) auto

lemma path_get_plain: "CHR ''.'' \<notin> set p \<Longrightarrow> path_get view p = map_of view p"
proof -
  assume "CHR ''.'' \<notin> set p"
  moreover have "map_of (map (\<lambda>(k, v). (KStr k, v)) view) (KStr p) = map_of view p"
    by (induction view) auto
  ultimately show ?thesis by (simp add: path_get_def dict_of_def split_dots_plain split: option.splits)
qed

lemma outcome_root_fields:
  "path_get (outcome_root s) ''effect_id'' = Some (p_opt PStr (st_effect_id s))"
  "path_get (outcome_root s) ''amount_usd'' = Some (p_opt PDec (st_amount_usd s))"
  "path_get (outcome_root s) ''status'' = Some (PStr (settlement_str (st_status s)))"
  by (simp_all add: path_get_plain outcome_root_def update_conv')

lemma task_outcome_met:
  "or_verdict (verify_task_outcome contract s (Some h)) = O_MET \<longleftrightarrow>
     st_status s = ST_FINALIZED \<and> st_authoritative s \<and> (\<exists>e. st_effect_id s = Some e \<and> e \<noteq> []) \<and> st_verified_request_hash s = Some h
     \<and> list_all (criterion_ok (outcome_root s)) (tc_criteria contract)
     \<and> (\<exists>ev. freeze_mapping (dict_of (evaluation contract s)) = Inr ev)"
proof -
  obtain ev fs where run: "evaluate_criteria (outcome_root s) 0 (tc_criteria contract) [] [] = (ev, fs)" by fastforce
  have fs: "fs = [] \<longleftrightarrow> list_all (criterion_ok (outcome_root s)) (tc_criteria contract)"
    using evaluate_failures [of "outcome_root s" 0 "tc_criteria contract" "[]" "[]"] run by simp
  have ev: "evaluation contract s = ev" using run by (simp add: evaluation_def)
  show ?thesis
    unfolding verify_task_outcome_def run Let_def prod.case
    by (cases "st_effect_id s"; cases "freeze_mapping (dict_of ev)")
      (auto simp: unknown_outcome_def outcome_result_init_def ev fs [symmetric])
qed

text \<open>
  C40. Done is decided exactly: an attested outcome is MET if and only if the contract is for this intent, in force and attested,
  the runtime's own state agrees where it is given, the settlement is a finalized authoritative effect of exactly this intent's
  request, every criterion holds of it, and the evaluation fits the bounds of a recorded document.
\<close>

theorem outcome_met_iff:
  assumes "verify_attested_task_outcome L contract s a i trust now skew runtime_state runtime_effect_id = Inr r"
  shows "or_verdict r = O_MET \<longleftrightarrow>
    tc_intent_id contract = i_intent_id i
    \<and> (runtime_state = None \<or> runtime_state = Some S_FINALIZED \<and> runtime_effect_id = st_effect_id s)
    \<and> tc_issued_at contract \<le> now + secs (max skew 0) \<and> now \<le> tc_expires_at contract
    \<and> (\<exists>reasons. trust a K_TASK (pv_contract contract) i now = Inr (True, reasons))
    \<and> st_status s = ST_FINALIZED \<and> st_authoritative s \<and> (\<exists>e. st_effect_id s = Some e \<and> e \<noteq> [])
    \<and> (\<exists>h. canonical_hash L (pv_request (from_intent i)) = Inr h \<and> st_verified_request_hash s = Some h)
    \<and> list_all (criterion_ok (outcome_root s)) (tc_criteria contract)
    \<and> (\<exists>ev. freeze_mapping (dict_of (evaluation contract s)) = Inr ev)"
  using assms unfolding verify_attested_task_outcome_def
  by (auto simp: task_outcome_met unknown_outcome_def split: if_splits sum.splits prod.splits)

text \<open>
  A venue's evidence cannot redefine the settlement: whatever keys the evidence holds, a criterion on \<open>amount_usd\<close>, \<open>effect_id\<close>
  or \<open>status\<close> is judged on the verified record's own field, and an amount bound is a comparison of the two numbers.
\<close>

lemma evidence_cannot_redefine:
  "(criterion_ok (outcome_root s) \<lparr>oc_path = ''amount_usd'', oc_op = ''gte'', oc_value = v\<rparr> \<longleftrightarrow>
      (\<exists>x y. st_amount_usd s = Some x \<and> is_finite x \<and> as_number v = Some y \<and> dval y \<le> dval x))
   \<and> (criterion_ok (outcome_root s) \<lparr>oc_path = ''amount_usd'', oc_op = ''lte'', oc_value = v\<rparr> \<longleftrightarrow>
      (\<exists>x y. st_amount_usd s = Some x \<and> is_finite x \<and> as_number v = Some y \<and> dval x \<le> dval y))
   \<and> (criterion_ok (outcome_root s) \<lparr>oc_path = ''effect_id'', oc_op = ''present'', oc_value = v\<rparr> \<longleftrightarrow>
      st_effect_id s \<noteq> None \<and> st_effect_id s \<noteq> Some [])"
  by (auto simp: criterion_ok_def outcome_root_fields cmp_def p_opt_def none_or_empty_def dle_def split: option.splits)

text \<open>A contract for the demo intent: at least 50 settled, and the venue's order reference present.\<close>

definition demo_contract :: task_contract where
  "demo_contract =
     \<lparr>tc_task_id = ''task-1'', tc_intent_id = i_intent_id demo_intent, tc_objective = ''pay the invoice'',
      tc_criteria = [\<lparr>oc_path = ''amount_usd'', oc_op = ''gte'', oc_value = PStr ''50''\<rparr>,
                     \<lparr>oc_path = ''order.id'', oc_op = ''present'', oc_value = PNone\<rparr>],
      tc_issued_at = secs 900, tc_expires_at = secs 2000\<rparr>"

definition demo_settled :: settlement_record where
  "demo_settled =
     \<lparr>st_status = ST_FINALIZED, st_effect_id = Some ''effect-1'', st_amount_usd = Some (usd 50),
      st_evidence = [(''amount_usd'', PInt 7), (''order'', PDict [(KStr ''id'', PStr ''o-9'')])], st_authoritative = True,
      st_verified_request_hash = Some (projr (canonical_hash demo_crypto (pv_request (from_intent demo_intent))))\<rparr>"

definition demo_attested :: "exn + outcome_result" where
  "demo_attested = verify_attested_task_outcome demo_crypto demo_contract demo_settled demo_authority_attestation demo_intent
     (\<lambda>_ _ _ _ _. Inr (True, [])) (secs 1010) 5 (Some S_FINALIZED) (Some ''effect-1'')"

lemma demo_attested_met: "case demo_attested of Inl e \<Rightarrow> False | Inr r \<Rightarrow> or_verdict r = O_MET"
  by code_simp

theorem outcome_met_iff_witness:
  "list_all (criterion_ok (outcome_root demo_settled)) (tc_criteria demo_contract)"
proof -
  obtain r where "demo_attested = Inr r" "or_verdict r = O_MET" using demo_attested_met by (auto split: sum.splits)
  then show ?thesis using outcome_met_iff unfolding demo_attested_def by blast
qed

end
