(* ===== verification/Paper_Gateway.thy ===== *)
theory Paper_Gateway
  imports Paper Outcomes Encodable
begin

text \<open>
  \<open>faar/paper_gateway.py\<close>: the venue process of the paper gateway. \<open>PaperVenueBook\<close> holds prices, balances and orders;
  \<open>PaperVenueService\<close> admits orders under a consumed permit, fills or cancels them and answers settlement queries, with one
  credential for submitting and another for querying. The wire format and the HTTP server around it are left out.

  An operation of the book is one on \<open>paper_book\<close>, the submission one on the world, because it consumes the permit there.
  \<open>DeterministicFailure\<close> is the left side of a sum as in \<open>Paper\<close>. An order object is shared by its slot in the book and the local
  variable that holds it, so every mutation is written back under its key. The lock of the service has no state.
\<close>

section \<open>Data\<close>

definition STABLE_ASSETS :: "string list" where
  "STABLE_ASSETS = [''USD'', ''USDC'', ''USDT'']"

definition PAPER_QUOTE_ASSET :: string where
  "PAPER_QUOTE_ASSET = ''USDC''"

definition ORDER_PRIMITIVES :: "economic_primitive list" where
  "ORDER_PRIMITIVES = [BUY, SELL]"

definition SUPPORTED_TIME_IN_FORCE :: "string list" where
  "SUPPORTED_TIME_IN_FORCE = [''IOC'', ''GTC'']"

datatype paper_order_state = OS_PENDING | OS_FILLED | OS_CANCELLED | OS_REJECTED

fun order_state_str :: "paper_order_state \<Rightarrow> string" where
  "order_state_str OS_PENDING = ''PENDING''"
| "order_state_str OS_FILLED = ''FILLED''"
| "order_state_str OS_CANCELLED = ''CANCELLED''"
| "order_state_str OS_REJECTED = ''REJECTED''"

datatype venue_role = ROLE_SUBMIT | ROLE_QUERY

record venue_credential =
  vc_role :: venue_role
  vc_token :: string

text \<open>\<open>isinstance(v, str)\<close> with its text is \<open>py_text\<close> of \<open>Outcomes\<close>: a member of a string enumeration is a string.\<close>

definition valid_role_token :: "pyval \<Rightarrow> bool" where
  "valid_role_token token = (case py_text token of
     None \<Rightarrow> False
   | Some t \<Rightarrow> t \<noteq> [] \<and> length t \<le> 4096 \<and> list_all (\<lambda>c. (of_char c :: int) < 128) t \<and> \<not> list_ex is_space t)"

definition venue_credential_init :: "venue_credential \<Rightarrow> exn + venue_credential" where
  "venue_credential_init c = (if valid_role_token (PStr (vc_token c)) then Inr c else Inl ValueError)"

record order =
  od_key :: string
  od_order_id :: string
  od_principal_id :: string
  od_intent_id :: string
  od_request_hash :: string
  od_primitive :: economic_primitive
  od_state :: paper_order_state
  od_notional :: "decimal option"
  od_fill :: "(string \<times> string) list"
  od_effect_id :: "string option"
  od_amount_usd :: "decimal option"
  od_side :: "string option"
  od_base_asset :: "string option"
  od_quote_asset :: "string option"
  od_limit_price :: "decimal option"
  od_time_in_force :: "string option"
  od_reasons :: "string list"

record order_plan =
  pl_notional :: decimal
  pl_limit_price :: decimal
  pl_side :: string
  pl_base_asset :: string
  pl_quote_asset :: string
  pl_time_in_force :: string

definition client_order_id :: "crypto \<Rightarrow> execution_request \<Rightarrow> exn + string" where
  "client_order_id L rq =
     map_sum id (\<lambda>seed. ''pco_'' @ sha256 L seed)
       (canonical_json (dict_of [(''domain'', PStr ''faar:paper-gateway:client-order-id:v1''),
          (''principal_id'', PStr (rq_principal_id rq)), (''intent_id'', PStr (rq_intent_id rq))]))"

definition stable_id :: "crypto \<Rightarrow> string list \<Rightarrow> exn + string" where
  "stable_id L parts =
     map_sum id (\<lambda>seed. ''pg_'' @ sha256 L seed)
       (canonical_json (dict_of [(''domain'', PStr ''faar:paper-gateway:effect-id:v1''), (''parts'', p_strs parts)]))"

section \<open>PaperVenueBook\<close>

record paper_book =
  bk_prices_usd :: "(string \<times> decimal) list"
  bk_fill_prices_usd :: "(string \<times> decimal) list"
  bk_balances :: "(string \<times> decimal) list"
  bk_orders :: "(string \<times> order) list"
  bk_orders_by_id :: "(string \<times> string) list"

definition valid_asset :: "string \<Rightarrow> bool" where
  "valid_asset asset \<longleftrightarrow> asset \<noteq> [] \<and> length asset \<le> 128 \<and> strip asset = asset"

fun validated_table :: "bool \<Rightarrow> (pykey \<times> pyval) list \<Rightarrow> exn + (string \<times> decimal) list" where
  "validated_table positive [] = Inr []"
| "validated_table positive ((KOther, raw) # rest) = Inl ValueError"
| "validated_table positive ((KStr asset, raw) # rest) =
     (if \<not> valid_asset asset then Inl ValueError
      else case parse_bounded_decimal raw of
        None \<Rightarrow> Inl ValueError
      | Some value \<Rightarrow>
          if (if positive then dle value dzero else dlt value dzero) then Inl ValueError
          else map_sum id (\<lambda>t. (asset, value) # t) (validated_table positive rest))"

definition paper_book_init ::
    "(pykey \<times> pyval) list \<Rightarrow> (pykey \<times> pyval) list \<Rightarrow> (pykey \<times> pyval) list option \<Rightarrow> exn + paper_book" where
  "paper_book_init prices_usd balances fill_prices_usd =
     (case validated_table True prices_usd of Inl e \<Rightarrow> Inl e | Inr prices \<Rightarrow>
     (case validated_table True (case fill_prices_usd of Some f \<Rightarrow> f | None \<Rightarrow> prices_usd) of Inl e \<Rightarrow> Inl e | Inr fill_prices \<Rightarrow>
     if set (map fst fill_prices) \<noteq> set (map fst prices) then Inl ValueError
     else (case validated_table False balances of Inl e \<Rightarrow> Inl e | Inr held \<Rightarrow>
       Inr \<lparr>bk_prices_usd = prices, bk_fill_prices_usd = fill_prices, bk_balances = held, bk_orders = [], bk_orders_by_id = []\<rparr>)))"

definition book_price :: "bool \<Rightarrow> paper_book \<Rightarrow> string \<Rightarrow> string + decimal" where
  "book_price fill b asset =
     (if asset \<in> set STABLE_ASSETS then Inr (DFin False 1 0)
      else case map_of (if fill then bk_fill_prices_usd b else bk_prices_usd b) asset of
        None \<Rightarrow> Inl (''NO_PAPER_PRICE:'' @ asset)
      | Some raw \<Rightarrow> (case parse_bounded_decimal (PDec raw) of
            None \<Rightarrow> Inl (''INVALID_PAPER_PRICE:'' @ asset)
          | Some price \<Rightarrow> if dle price dzero then Inl (''INVALID_PAPER_PRICE:'' @ asset) else Inr price))"

text \<open>\<open>PaperVenueBook.set_quote\<close>.\<close>

definition book_set_quote :: "pyval \<Rightarrow> pyval \<Rightarrow> pyval \<Rightarrow> (paper_book, string + unit) op" where
  "book_set_quote asset price fill_price =
     (case py_text asset of None \<Rightarrow> ret (Inl ''INVALID_PAPER_ASSET'') | Some a \<Rightarrow>
      if \<not> valid_asset a then ret (Inl ''INVALID_PAPER_ASSET'')
      else case (parse_bounded_decimal price, parse_bounded_decimal (if fill_price = PNone then price else fill_price)) of
        (Some p, Some f) \<Rightarrow>
          if dle p dzero \<or> dle f dzero then ret (Inl ''INVALID_PAPER_PRICE'')
          else seqE (modify (\<lambda>b. b\<lparr>bk_prices_usd := AList.update a p (bk_prices_usd b),
                                 bk_fill_prices_usd := AList.update a f (bk_fill_prices_usd b)\<rparr>)) (ret (Inr ()))
      | _ \<Rightarrow> ret (Inl ''INVALID_PAPER_PRICE''))"

definition book_balance :: "paper_book \<Rightarrow> string \<Rightarrow> string + decimal" where
  "book_balance b asset =
     (case parse_bounded_decimal (PDec (case map_of (bk_balances b) asset of None \<Rightarrow> dzero | Some raw \<Rightarrow> raw)) of
        None \<Rightarrow> Inl (''INVALID_PAPER_BALANCE:'' @ asset)
      | Some value \<Rightarrow> if dlt value dzero then Inl (''INVALID_PAPER_BALANCE:'' @ asset) else Inr value)"

definition put_order :: "order \<Rightarrow> (paper_book, unit) op" where
  "put_order od = modify (\<lambda>b. b\<lparr>bk_orders := AList.update (od_key od) od (bk_orders b)\<rparr>)"

definition index_order :: "string \<Rightarrow> string \<Rightarrow> (paper_book, unit) op" where
  "index_order oid key = modify (\<lambda>b. b\<lparr>bk_orders_by_id := AList.update oid key (bk_orders_by_id b)\<rparr>)"

section \<open>Matching and filling\<close>

definition marketable :: "order \<Rightarrow> (paper_book, string + bool) op" where
  "marketable od =
     (case (od_limit_price od, od_base_asset od) of
        (Some limit, Some base) \<Rightarrow>
          if base = [] then ret (Inr False)
          else unless_failed (gets (\<lambda>b. book_price True b base)) (\<lambda>fill_price.
            bindE (lift_sum (if od_side od = Some ''SELL'' then dec_less fill_price limit else dec_less limit fill_price)) (\<lambda>beyond.
            ret (Inr (\<not> beyond))))
      | _ \<Rightarrow> ret (Inr False))"

definition effect_or_order_id :: "order \<Rightarrow> string" where
  "effect_or_order_id od = (case od_effect_id od of None \<Rightarrow> od_order_id od | Some e \<Rightarrow> e)"

definition mark_unfilled_cancel :: "order \<Rightarrow> string \<Rightarrow> (paper_book, unit) op" where
  "mark_unfilled_cancel od reason =
     put_order (od\<lparr>od_state := OS_CANCELLED, od_reasons := [reason], od_amount_usd := Some dzero, od_effect_id := Some (effect_or_order_id od)\<rparr>)"

definition transfer :: "string \<Rightarrow> decimal \<Rightarrow> string \<Rightarrow> decimal \<Rightarrow> (paper_book, string + unit) op" where
  "transfer debit_asset debit_quantity credit_asset credit_quantity =
     (if debit_asset = credit_asset then ret (Inl ''PAPER_TRANSFER_ASSETS_IDENTICAL'')
      else if \<not> is_finite debit_quantity \<or> \<not> is_finite credit_quantity \<or> dle debit_quantity dzero \<or> dle credit_quantity dzero
      then ret (Inl ''PAPER_FILL_QUANTITY_INVALID'')
      else unless_failed (gets (\<lambda>b. book_balance b debit_asset)) (\<lambda>debit_balance.
           unless_failed (gets (\<lambda>b. book_balance b credit_asset)) (\<lambda>credit_balance.
           if dlt debit_balance debit_quantity then ret (Inl (''INSUFFICIENT_BALANCE:'' @ debit_asset))
           else let next_debit = dec_add debit_balance (dec_neg debit_quantity); next_credit = dec_add credit_balance credit_quantity in
             if parse_bounded_decimal (PDec next_debit) = None \<or> parse_bounded_decimal (PDec next_credit) = None
             then ret (Inl ''PAPER_BALANCE_OUT_OF_BOUNDS'')
             else seqE (modify (\<lambda>b. b\<lparr>bk_balances :=
                    AList.update credit_asset next_credit (AList.update debit_asset next_debit (bk_balances b))\<rparr>)) (ret (Inr ())))))"

text \<open>The order after a fill, with the terms it was filled at.\<close>

definition filled_order :: "order \<Rightarrow> string \<Rightarrow> string \<Rightarrow> decimal \<Rightarrow> decimal \<Rightarrow> decimal \<Rightarrow> decimal \<Rightarrow> decimal \<Rightarrow> order" where
  "filled_order od base quote notional limit fill_price base_quantity quote_quantity =
     od\<lparr>od_effect_id := Some (effect_or_order_id od),
        od_fill := [(''side'', case od_side od of None \<Rightarrow> [] | Some s \<Rightarrow> s), (''base_asset'', base), (''quote_asset'', quote),
          (''base_quantity'', format_f base_quantity), (''quote_quantity'', format_f quote_quantity), (''notional_usd'', format_f notional),
          (''limit_price'', format_f limit), (''fill_price'', format_f fill_price),
          (''time_in_force'', case od_time_in_force od of None \<Rightarrow> [] | Some t \<Rightarrow> t)],
        od_amount_usd := Some notional, od_state := OS_FILLED\<rparr>"

definition execute_fill :: "order \<Rightarrow> string \<Rightarrow> string \<Rightarrow> decimal \<Rightarrow> decimal \<Rightarrow> (paper_book, string + order) op" where
  "execute_fill od base quote notional limit =
     unless_failed (gets (\<lambda>b. book_price True b base)) (\<lambda>fill_price.
     unless_failed (gets (\<lambda>b. book_price True b quote)) (\<lambda>quote_price.
     bindE (lift_sum (dec_div notional fill_price)) (\<lambda>base_quantity.
     bindE (lift_sum (dec_div notional quote_price)) (\<lambda>quote_quantity.
     unless_failed
       (if od_side od = Some ''SELL'' then transfer base base_quantity quote quote_quantity
        else if od_side od = Some ''BUY'' then transfer quote quote_quantity base base_quantity
        else ret (Inl ''PAPER_ORDER_SIDE_INVALID''))
       (\<lambda>_. let od' = filled_order od base quote notional limit fill_price base_quantity quote_quantity in
         seqE (put_order od') (seqE (index_order (effect_or_order_id od) (od_key od)) (ret (Inr od'))))))))"

text \<open>\<open>_fill\<close>: the order after the fill, or the failure, with nothing changed.\<close>

definition fill_order :: "order \<Rightarrow> (paper_book, string + order) op" where
  "fill_order od =
     (if od_state od = OS_CANCELLED then ret (Inl ''ORDER_ALREADY_CANCELLED'')
      else if od_state od = OS_FILLED then ret (Inr od)
      else if od_state od = OS_REJECTED then ret (Inl ''ORDER_ALREADY_REJECTED'')
      else unless_failed (if od_primitive od \<noteq> SWAP then marketable od else ret (Inr True)) (\<lambda>now_marketable.
        if \<not> now_marketable then ret (Inl ''LIMIT_PRICE_EXCEEDED'')
        else case (od_notional od, od_base_asset od, od_quote_asset od, od_limit_price od) of
          (Some notional, Some base, Some quote, Some limit) \<Rightarrow> execute_fill od base quote notional limit
        | _ \<Rightarrow> ret (Inl ''PAPER_ORDER_MALFORMED'')))"

text \<open>\<open>_match_pending_locked\<close> over the keys of the orders that were on the book when it began.\<close>

fun match_orders :: "string list \<Rightarrow> (paper_book, string + string list) op" where
  "match_orders [] = ret (Inr [])"
| "match_orders (key # keys) =
     bindE (gets (\<lambda>b. map_of (bk_orders b) key)) (\<lambda>slot. case slot of
       None \<Rightarrow> match_orders keys
     | Some od \<Rightarrow>
         if od_state od \<noteq> OS_PENDING then match_orders keys
         else unless_failed (marketable od) (\<lambda>now_marketable.
           if \<not> now_marketable then match_orders keys
           else bindE (fill_order od) (\<lambda>r. case r of
             Inl msg \<Rightarrow> seqE (mark_unfilled_cancel od msg) (match_orders keys)
           | Inr od' \<Rightarrow> unless_failed (match_orders keys) (\<lambda>filled. ret (Inr (od_key od # filled))))))"

definition match_pending :: "(paper_book, string + string list) op" where
  "match_pending = bindE (gets (\<lambda>b. map fst (bk_orders b))) match_orders"

definition service_set_quote :: "pyval \<Rightarrow> pyval \<Rightarrow> pyval \<Rightarrow> bool \<Rightarrow> (paper_book, string + string list) op" where
  "service_set_quote asset price fill_price matching =
     unless_failed (book_set_quote asset price fill_price) (\<lambda>_. if matching then match_pending else ret (Inr []))"

section \<open>PaperVenueService\<close>

record paper_service =
  vs_name :: string
  vs_permit_verifier :: permit_gateway
  vs_crypto :: crypto
  vs_book :: paper_book
  vs_principal_id :: string
  vs_target :: string
  vs_submit_token :: string
  vs_query_token :: string

definition paper_service_init :: "paper_service \<Rightarrow> exn + paper_service" where
  "paper_service_init v =
     (if \<not> list_all (\<lambda>s. s \<noteq> [] \<and> length s \<le> 256) [vs_name v, vs_principal_id v, vs_target v] then Inl ValueError
      else if \<not> valid_role_token (PStr (vs_submit_token v)) \<or> \<not> valid_role_token (PStr (vs_query_token v)) then Inl ValueError
      else if vs_submit_token v = vs_query_token v then Inl ValueError
      else Inr v)"

definition on_book :: "(paper_book, 'a) op \<Rightarrow> (paper_service, 'a) op" where
  "on_book m v = (case m (vs_book v) of (r, b) \<Rightarrow> (r, v\<lparr>vs_book := b\<rparr>))"

text \<open>\<open>_require\<close> and \<open>_require_request_scope\<close>.\<close>

definition require_credential :: "paper_service \<Rightarrow> venue_credential \<Rightarrow> venue_role \<Rightarrow> string + unit" where
  "require_credential v c role =
     (if vc_role c \<noteq> role then Inl ''CREDENTIAL_DENIED''
      else if vc_token c \<noteq> (if role = ROLE_SUBMIT then vs_submit_token v else vs_query_token v) then Inl ''CREDENTIAL_DENIED''
      else Inr ())"

definition require_request_scope :: "paper_service \<Rightarrow> execution_request \<Rightarrow> string + unit" where
  "require_request_scope v rq =
     (if rq_venue rq \<noteq> vs_name v then Inl ''PERMIT_VENUE_MISMATCH''
      else if rq_principal_id rq \<noteq> vs_principal_id v then Inl ''PAPER_PRINCIPAL_MISMATCH''
      else if py_text (pget (rq_payload rq) ''target'') \<noteq> Some (vs_target v) then Inl ''PAPER_TARGET_MISMATCH''
      else Inr ())"

definition receipt_status :: "paper_order_state \<Rightarrow> settlement_status" where
  "receipt_status s = (case s of
     OS_FILLED \<Rightarrow> ST_FINALIZED | OS_PENDING \<Rightarrow> ST_PARTIALLY_FILLED | OS_CANCELLED \<Rightarrow> ST_CANCELLED | OS_REJECTED \<Rightarrow> ST_CANCELLED)"

text \<open>\<open>order.effect_id or order.order_id\<close>: an empty text counts as none.\<close>

definition shown_effect_id :: "order \<Rightarrow> string" where
  "shown_effect_id od = (if effect_or_order_id od = [] then od_order_id od else effect_or_order_id od)"

definition order_receipt :: "paper_service \<Rightarrow> order \<Rightarrow> exn + execution_receipt" where
  "order_receipt v od =
     execution_receipt_init
       \<lparr>rc_effect_id = shown_effect_id od, rc_status = receipt_status (od_state od), rc_evidence = [], rc_amount_usd = od_amount_usd od\<rparr>
       (dict_of [(''venue'', PStr (vs_name v)), (''client_order_id'', PStr (od_key od)), (''order_id'', PStr (od_order_id od)),
                 (''order_state'', PStr (order_state_str (od_state od))), (''effect_id'', p_opt PStr (od_effect_id od)),
                 (''request_hash'', PStr (od_request_hash od)), (''fill'', dict_of (map (\<lambda>(k, s). (k, PStr s)) (od_fill od))),
                 (''reasons'', p_strs (od_reasons od))])"

definition receipt_of :: "order \<Rightarrow> (paper_service, string + execution_receipt) op" where
  "receipt_of od = bindE (gets (\<lambda>v. order_receipt v od)) (\<lambda>r. bindE (lift_sum r) (\<lambda>rc. ret (Inr rc)))"

text \<open>
  \<open>str.upper\<close> of a character. The two characters whose capital has a code point above 255 are kept: neither they nor their
  capitals occur in the texts the result is compared with.
\<close>

definition upper_char :: "char \<Rightarrow> string" where
  "upper_char c = (let n = of_char c :: int in
     if n = 223 then ''SS''
     else if (97 \<le> n \<and> n \<le> 122) \<or> (224 \<le> n \<and> n \<le> 254 \<and> n \<noteq> 247) then [char_of (n - 32)] else [c])"

definition py_upper :: "string \<Rightarrow> string" where
  "py_upper s = concat (map upper_char s)"

text \<open>\<open>_plan\<close>: the terms of a limit order, or the first objection.\<close>

definition plan_market :: "paper_book \<Rightarrow> execution_request \<Rightarrow> decimal \<Rightarrow> decimal \<Rightarrow> string \<Rightarrow> string + order_plan" where
  "plan_market b rq notional limit tif =
     (case (py_text (pget (rq_payload rq) ''base_asset''), py_text (pget (rq_payload rq) ''quote_asset'')) of
        (Some base, Some quote) \<Rightarrow>
          if base = [] \<or> quote = [] \<or> base = quote then Inl ''PAPER_MARKET_INVALID''
          else if quote \<noteq> PAPER_QUOTE_ASSET then Inl ''PAPER_USDC_QUOTE_REQUIRED''
          else (case book_price False b base of Inl msg \<Rightarrow> Inl msg | Inr reference \<Rightarrow>
               (case book_price True b base of Inl msg \<Rightarrow> Inl msg | Inr executable \<Rightarrow>
                 Inr \<lparr>pl_notional = notional, pl_limit_price = limit, pl_side = (if rq_primitive rq = SELL then ''SELL'' else ''BUY''),
                      pl_base_asset = base, pl_quote_asset = quote, pl_time_in_force = tif\<rparr>))
      | _ \<Rightarrow> Inl ''PAPER_MARKET_INVALID'')"

definition plan_amounts :: "paper_book \<Rightarrow> execution_request \<Rightarrow> string \<Rightarrow> string + order_plan" where
  "plan_amounts b rq tif =
     (let p = rq_payload rq in
      case filter (has_key p) [''amount_usd'', ''notional_usd''] of
        [amount_field] \<Rightarrow>
          (case parse_bounded_decimal (pget p amount_field) of None \<Rightarrow> Inl ''PAPER_NOTIONAL_INVALID'' | Some notional \<Rightarrow>
           if dle notional dzero then Inl ''PAPER_NOTIONAL_INVALID''
           else case parse_bounded_decimal (pget p ''limit_price'') of None \<Rightarrow> Inl ''PAPER_LIMIT_PRICE_INVALID'' | Some limit \<Rightarrow>
           if dle limit dzero then Inl ''PAPER_LIMIT_PRICE_INVALID''
           else plan_market b rq notional limit tif)
      | _ \<Rightarrow> Inl ''PAPER_ONE_NOTIONAL_REQUIRED'')"

definition plan_order :: "paper_book \<Rightarrow> execution_request \<Rightarrow> string + order_plan" where
  "plan_order b rq =
     (let p = rq_payload rq in
      if rq_primitive rq \<notin> set ORDER_PRIMITIVES then Inl (''UNSUPPORTED_PRIMITIVE:'' @ primitive_str (rq_primitive rq))
      else if map_option py_lower (py_text (pget p ''order_type'')) \<noteq> Some ''limit'' then Inl ''PAPER_LIMIT_ORDER_REQUIRED''
      else case map_option py_upper (py_text (pget_default p ''time_in_force'' (PStr ''IOC''))) of
        None \<Rightarrow> Inl ''PAPER_TIME_IN_FORCE_UNSUPPORTED''
      | Some tif \<Rightarrow>
          if tif \<notin> set SUPPORTED_TIME_IN_FORCE then Inl ''PAPER_TIME_IN_FORCE_UNSUPPORTED''
          else if has_key p ''max_slippage_bps'' then Inl ''PAPER_ABSOLUTE_LIMIT_ONLY''
          else plan_amounts b rq tif)"

text \<open>The order an admitted plan becomes, and what happens to it at once.\<close>

definition new_order :: "string \<Rightarrow> string \<Rightarrow> string \<Rightarrow> execution_request \<Rightarrow> order_plan \<Rightarrow> order" where
  "new_order key order_id request_hash rq pl =
     \<lparr>od_key = key, od_order_id = order_id, od_principal_id = rq_principal_id rq, od_intent_id = rq_intent_id rq,
      od_request_hash = request_hash, od_primitive = rq_primitive rq, od_state = OS_PENDING, od_notional = Some (pl_notional pl),
      od_fill = [(''side'', pl_side pl), (''base_asset'', pl_base_asset pl), (''quote_asset'', pl_quote_asset pl),
        (''limit_price'', format_f (pl_limit_price pl)), (''time_in_force'', pl_time_in_force pl)],
      od_effect_id = Some order_id, od_amount_usd = Some dzero, od_side = Some (pl_side pl), od_base_asset = Some (pl_base_asset pl),
      od_quote_asset = Some (pl_quote_asset pl), od_limit_price = Some (pl_limit_price pl), od_time_in_force = Some (pl_time_in_force pl),
      od_reasons = []\<rparr>"

definition settle_new :: "order \<Rightarrow> (paper_book, string + order) op" where
  "settle_new od =
     unless_failed (marketable od) (\<lambda>now_marketable.
     if now_marketable then
       bindE (fill_order od) (\<lambda>r. case r of
         Inl msg \<Rightarrow> seqE (mark_unfilled_cancel od msg) (ret (Inl msg))
       | Inr od' \<Rightarrow> ret (Inr od'))
     else if od_time_in_force od = Some ''GTC'' then ret (Inr od)
     else seqE (mark_unfilled_cancel od ''LIMIT_PRICE_EXCEEDED'') (ret (Inl ''LIMIT_PRICE_EXCEEDED'')))"

definition enter_order :: "order \<Rightarrow> (paper_book, unit) op" where
  "enter_order od = seqE (put_order od) (index_order (od_order_id od) (od_key od))"

definition admit_order :: "string \<Rightarrow> execution_request \<Rightarrow> order_plan \<Rightarrow> (paper_service, string + execution_receipt) op" where
  "admit_order key rq pl =
     bindE (gets (\<lambda>v. v)) (\<lambda>v.
     bindE (lift_sum (stable_id (vs_crypto v) [vs_name v, key, ''order''])) (\<lambda>order_id.
     bindE (lift_sum (canonical_hash (vs_crypto v) (pv_request rq))) (\<lambda>request_hash.
     let od = new_order key order_id request_hash rq pl in
     seqE (on_book (enter_order od)) (unless_failed (on_book (settle_new od)) receipt_of))))"

definition cancel_record :: "string \<Rightarrow> string \<Rightarrow> string \<Rightarrow> execution_request \<Rightarrow> order \<Rightarrow> order" where
  "cancel_record key cancel_id request_hash rq target_order =
     \<lparr>od_key = key, od_order_id = cancel_id, od_principal_id = rq_principal_id rq, od_intent_id = rq_intent_id rq,
      od_request_hash = request_hash, od_primitive = CANCEL_ORDER, od_state = OS_FILLED, od_notional = Some dzero,
      od_fill = [(''cancelled_order_id'', od_order_id target_order), (''cancelled_client_order_id'', od_key target_order)],
      od_effect_id = Some cancel_id, od_amount_usd = None, od_side = None, od_base_asset = None, od_quote_asset = None,
      od_limit_price = None, od_time_in_force = None, od_reasons = []\<rparr>"

definition record_cancel_intent :: "execution_request \<Rightarrow> order \<Rightarrow> (paper_service, string + execution_receipt) op" where
  "record_cancel_intent rq target_order =
     bindE (gets (\<lambda>v. v)) (\<lambda>v.
     bindE (lift_sum (client_order_id (vs_crypto v) rq)) (\<lambda>key.
     bindE (lift_sum (stable_id (vs_crypto v) [vs_name v, key, ''cancel''])) (\<lambda>cancel_id.
     bindE (lift_sum (canonical_hash (vs_crypto v) (pv_request rq))) (\<lambda>request_hash.
     let cancel = cancel_record key cancel_id request_hash rq target_order in
     seqE (on_book (enter_order cancel)) (receipt_of cancel)))))"

text \<open>The consumption of the permit, which admits the request.\<close>

definition consume_permit :: "execution_request \<Rightarrow> signed_permit \<Rightarrow> (paper_service world, string + unit) op" where
  "consume_permit rq permit =
     bindE (gets w_venue) (\<lambda>v.
     bindE read_clock (\<lambda>now.
     bindE (gateway_consume (vs_permit_verifier v) permit rq now (Some (vs_name v))) (\<lambda>(ok, reasons).
     if \<not> ok then ret (Inl (''PERMIT_REJECTED:'' @ join_with '','' reasons)) else ret (Inr ()))))"

text \<open>\<open>_cancel_locked\<close>: the checks before the permit is consumed, and what follows.\<close>

definition cancel_key :: "paper_book \<Rightarrow> string \<Rightarrow> string option" where
  "cancel_key b target = (case map_of (bk_orders_by_id b) target of
     Some key \<Rightarrow> Some key
   | None \<Rightarrow> if map_of (bk_orders b) target \<noteq> None then Some target else None)"

definition cancel_check :: "paper_book \<Rightarrow> execution_request \<Rightarrow> exn + string + string" where
  "cancel_check b rq =
     (case py_text (pget (rq_payload rq) ''order_id'') of None \<Rightarrow> Inr (Inl ''ORDER_ID_INVALID'') | Some target \<Rightarrow>
      if target = [] then Inr (Inl ''ORDER_ID_INVALID'')
      else case cancel_key b target of None \<Rightarrow> Inr (Inl ''ORDER_NOT_FOUND'') | Some key \<Rightarrow>
      (case map_of (bk_orders b) key of None \<Rightarrow> Inl KeyError | Some od \<Rightarrow>
       if od_principal_id od \<noteq> rq_principal_id rq then Inr (Inl ''ORDER_NOT_OWNED'')
       else if od_state od = OS_FILLED then Inr (Inl ''ORDER_ALREADY_FILLED'')
       else if od_state od = OS_REJECTED then Inr (Inl ''ORDER_ALREADY_REJECTED'')
       else Inr (Inr key)))"

definition cancelled :: "order \<Rightarrow> order" where
  "cancelled od = od\<lparr>od_state := OS_CANCELLED, od_reasons := [''CANCELLED''], od_amount_usd := Some dzero\<rparr>"

definition cancel_admitted :: "string \<Rightarrow> execution_request \<Rightarrow> (paper_service, string + execution_receipt) op" where
  "cancel_admitted key rq =
     bindE (gets (\<lambda>v. map_of (bk_orders (vs_book v)) key)) (\<lambda>slot. case slot of
       None \<Rightarrow> raise_exn KeyError
     | Some od \<Rightarrow>
         if od_state od = OS_FILLED then seqE (record_cancel_intent rq od) (ret (Inl ''ORDER_ALREADY_FILLED''))
         else seqE (on_book (put_order (cancelled od))) (record_cancel_intent rq (cancelled od)))"

definition cancel_locked :: "execution_request \<Rightarrow> signed_permit \<Rightarrow> (paper_service world, string + execution_receipt) op" where
  "cancel_locked rq permit =
     bindE (gets w_venue) (\<lambda>v.
     unless_failed (lift_sum (cancel_check (vs_book v) rq)) (\<lambda>key.
     unless_failed (consume_permit rq permit) (\<lambda>_. on_venue (cancel_admitted key rq))))"

text \<open>\<open>_submit_locked\<close>: a known order is answered from the book; otherwise the request is planned, admitted and settled.\<close>

definition resubmitted :: "paper_service \<Rightarrow> execution_request \<Rightarrow> order \<Rightarrow> exn + string + execution_receipt" where
  "resubmitted v rq existing =
     (if od_state existing = OS_CANCELLED then Inr (Inl ''ORDER_ALREADY_CANCELLED'')
      else if od_state existing = OS_REJECTED then Inr (Inl ''ORDER_ALREADY_REJECTED'')
      else case canonical_hash (vs_crypto v) (pv_request rq) of Inl e \<Rightarrow> Inl e | Inr request_hash \<Rightarrow>
        if od_request_hash existing \<noteq> request_hash then Inr (Inl ''ORDER_REQUEST_BINDING_MISMATCH'')
        else map_sum id Inr (order_receipt v existing))"

definition submit_locked :: "execution_request \<Rightarrow> signed_permit \<Rightarrow> (paper_service world, string + execution_receipt) op" where
  "submit_locked rq permit =
     bindE (gets w_venue) (\<lambda>v.
     unless_failed (ret (require_request_scope v rq)) (\<lambda>_.
     if rq_primitive rq \<notin> set (CANCEL_ORDER # ORDER_PRIMITIVES)
     then ret (Inl (''UNSUPPORTED_PRIMITIVE:'' @ primitive_str (rq_primitive rq)))
     else bindE (lift_sum (client_order_id (vs_crypto v) rq)) (\<lambda>key.
       case map_of (bk_orders (vs_book v)) key of
         Some existing \<Rightarrow> lift_sum (resubmitted v rq existing)
       | None \<Rightarrow>
           if rq_primitive rq = CANCEL_ORDER then cancel_locked rq permit
           else unless_failed (ret (plan_order (vs_book v) rq)) (\<lambda>pl.
                unless_failed (consume_permit rq permit) (\<lambda>_. on_venue (admit_order key rq pl))))))"

definition service_submit :: "execution_request \<Rightarrow> signed_permit \<Rightarrow> venue_credential \<Rightarrow> (paper_service world, string + execution_receipt) op" where
  "service_submit rq permit credential =
     bindE (gets w_venue) (\<lambda>v.
     unless_failed (ret (require_credential v credential ROLE_SUBMIT)) (\<lambda>_. submit_locked rq permit))"

section \<open>Settlement queries\<close>

definition lookup_locked :: "paper_service \<Rightarrow> execution_request \<Rightarrow> exn + settlement_record" where
  "lookup_locked v rq =
     (case canonical_hash (vs_crypto v) (pv_request rq) of Inl e \<Rightarrow> Inl e | Inr request_hash \<Rightarrow>
     (case client_order_id (vs_crypto v) rq of Inl e \<Rightarrow> Inl e | Inr key \<Rightarrow>
     (case map_of (bk_orders (vs_book v)) key of
        None \<Rightarrow>
          settlement_record_init (no_record ST_NONE request_hash)
            (dict_of [(''venue'', PStr (vs_name v)), (''order_state'', PStr ''ABSENT'')])
      | Some od \<Rightarrow>
          if od_request_hash od \<noteq> request_hash then
            settlement_record_init (no_record ST_CONTRADICTORY request_hash)
              (dict_of [(''venue'', PStr (vs_name v)), (''reason'', PStr ''observed-effect-request-binding-mismatch''),
                        (''observed_request_hash'', PStr (od_request_hash od)), (''expected_request_hash'', PStr request_hash)])
          else if od_state od = OS_FILLED then
            (case order_receipt v od of Inl e \<Rightarrow> Inl e | Inr rc \<Rightarrow>
              settlement_record_init
                ((no_record ST_FINALIZED request_hash)\<lparr>st_effect_id := od_effect_id od, st_amount_usd := od_amount_usd od\<rparr>)
                (dict_of (rc_evidence rc)))
          else if od_state od = OS_PENDING then
            settlement_record_init
              ((no_record ST_PARTIALLY_FILLED request_hash)\<lparr>st_effect_id := Some (shown_effect_id od), st_amount_usd := Some dzero\<rparr>)
              (dict_of [(''venue'', PStr (vs_name v)), (''order_state'', PStr (order_state_str (od_state od))), (''order_id'', PStr (od_order_id od))])
          else
            settlement_record_init
              ((no_record ST_CANCELLED request_hash)\<lparr>st_effect_id := Some (shown_effect_id od), st_amount_usd := Some dzero\<rparr>)
              (dict_of [(''venue'', PStr (vs_name v)), (''order_state'', PStr (order_state_str (od_state od))), (''reasons'', p_strs (od_reasons od))]))))"

definition service_lookup :: "execution_request \<Rightarrow> venue_credential \<Rightarrow> (paper_service world, string + settlement_record) op" where
  "service_lookup rq credential =
     bindE (gets w_venue) (\<lambda>v.
     unless_failed (ret (require_credential v credential ROLE_QUERY)) (\<lambda>_.
     unless_failed (ret (require_request_scope v rq)) (\<lambda>_.
     bindE (lift_sum (lookup_locked v rq)) (\<lambda>s. ret (Inr s)))))"

text \<open>The two clients \<open>paper_gateway_pair\<close> makes: each holds the credential of its own role and refuses the other call.\<close>

datatype venue_client = SubmitClient venue_credential | QueryClient venue_credential

definition submit_client_init :: "venue_credential \<Rightarrow> exn + venue_client" where
  "submit_client_init c = (if vc_role c \<noteq> ROLE_SUBMIT then Inl ValueError else Inr (SubmitClient c))"

definition query_client_init :: "venue_credential \<Rightarrow> exn + venue_client" where
  "query_client_init c = (if vc_role c \<noteq> ROLE_QUERY then Inl ValueError else Inr (QueryClient c))"

fun client_submit :: "venue_client \<Rightarrow> execution_request \<Rightarrow> signed_permit \<Rightarrow> (paper_service world, string + execution_receipt) op" where
  "client_submit (SubmitClient c) rq permit = service_submit rq permit c"
| "client_submit (QueryClient c) rq permit = ret (Inl ''QUERY_CLIENT_CANNOT_SUBMIT'')"

fun client_lookup :: "venue_client \<Rightarrow> execution_request \<Rightarrow> (paper_service world, string + settlement_record) op" where
  "client_lookup (SubmitClient c) rq = ret (Inl ''SUBMIT_CLIENT_CANNOT_QUERY'')"
| "client_lookup (QueryClient c) rq = service_lookup rq c"

definition paper_gateway_pair :: "paper_service \<Rightarrow> exn + venue_client \<times> venue_client" where
  "paper_gateway_pair v =
     (case venue_credential_init \<lparr>vc_role = ROLE_SUBMIT, vc_token = vs_submit_token v\<rparr> of Inl e \<Rightarrow> Inl e | Inr submitting \<Rightarrow>
     (case submit_client_init submitting of Inl e \<Rightarrow> Inl e | Inr submit_client \<Rightarrow>
     (case venue_credential_init \<lparr>vc_role = ROLE_QUERY, vc_token = vs_query_token v\<rparr> of Inl e \<Rightarrow> Inl e | Inr querying \<Rightarrow>
       map_sum id (Pair submit_client) (query_client_init querying))))"

text \<open>The adapter and the settlement source of the runtime around a client.\<close>

definition gateway_adapter :: "venue_client \<Rightarrow> paper_service adapter" where
  "gateway_adapter client rq permit =
     bindE (client_submit client rq permit) (\<lambda>r. ret (case r of Inl msg \<Rightarrow> RaisedDeterministic msg | Inr rc \<Rightarrow> Receipt rc))"

text \<open>To the runtime every exception of a settlement source is the same.\<close>

definition gateway_settlement :: "venue_client \<Rightarrow> paper_service settlement_source" where
  "gateway_settlement client rq =
     bindE (client_lookup client rq) (\<lambda>r. case r of Inl msg \<Rightarrow> raise_exn OtherError | Inr s \<Rightarrow> ret (SettlementAnswer s))"

end
