(* ===== verification/Paper_Orders.thy ===== *)
theory Paper_Orders
  imports Paper_Gateway
begin

text \<open>
  What the order book of the paper gateway keeps. \<open>book_ok\<close> is its well-formedness; \<open>book_step b c\<close> says that a well-formed
  book stays so while every order on it stays on it, moves only forward (a filled or rejected order is final, a cancelled one
  never fills) and keeps its identity and terms, and that an order that is filled in between was inside its limit at the
  executable price. \<open>book_step\<close> is a preorder, so it composes along the control flow.
\<close>

section \<open>Well-formed books\<close>

definition positive :: "decimal \<Rightarrow> bool" where
  "positive d \<longleftrightarrow> is_finite d \<and> 0 < dval d"

definition order_ok :: "order \<Rightarrow> bool" where
  "order_ok od \<longleftrightarrow> od_effect_id od = Some (od_order_id od) \<and>
     (if od_primitive od = CANCEL_ORDER then od_state od = OS_FILLED \<and> od_amount_usd od = None \<and> od_limit_price od = None
      else od_primitive od \<in> set ORDER_PRIMITIVES
        \<and> (case (od_notional od, od_limit_price od) of
             (Some n, Some l) \<Rightarrow> positive n \<and> positive l \<and> od_amount_usd od = Some (if od_state od = OS_FILLED then n else dzero)
           | _ \<Rightarrow> False)
        \<and> od_side od = Some (if od_primitive od = SELL then ''SELL'' else ''BUY'')
        \<and> od_base_asset od \<noteq> None \<and> od_quote_asset od = Some PAPER_QUOTE_ASSET)"

definition book_ok :: "paper_book \<Rightarrow> bool" where
  "book_ok b \<longleftrightarrow>
     list_all (\<lambda>(asset, p). positive p) (bk_prices_usd b) \<and> list_all (\<lambda>(asset, p). positive p) (bk_fill_prices_usd b)
     \<and> list_all (\<lambda>(asset, x). nonneg x) (bk_balances b)
     \<and> distinct (map fst (bk_orders b)) \<and> list_all (\<lambda>(k, od). od_key od = k \<and> order_ok od) (bk_orders b)
     \<and> list_all (\<lambda>(i, k). k \<in> set (map fst (bk_orders b))) (bk_orders_by_id b)"

text \<open>What an order is, apart from how far it has come.\<close>

definition terms_of :: "order \<Rightarrow> order" where
  "terms_of od = od\<lparr>od_state := OS_PENDING, od_fill := [], od_amount_usd := None, od_reasons := []\<rparr>"

definition order_step :: "order \<Rightarrow> order \<Rightarrow> bool" where
  "order_step od od' \<longleftrightarrow> od' = od \<or> terms_of od' = terms_of od \<and>
     (od_state od = OS_PENDING \<and> od_state od' = OS_FILLED \<or> od_state od \<in> {OS_PENDING, OS_CANCELLED} \<and> od_state od' = OS_CANCELLED)"

definition within_limit :: "paper_book \<Rightarrow> order \<Rightarrow> bool" where
  "within_limit b od \<longleftrightarrow>
     (case (od_limit_price od, od_base_asset od) of
        (Some limit, Some base) \<Rightarrow> (case book_price True b base of
            Inr p \<Rightarrow> if od_side od = Some ''SELL'' then dle limit p else dle p limit
          | Inl msg \<Rightarrow> False)
      | _ \<Rightarrow> False)"

definition kept_orders :: "paper_book \<Rightarrow> paper_book \<Rightarrow> bool" where
  "kept_orders b c \<longleftrightarrow> (\<forall>k od. map_of (bk_orders b) k = Some od \<longrightarrow> (\<exists>od'. map_of (bk_orders c) k = Some od' \<and> order_step od od'))"

definition fills_within_limit :: "paper_book \<Rightarrow> paper_book \<Rightarrow> bool" where
  "fills_within_limit b c \<longleftrightarrow>
     (\<forall>k od. map_of (bk_orders c) k = Some od \<longrightarrow> od_state od = OS_FILLED \<longrightarrow> od_primitive od \<noteq> CANCEL_ORDER \<longrightarrow>
        map_of (bk_orders b) k = Some od \<or> within_limit c od)"

definition same_prices :: "paper_book \<Rightarrow> paper_book \<Rightarrow> bool" where
  "same_prices b c \<longleftrightarrow> bk_prices_usd c = bk_prices_usd b \<and> bk_fill_prices_usd c = bk_fill_prices_usd b"

definition book_step :: "paper_book \<Rightarrow> paper_book \<Rightarrow> bool" where
  "book_step b c \<longleftrightarrow> (book_ok b \<longrightarrow> book_ok c \<and> same_prices b c \<and> kept_orders b c \<and> fills_within_limit b c)"

lemma order_step_trans: "order_step a b \<Longrightarrow> order_step b c \<Longrightarrow> order_step a c"
  unfolding order_step_def by auto

lemma book_price_cong: "same_prices b c \<Longrightarrow> book_price fill c asset = book_price fill b asset"
  by (simp add: book_price_def same_prices_def)

lemma within_limit_cong: "same_prices b c \<Longrightarrow> within_limit c od = within_limit b od"
  by (simp add: within_limit_def book_price_cong cong: option.case_cong sum.case_cong)

lemma book_step_refl: "book_step b b"
  by (simp add: book_step_def same_prices_def kept_orders_def order_step_def fills_within_limit_def)

lemma kept_orders_trans: "kept_orders a b \<Longrightarrow> kept_orders b c \<Longrightarrow> kept_orders a c"
  unfolding kept_orders_def by (meson order_step_trans)

lemma fills_within_limit_trans:
  "fills_within_limit a b \<Longrightarrow> fills_within_limit b c \<Longrightarrow> same_prices b c \<Longrightarrow> fills_within_limit a c"
  unfolding fills_within_limit_def using within_limit_cong by blast

lemma book_step_trans: "book_step a b \<Longrightarrow> book_step b c \<Longrightarrow> book_step a c"
  unfolding book_step_def using kept_orders_trans fills_within_limit_trans by (auto simp: same_prices_def)

interpretation trading: step_preorder book_step
  by unfold_locales (fact book_step_refl, fact book_step_trans)

section \<open>Writing to the book\<close>

lemma put_step:
  assumes "order_ok od" and "\<And>old. map_of (bk_orders b) (od_key od) = Some old \<Longrightarrow> order_step old od"
    and "od_state od = OS_FILLED \<Longrightarrow> od_primitive od \<noteq> CANCEL_ORDER \<Longrightarrow> within_limit b od"
  shows "book_step b (b\<lparr>bk_orders := AList.update (od_key od) od (bk_orders b)\<rparr>)" (is "book_step b ?c")
proof -
  have p: "same_prices b ?c" by (simp add: same_prices_def)
  have "set (map fst (bk_orders b)) \<subseteq> set (map fst (bk_orders ?c))" by (auto simp: update_keys)
  moreover have "list_all (\<lambda>(k, od). od_key od = k \<and> order_ok od) (bk_orders ?c)" if "book_ok b"
    using that assms(1) by (auto simp: book_ok_def intro!: alist_all_update)
  moreover have "list_all (\<lambda>(i, k). k \<in> set (map fst (bk_orders ?c))) (bk_orders_by_id b)" if "book_ok b"
    using that calculation(1) by (auto simp: book_ok_def list_all_iff)
  ultimately have "book_ok ?c" if "book_ok b"
    using that by (simp add: book_ok_def distinct_update)
  moreover have "kept_orders b ?c" using assms(2) by (auto simp: kept_orders_def update_conv' order_step_def)
  moreover have "fills_within_limit b ?c"
    using assms(3) within_limit_cong [OF p] by (auto simp: fills_within_limit_def update_conv' split: if_splits)
  ultimately show ?thesis using p by (simp add: book_step_def)
qed

lemma index_step:
  "key \<in> set (map fst (bk_orders b)) \<Longrightarrow> book_step b (b\<lparr>bk_orders_by_id := AList.update oid key (bk_orders_by_id b)\<rparr>)"
  by (auto simp: book_step_def book_ok_def alist_all_update same_prices_def kept_orders_def order_step_def fills_within_limit_def)

lemma balances_step:
  "list_all (\<lambda>(asset, x). nonneg x) (bk_balances b) \<longrightarrow> list_all (\<lambda>(asset, x). nonneg x) xs \<Longrightarrow> book_step b (b\<lparr>bk_balances := xs\<rparr>)"
  by (auto simp: book_step_def book_ok_def same_prices_def kept_orders_def order_step_def fills_within_limit_def)

lemma book_okD:
  assumes "book_ok b" and "map_of (bk_orders b) k = Some od"
  shows "od_key od = k" and "order_ok od"
  using assms map_of_SomeD unfolding book_ok_def list_all_iff by fastforce+

section \<open>Fills\<close>

lemma wp_unless_failed [wp_simps]:
  "wp (unless_failed m f) Q s =
     wp m (\<lambda>r t. case r of Inl e \<Rightarrow> Q (Inl e) t | Inr a \<Rightarrow> (case a of Inl msg \<Rightarrow> Q (Inr (Inl msg)) t | Inr x \<Rightarrow> wp (f x) Q t)) s"
  by (auto simp: unless_failed_def wp_def op_simps split: prod.splits sum.splits)

lemma balance_bounded: "book_balance b asset = Inr x \<Longrightarrow> nonneg x"
  by (auto simp: book_balance_def nonneg_def dlt_def split: option.splits if_splits dest: if_bounded_Some)

lemma price_positive: "book_price fill b asset = Inr p \<Longrightarrow> positive p"
  by (auto simp: book_price_def positive_def dle_def split: option.splits if_splits dest: if_bounded_Some)

lemma dec_less_finite: "is_finite x \<Longrightarrow> is_finite y \<Longrightarrow> dec_less x y = Inr (dval x < dval y)"
  by (cases x; cases y) (simp_all add: dlt_def)

lemma marketable_run:
  assumes "order_ok od"
  shows "\<exists>r. marketable od b = (Inr r, b) \<and> (r = Inr True \<longrightarrow> within_limit b od)"
proof (cases "od_limit_price od = None \<or> od_base_asset od = None \<or> od_base_asset od = Some []")
  case True
  then show ?thesis by (auto simp: marketable_def op_simps split: option.splits)
next
  case False
  then obtain limit base where lb: "od_limit_price od = Some limit" "od_base_asset od = Some base" "base \<noteq> []" by auto
  show ?thesis
  proof (cases "book_price True b base")
    case (Inl msg)
    then show ?thesis using lb by (simp add: marketable_def unless_failed_def op_simps)
  next
    case (Inr p)
    have "is_finite p" using price_positive [OF Inr] by (simp add: positive_def)
    moreover have "is_finite limit"
      using assms lb(1) by (auto simp: order_ok_def positive_def split: option.splits if_splits)
    ultimately show ?thesis using lb Inr
      by (auto simp: marketable_def unless_failed_def op_simps dec_less_finite within_limit_def dle_def)
  qed
qed

text \<open>A transfer either fails, with nothing changed, or leaves both balances covered.\<close>

lemma next_debit: "nonneg d \<Longrightarrow> is_finite q \<Longrightarrow> \<not> dlt d q \<Longrightarrow> nonneg (dec_add d (dec_neg q))"
  by (rule nonneg_add) (cases q; auto simp: nonneg_def dlt_def)+

lemma next_credit: "nonneg e \<Longrightarrow> is_finite q \<Longrightarrow> \<not> dle q dzero \<Longrightarrow> nonneg (dec_add e q)"
  by (rule nonneg_add) (auto simp: nonneg_def dle_def)

definition transferred :: "paper_book \<Rightarrow> paper_book \<Rightarrow> bool" where
  "transferred b c \<longleftrightarrow> (\<exists>a x a' y. nonneg x \<and> nonneg y \<and> c = b\<lparr>bk_balances := AList.update a' y (AList.update a x (bk_balances b))\<rparr>)"

lemma wp_transfer:
  assumes "\<And>c. transferred b c \<Longrightarrow> Q (Inr (Inr ())) c" and "\<And>msg. Q (Inr (Inl msg)) b"
  shows "wp (transfer a q a' q') Q b"
proof -
  have "transferred b (b\<lparr>bk_balances := AList.update a' (dec_add e q') (AList.update a (dec_add d (dec_neg q)) (bk_balances b))\<rparr>)"
    if "book_balance b a = Inr d" "book_balance b a' = Inr e" "\<not> dlt d q" "is_finite q" "is_finite q'" "\<not> dle q' dzero" for d e
    using next_debit [of d q] next_credit [of e q'] balance_bounded that unfolding transferred_def by blast
  then show ?thesis using assms
    unfolding transfer_def Let_def
    by (simp add: wp_simps del: parse_bounded_decimal.simps dec_add.simps split: sum.split)
qed

lemma transferred_step: "transferred b c \<Longrightarrow> book_step b c \<and> bk_orders c = bk_orders b"
  by (auto simp: transferred_def intro!: balances_step alist_all_update)

definition holds :: "paper_book \<Rightarrow> order \<Rightarrow> bool" where
  "holds b od \<longleftrightarrow> map_of (bk_orders b) (od_key od) = Some od"

lemma holds_key: "holds b od \<Longrightarrow> od_key od \<in> set (map fst (bk_orders b))"
  unfolding holds_def by (metis domI dom_map_of_conv_image_fst list.set_map)

lemma wp_marketable:
  assumes "order_ok od" and "within_limit b od \<Longrightarrow> Q (Inr (Inr True)) b" and "Q (Inr (Inr False)) b" and "\<And>msg. Q (Inr (Inl msg)) b"
  shows "wp (marketable od) Q b"
proof -
  obtain r where r: "marketable od b = (Inr r, b)" "r = Inr True \<longrightarrow> within_limit b od"
    using marketable_run [OF assms(1)] by blast
  then have "Q (Inr r) b" using assms(2-4)
    by (metis (full_types) sum.exhaust)
  with r show ?thesis by (simp add: wp_def)
qed

lemma filled_order_terms [simp]:
  "od_key (filled_order od x y n l p q q') = od_key od" "od_side (filled_order od x y n l p q q') = od_side od"
  "od_limit_price (filled_order od x y n l p q q') = od_limit_price od" "od_base_asset (filled_order od x y n l p q q') = od_base_asset od"
  "od_state (filled_order od x y n l p q q') = OS_FILLED"
  by (simp_all add: filled_order_def)

lemma filled_order_within_limit [simp]: "within_limit b (filled_order od x y n l p q q') = within_limit b od"
  by (simp add: within_limit_def split: option.split sum.split)

lemma filled_step:
  assumes "book_ok b" and "holds b od" and "od_state od = OS_PENDING" and "within_limit b od" and "od_primitive od \<noteq> CANCEL_ORDER"
    and "od' = filled_order od base quote n limit p q q'" and "od_notional od = Some n" and "transferred b c"
  shows "book_step b (c\<lparr>bk_orders := AList.update (od_key od) od' (bk_orders c), bk_orders_by_id := AList.update oid (od_key od) (bk_orders_by_id c)\<rparr>)"
proof -
  let ?d = "c\<lparr>bk_orders := AList.update (od_key od') od' (bk_orders c)\<rparr>"
  have od: "order_ok od" using book_okD assms(1,2) unfolding holds_def by blast
  then have eff: "effect_or_order_id od = od_order_id od" "od_effect_id od = Some (od_order_id od)"
    by (simp_all add: order_ok_def effect_or_order_id_def)
  have c: "book_step b c" "bk_orders c = bk_orders b" using transferred_step [OF assms(8)] by auto
  then have "same_prices b c" using assms(1) by (simp add: book_step_def)
  have key: "od_key od' = od_key od" and st: "od_state od' = OS_FILLED" by (simp_all add: assms(6))
  have "order_ok od'" using od assms(3,5,7) eff by (auto simp: order_ok_def assms(6) filled_order_def split: option.splits)
  moreover have "order_step od od'" using assms(3) eff
    by (simp add: order_step_def assms(6) filled_order_def terms_of_def)
  moreover have "within_limit c od'"
    using assms(4) within_limit_cong [OF \<open>same_prices b c\<close>] by (simp add: assms(6))
  ultimately have "book_step c ?d" using assms(2) c(2) key by (intro put_step) (auto simp: holds_def)
  moreover have "book_step ?d (?d\<lparr>bk_orders_by_id := AList.update oid (od_key od) (bk_orders_by_id ?d)\<rparr>)"
    using key by (intro index_step) (simp add: update_keys)
  ultimately show ?thesis using c(1) book_step_trans key by simp
qed

text \<open>An attempt to fill an order on the book: it is filled, within its limit, or nothing has changed.\<close>

lemma wp_fill_order:
  assumes "book_ok b" and "holds b od" and "od_state od = OS_PENDING"
    and ok: "\<And>od' c. book_step b c \<Longrightarrow> holds c od' \<Longrightarrow> od_key od' = od_key od \<Longrightarrow> Q (Inr (Inr od')) c"
    and failed: "\<And>msg. Q (Inr (Inl msg)) b" and raised: "\<And>e. Q (Inl e) b"
  shows "wp (fill_order od) Q b"
proof -
  have od: "order_ok od" using book_okD assms(1,2) unfolding holds_def by blast
  then have prim: "od_primitive od \<noteq> CANCEL_ORDER" "od_primitive od \<noteq> SWAP"
    using assms(3) by (auto simp: order_ok_def ORDER_PRIMITIVES_def)
  have "wp (execute_fill od base quote n limit) Q b"
    if w: "within_limit b od" and n: "od_notional od = Some n" for base quote n limit
  proof -
    have "Q (Inr (Inr od')) (c\<lparr>bk_orders := AList.update (od_key od) od' (bk_orders c), bk_orders_by_id := AList.update oid (od_key od) (bk_orders_by_id c)\<rparr>)"
      if "transferred b c" and od': "od' = filled_order od base quote n limit p q q'" for c od' p q q' oid
      using filled_step [OF assms(1-3) w prim(1) od' n that(1)]
      by (rule ok) (simp_all add: od' holds_def update_conv')
    then show ?thesis using failed raised
      by (auto simp: execute_fill_def wp_simps put_order_def index_order_def Let_def filled_order_def
          intro!: wp_transfer simp del: dec_div.simps split: sum.splits)
  qed
  then show ?thesis using od prim assms(3) failed
    by (auto simp: fill_order_def wp_simps intro!: wp_marketable split: option.splits)
qed

text \<open>An order that is cancelled unfilled.\<close>

lemma cancel_step:
  assumes "book_ok b" and "holds b od" and "od_state od \<in> {OS_PENDING, OS_CANCELLED}"
    and "od' = od\<lparr>od_state := OS_CANCELLED, od_reasons := rs, od_amount_usd := Some dzero, od_effect_id := od_effect_id od\<rparr>"
  shows "book_step b (b\<lparr>bk_orders := AList.update (od_key od) od' (bk_orders b)\<rparr>)"
proof -
  have "order_ok od" using book_okD assms(1,2) unfolding holds_def by blast
  then have "order_ok od'" using assms(3) by (auto simp: assms(4) order_ok_def split: option.splits if_splits)
  moreover have "order_step od od'" using assms(3) by (auto simp: assms(4) order_step_def terms_of_def)
  ultimately show ?thesis using put_step [of od' b] assms(2) by (simp add: assms(4) holds_def)
qed

lemma wp_mark_unfilled_cancel:
  assumes "book_ok b" and "holds b od" and "od_state od \<in> {OS_PENDING, OS_CANCELLED}"
    and "\<And>c od'. book_step b c \<Longrightarrow> holds c od' \<Longrightarrow> od_key od' = od_key od \<Longrightarrow> Q (Inr ()) c"
  shows "wp (mark_unfilled_cancel od reason) Q b"
proof -
  let ?od = "od\<lparr>od_state := OS_CANCELLED, od_reasons := [reason], od_amount_usd := Some dzero, od_effect_id := od_effect_id od\<rparr>"
  have "Q (Inr ()) (b\<lparr>bk_orders := AList.update (od_key od) ?od (bk_orders b)\<rparr>)"
    by (rule assms(4) [OF cancel_step [OF assms(1-3) refl], where od' = ?od]) (simp_all add: holds_def update_conv')
  moreover have "Some (effect_or_order_id od) = od_effect_id od"
    using book_okD [OF assms(1)] assms(2) by (auto simp: holds_def order_ok_def effect_or_order_id_def)
  ultimately show ?thesis by (simp add: mark_unfilled_cancel_def put_order_def wp_simps)
qed

lemma match_orders_step: "guarantees book_step (match_orders keys)"
proof -
  have "wp (match_orders keys) (\<lambda>r c. book_step b c) b" for b
  proof (induction keys arbitrary: b)
    case (Cons key keys)
    show ?case
    proof (cases "book_ok b")
      case ok: True
      have rest: "wp (match_orders keys) (\<lambda>r d. book_step b d) c" if "book_step b c" for c
        by (rule wp_mono [OF Cons.IH [of c]]) (rule book_step_trans [OF that])
      have "wp (match_orders (key # keys)) (\<lambda>r c. book_step b c) b" if slot: "map_of (bk_orders b) key = Some od" for od
      proof -
        have od: "order_ok od" "holds b od" using book_okD [OF ok slot] slot by (simp_all add: holds_def)
        show ?thesis using od slot rest book_step_refl
          by (auto simp: wp_simps ok intro!: wp_marketable wp_fill_order wp_mark_unfilled_cancel rest wp_mono [OF rest] split: sum.splits)
      qed
      then show ?thesis using Cons.IH [of b] by (cases "map_of (bk_orders b) key") (simp_all add: wp_simps)
    qed (simp add: wp_def book_step_def split: prod.splits)
  qed (simp add: wp_simps book_step_refl)
  then show ?thesis by (simp add: guarantees_wp)
qed

lemma match_pending_step: "guarantees book_step match_pending"
  unfolding match_pending_def by (intro trading.guar_bindE trading.guar_gets match_orders_step)

lemma wp_settle_new:
  assumes "book_ok b" and "holds b od" and "od_state od = OS_PENDING"
    and "\<And>r c od'. book_step b c \<Longrightarrow> holds c od' \<Longrightarrow> od_key od' = od_key od \<Longrightarrow> Q r c"
  shows "wp (settle_new od) Q b"
proof -
  have od: "order_ok od" using book_okD assms(1,2) unfolding holds_def by blast
  have here: "Q r b" for r by (rule assms(4) [OF book_step_refl assms(2) refl])
  show ?thesis unfolding settle_new_def
    using assms here by (auto simp: wp_simps intro!: wp_marketable [OF od] wp_fill_order wp_mark_unfilled_cancel split: sum.splits)
qed

end
