(* ===== verification/Permit_Demo.thy ===== *)
theory Permit_Demo
  imports Permit_Delivery Encodable
begin

text \<open>
  The accepted permit of the venue theories: a permit for ten dollars in the ledger and a gateway that knows its signer. Hash and MAC are constant: nothing about them is used.
\<close>

definition demo_digest :: string where
  "demo_digest = replicate 32 CHR ''a''"

definition demo_order_crypto :: crypto where
  "demo_order_crypto = \<lparr>sha256 = (\<lambda>m. demo_digest), hmac_sha256 = (\<lambda>k m. ''m'')\<rparr>"

definition demo_order_permit :: signed_permit where
  "demo_order_permit =
     \<lparr>sp_permit =
        \<lparr>pm_permit_id = ''permit-1'', pm_principal_id = ''principal:alice'', pm_intent_id = ''intent-0000000001'', pm_grant_id = ''grant-1'',
         pm_grant_version = 1, pm_grant_hash = ''g'', pm_request_hash = demo_digest, pm_authority_attestation_hash = ''a'',
         pm_risk_attestation_hash = ''r'', pm_grant_epoch = 1, pm_fence_token = 1, pm_max_amount_usd = Some (usd 10),
         pm_issued_at = secs 1005, pm_expires_at = secs 1035\<rparr>,
      sp_signer_id = ''issuer-1'', sp_algorithm = HMAC_SHA256, sp_signature = ''m''\<rparr>"

definition demo_order_gateway :: permit_gateway where
  "demo_order_gateway =
     \<lparr>pg_cfg = demo_cfg\<lparr>c_crypto := demo_order_crypto\<rparr>, pg_ed = demo_ed, pg_verifiers = [(''issuer-1'', HMACPermitSignature ''issuer-1'' ''k'')],
      pg_validity = [], pg_skew = 5, pg_lifetime = 60, pg_venue = None\<rparr>"

definition demo_permit_sys :: sys where
  "demo_permit_sys = demo_sys\<lparr>db := (db demo_sys)\<lparr>permits := [demo_permit_row\<lparr>pr_hash := demo_digest\<rparr>]\<rparr>\<rparr>"

lemma demo_permit_encodable: "encodable (pv_signed_permit demo_order_permit)"
  by code_simp

lemma demo_permit_unused: "permit_of (db demo_permit_sys) ''permit-1'' = Some (demo_permit_row\<lparr>pr_hash := demo_digest\<rparr>)"
  by (simp add: permit_of_def demo_permit_sys_def demo_permit_row_def)

lemma demo_permit_grant: "active_grant (demo_cfg\<lparr>c_crypto := demo_order_crypto\<rparr>) ''principal:alice'' ''grant-1'' 1 1 demo_permit_sys"
  by (simp add: active_grant_def demo_cfg_def demo_permit_sys_def demo_sys_def empty_db_def demo_grant_row_def anchor_missing_def
      active_halt_def grant_of_def grant_key_def reg_res_def read_res_def high_water_def ma_high_water_def regressed_def op_simps)

lemma demo_permit_accepted:
  fixes w :: "'v world"
  assumes "encodable (pv_request rq)" and "envelope_reasons (sp_permit demo_order_permit) (request_amount rq) = []"
    and "static_reasons demo_order_gateway (HMACPermitSignature ''issuer-1'' ''k'') demo_order_permit rq True demo_digest (secs 1006) = []"
    and "w_sys w = demo_permit_sys" and "w_env w = []"
  shows "\<exists>t. gateway_consume demo_order_gateway demo_order_permit rq (secs 1006) (Some (rq_venue rq)) w = (Inr (True, []), t)
    \<and> db (w_sys t) \<noteq> db (w_sys w) \<and> w_venue t = w_venue w"
proof -
  let ?pg = "demo_order_gateway" and ?p = "demo_order_permit"
  have hashed: "canonical_hash (c_crypto (pg_cfg ?pg)) x = Inr demo_digest" if "encodable x" for x
    using encodable_json [OF that] by (auto simp: canonical_hash_def demo_order_gateway_def demo_order_crypto_def)
  obtain payload where payload: "signed_permit_payload (sp_permit ?p) (sp_signer_id ?p) (sp_algorithm ?p) = Inr payload"
    using encodable_json [of "dict_of [(''permit'', pv_permit (sp_permit ?p)), (''signer_id'', PStr (sp_signer_id ?p)),
        (''algorithm'', PStr (algorithm_str (sp_algorithm ?p)))]"] demo_permit_encodable
    by (auto simp: pv_signed_permit_def signed_permit_payload_def)
  have verified: "gateway_verify ?pg ?p rq (secs 1006) (Some (rq_venue rq)) w = (Inr (True, []), w)"
  proof (rule gateway_accepts [OF assms(5) _ _ payload _ hashed assms(3,2)])
    show "backend_verify (c_crypto (pg_cfg ?pg)) (pg_ed ?pg) (HMACPermitSignature ''issuer-1'' ''k'') payload (sp_signature ?p) = Inr True"
      by (simp add: demo_order_gateway_def demo_order_crypto_def demo_order_permit_def)
  qed (use assms(1,4) demo_permit_grant in \<open>simp_all add: demo_order_gateway_def demo_order_permit_def\<close>)
  obtain s where "consume_execution_permit (pg_cfg ?pg) ''permit-1'' ''principal:alice'' ''grant-1'' 1 1 1 demo_digest demo_permit_sys = (Inr (True, []), s)"
    using demo_permit_grant consume_succeeds [OF demo_permit_unused, of "''principal:alice''" "''grant-1''" 1 1 1 demo_digest "pg_cfg ?pg"]
    by (auto simp: demo_order_gateway_def demo_permit_row_def superseded_def anchor_takes_def demo_permit_sys_def demo_sys_def)
  with verified have consumed: "gateway_consume ?pg ?p rq (secs 1006) (Some (rq_venue rq)) w = (Inr (True, []), w\<lparr>w_sys := s\<rparr>)"
    using hashed [OF demo_permit_encodable] assms(4,5)
    by (simp add: gateway_consume_def op_simps call_quiet demo_order_permit_def Let_def)
  show ?thesis
  proof (rule gateway_consume_TrueE [OF consumed])
    fix row assume "permit_of (db (w_sys (w\<lparr>w_sys := s\<rparr>))) (pm_permit_id (sp_permit ?p)) = Some row" "pr_consumed_at row \<noteq> None"
    then have "db s \<noteq> db demo_permit_sys" using demo_permit_unused by (auto simp: demo_order_permit_def demo_permit_row_def)
    with consumed assms(4) show ?thesis by auto
  qed
qed

end
