(* ===== verification/Paper_Admission.thy ===== *)
theory Paper_Admission
  imports Paper_Orders Permit_Demo
begin

text \<open>
  Submission at the paper gateway, from the credential to the book: what a call may change, under which consumed permit, and
  that a permit it consumed always has a record on the book.
\<close>

section \<open>The part of a submission that follows the permit\<close>

lemma wp_on_book [wp_simps]: "wp (on_book m) Q v = wp m (\<lambda>r b. Q r (v\<lparr>vs_book := b\<rparr>)) (vs_book v)"
  by (auto simp: wp_def on_book_def split: prod.splits)

lemma wp_receipt_of [wp_simps]: "wp (receipt_of od) Q v = Q (map_sum id Inr (order_receipt v od)) v"
  by (cases "order_receipt v od") (simp_all add: receipt_of_def wp_simps)

text \<open>Nothing of the service but its book changed, the book advanced, and the request with this key and hash has an order.\<close>

definition recorded :: "string \<Rightarrow> string \<Rightarrow> paper_service \<Rightarrow> paper_service \<Rightarrow> bool" where
  "recorded key h v v' \<longleftrightarrow> v' = v\<lparr>vs_book := vs_book v'\<rparr> \<and> book_step (vs_book v) (vs_book v')
     \<and> (\<exists>od. map_of (bk_orders (vs_book v')) key = Some od \<and> od_request_hash od = h)"

lemma enter_step:
  assumes "order_ok od" and "map_of (bk_orders b) (od_key od) = None" and "od_state od = OS_FILLED \<Longrightarrow> od_primitive od = CANCEL_ORDER"
  shows "book_step b (b\<lparr>bk_orders := AList.update (od_key od) od (bk_orders b),
    bk_orders_by_id := AList.update (od_order_id od) (od_key od) (bk_orders_by_id b)\<rparr>)"
proof -
  let ?c = "b\<lparr>bk_orders := AList.update (od_key od) od (bk_orders b)\<rparr>"
  have "book_step b ?c" using assms by (intro put_step) auto
  moreover have "book_step ?c (?c\<lparr>bk_orders_by_id := AList.update (od_order_id od) (od_key od) (bk_orders_by_id ?c)\<rparr>)"
    by (rule index_step) (simp add: update_keys)
  ultimately show ?thesis using book_step_trans by simp
qed

lemma wp_enter_order:
  assumes "order_ok od" and "map_of (bk_orders b) (od_key od) = None" and "od_state od = OS_FILLED \<Longrightarrow> od_primitive od = CANCEL_ORDER"
    and "\<And>c. book_step b c \<Longrightarrow> holds c od \<Longrightarrow> Q (Inr ()) c"
  shows "wp (enter_order od) Q b"
  using assms(4) [OF enter_step [OF assms(1-3)]]
  by (simp add: enter_order_def put_order_def index_order_def wp_simps holds_def update_conv')

lemma plan_terms:
  assumes "plan_order b rq = Inr pl"
  shows "rq_primitive rq \<in> set ORDER_PRIMITIVES" and "positive (pl_notional pl)" and "positive (pl_limit_price pl)"
    and "pl_side pl = (if rq_primitive rq = SELL then ''SELL'' else ''BUY'')" and "pl_quote_asset pl = PAPER_QUOTE_ASSET"
proof -
  obtain tif where prim: "rq_primitive rq \<in> set ORDER_PRIMITIVES" and a: "plan_amounts b rq tif = Inr pl"
    using assms by (auto simp: plan_order_def Let_def split: if_splits option.splits)
  obtain f n l where f: "parse_bounded_decimal (pget (rq_payload rq) f) = Some n" "\<not> dle n dzero"
      "parse_bounded_decimal (pget (rq_payload rq) ''limit_price'') = Some l" "\<not> dle l dzero" "plan_market b rq n l tif = Inr pl"
    using a unfolding plan_amounts_def Let_def
    by (auto simp del: filter.simps split: list.splits option.splits if_splits)
  have "positive n" "positive l" using parse_bounded [OF f(1)] parse_bounded [OF f(3)] f(2,4) by (auto simp: positive_def dle_def)
  with prim f(5) show "rq_primitive rq \<in> set ORDER_PRIMITIVES" "positive (pl_notional pl)" "positive (pl_limit_price pl)"
    "pl_side pl = (if rq_primitive rq = SELL then ''SELL'' else ''BUY'')" "pl_quote_asset pl = PAPER_QUOTE_ASSET"
    by (auto simp: plan_market_def split: option.splits if_splits sum.splits)
qed

lemma new_order_ok: "plan_order b rq = Inr pl \<Longrightarrow> order_ok (new_order key oid h rq pl)"
  using plan_terms [of b rq pl] by (auto simp: order_ok_def new_order_def ORDER_PRIMITIVES_def)

lemma stable_id_total: "\<exists>i. stable_id L parts = Inr i"
  using encodable_json [of "dict_of [(''domain'', PStr ''faar:paper-gateway:effect-id:v1''), (''parts'', p_strs parts)]"]
  by (auto simp: stable_id_def)

lemma client_order_id_total: "\<exists>k. client_order_id L rq = Inr k"
  using encodable_json [of "dict_of [(''domain'', PStr ''faar:paper-gateway:client-order-id:v1''),
      (''principal_id'', PStr (rq_principal_id rq)), (''intent_id'', PStr (rq_intent_id rq))]"]
  by (auto simp: client_order_id_def)

lemma holds_after: "book_step b c \<Longrightarrow> book_ok b \<Longrightarrow> holds b od \<Longrightarrow> \<exists>od'. map_of (bk_orders c) (od_key od) = Some od' \<and> order_step od od'"
  unfolding book_step_def kept_orders_def holds_def by blast

lemma order_step_hash: "order_step od od' \<Longrightarrow> od_request_hash od' = od_request_hash od"
proof -
  have "od_request_hash (terms_of x) = od_request_hash x" for x by (simp add: terms_of_def)
  then show "order_step od od' \<Longrightarrow> od_request_hash od' = od_request_hash od" unfolding order_step_def by metis
qed

lemma recordedI:
  assumes "book_ok (vs_book v)" and "book_step (vs_book v) b" and "holds b od" and "book_step b c" and "od_key od = key" and "od_request_hash od = h"
  shows "recorded key h v (v\<lparr>vs_book := c\<rparr>)"
proof -
  have "book_ok b" using assms(1,2) by (simp add: book_step_def)
  then obtain od' where "map_of (bk_orders c) key = Some od'" "order_step od od'"
    using holds_after assms(3-5) by blast
  then show ?thesis using assms(2,4,6) book_step_trans order_step_hash by (auto simp: recorded_def)
qed

lemma wp_admit_order:
  assumes "book_ok (vs_book v)" and "map_of (bk_orders (vs_book v)) key = None" and "plan_order (vs_book v) rq = Inr pl"
    and "canonical_hash (vs_crypto v) (pv_request rq) = Inr h" and "\<And>r v'. recorded key h v v' \<Longrightarrow> Q r v'"
  shows "wp (admit_order key rq pl) Q v"
proof -
  obtain oid where oid: "stable_id (vs_crypto v) [vs_name v, key, ''order''] = Inr oid" using stable_id_total by blast
  let ?od = "new_order key oid h rq pl"
  have "wp (settle_new ?od) (\<lambda>r c. recorded key h v (v\<lparr>vs_book := c\<rparr>)) b" if "book_step (vs_book v) b" "holds b ?od" for b
    using that assms(1) recordedI [OF assms(1) that]
    by (intro wp_settle_new) (auto simp: book_step_def new_order_def)
  then have "wp (enter_order ?od) (\<lambda>r b. r = Inr () \<and> wp (settle_new ?od) (\<lambda>r c. recorded key h v (v\<lparr>vs_book := c\<rparr>)) b) (vs_book v)"
    using assms(2) by (intro wp_enter_order new_order_ok [OF assms(3)]) (simp_all add: new_order_def)
  then show ?thesis using assms(4,5) oid unfolding admit_order_def Let_def
    by (auto simp: wp_simps elim!: wp_mono split: sum.splits)
qed

lemma wp_record_cancel_intent:
  assumes "client_order_id (vs_crypto v) rq = Inr key" and "map_of (bk_orders (vs_book v)) key = None"
    and "canonical_hash (vs_crypto v) (pv_request rq) = Inr h" and "book_ok (vs_book v)" and "\<And>r v'. recorded key h v v' \<Longrightarrow> Q r v'"
  shows "wp (record_cancel_intent rq od) Q v"
proof -
  obtain cid where cid: "stable_id (vs_crypto v) [vs_name v, key, ''cancel''] = Inr cid" using stable_id_total by blast
  let ?od = "cancel_record key cid h rq od"
  have "wp (enter_order ?od) (\<lambda>r b. r = Inr () \<and> recorded key h v (v\<lparr>vs_book := b\<rparr>)) (vs_book v)"
    using assms(2) recordedI [OF assms(4) _ _ book_step_refl]
    by (intro wp_enter_order) (auto simp: cancel_record_def order_ok_def)
  then show ?thesis using assms(1,3,5) cid unfolding record_cancel_intent_def Let_def
    by (auto simp: wp_simps elim!: wp_mono split: sum.splits)
qed

lemma wp_cancel_admitted:
  assumes "client_order_id (vs_crypto v) rq = Inr own" and "map_of (bk_orders (vs_book v)) own = None"
    and "canonical_hash (vs_crypto v) (pv_request rq) = Inr h" and "book_ok (vs_book v)" and "cancel_check (vs_book v) rq = Inr (Inr key)"
    and "\<And>r v'. recorded own h v v' \<Longrightarrow> Q r v'"
  shows "wp (cancel_admitted key rq) Q v"
proof -
  let ?b = "vs_book v"
  obtain od where slot: "map_of (bk_orders ?b) key = Some od" and state: "od_state od \<in> {OS_PENDING, OS_CANCELLED}"
    using assms(5) by (auto simp: cancel_check_def split: option.splits if_splits intro: paper_order_state.exhaust)
  have od: "od_key od = key" "holds ?b od" using book_okD [OF assms(4) slot] slot by (simp_all add: holds_def)
  let ?c = "?b\<lparr>bk_orders := AList.update key (cancelled od) (bk_orders ?b)\<rparr>"
  have step: "book_step ?b ?c"
    using cancel_step [OF assms(4) od(2) state, of "cancelled od" "[''CANCELLED'']"] od(1) by (simp add: cancelled_def)
  have "key \<noteq> own" using slot assms(2) by auto
  have "Q r v'" if "recorded own h (v\<lparr>vs_book := ?c\<rparr>) v'" for r v'
    using that step book_step_trans by (intro assms(6)) (auto simp: recorded_def)
  moreover have "book_ok ?c" using step assms(4) by (simp add: book_step_def)
  ultimately have "wp (record_cancel_intent rq (cancelled od)) Q (v\<lparr>vs_book := ?c\<rparr>)"
    using assms(1-3) \<open>key \<noteq> own\<close> by (intro wp_record_cancel_intent) (auto simp: update_conv')
  then show ?thesis using slot state od(1)
    by (auto simp: cancel_admitted_def put_order_def wp_simps cancelled_def)
qed

section \<open>The consumption of the permit\<close>

definition ledger_is :: "db \<Rightarrow> 'v world \<Rightarrow> bool" where
  "ledger_is d w \<longleftrightarrow> w_env w = [] \<and> db (w_sys w) = d"

text \<open>A verified permit for exactly this request is consumed in the ledger.\<close>

definition admitted_by :: "paper_service \<Rightarrow> execution_request \<Rightarrow> signed_permit \<Rightarrow> 'v world \<Rightarrow> bool" where
  "admitted_by v rq permit w \<longleftrightarrow>
     rq_venue rq = vs_name v
     \<and> (\<exists>row. permit_of (db (w_sys w)) (pm_permit_id (sp_permit permit)) = Some row \<and> pr_consumed_at row \<noteq> None)
     \<and> canonical_hash (c_crypto (pg_cfg (vs_permit_verifier v))) (pv_request rq) = Inr (pm_request_hash (sp_permit permit))
     \<and> (\<forall>m. pm_max_amount_usd (sp_permit permit) = Some m \<longrightarrow> (\<exists>a. authorized_amount rq = Some a \<and> \<not> dlt m a))"

lemma quiet_call: "(\<And>s. db (exec m s) = db s) \<Longrightarrow> preserves (ledger_is d) (call m)"
  by (simp add: guarantees_def ledger_is_def call_quiet exec_def)

lemma gateway_verify_quiet: "preserves (ledger_is d) (gateway_verify pg permit rq now venue)"
  unfolding gateway_verify_def verify_checked_def Let_def
  by (intro keep.guar_rules quiet_call) (simp_all add: get_grant_control_reads)

lemma consume_refused:
  "wp (consume_execution_permit c pid who gid v epoch fence h) (\<lambda>r t. (\<exists>rs. r = Inr (True, rs)) \<or> db t = db s) s"
  unfolding consume_execution_permit_def
  by (auto simp: wp_simps wp_commit_consumption Let_def split: option.splits sum.splits)

lemma gateway_consume_quiet:
  assumes "ledger_is d w" and "gateway_consume pg permit rq now venue w = (r, w')" and "\<And>rs. r \<noteq> Inr (True, rs)"
  shows "ledger_is d w'"
proof -
  have call: "wp (call (consume_execution_permit c pid who gid v epoch fence h))
      (\<lambda>r t. (\<exists>rs. r = Inr (True, rs)) \<or> ledger_is d t) u" if "ledger_is d u" for u c pid who gid v epoch fence h
    using consume_refused [of c pid who gid v epoch fence h "w_sys u"] that
    by (auto simp: wp_def call_quiet ledger_is_def split: prod.splits)
  have "wp (gateway_verify pg permit rq now venue) (\<lambda>r t. ledger_is d t) w"
    using preservesD [OF gateway_verify_quiet assms(1)] by (auto intro: wpI)
  then have "wp (gateway_consume pg permit rq now venue) (\<lambda>r t. (\<exists>rs. r = Inr (True, rs)) \<or> ledger_is d t) w"
    unfolding gateway_consume_def Let_def
    by (auto simp: wp_simps elim!: wp_mono intro!: wp_mono [OF call] split: sum.splits)
  from wpD [OF this assms(2)] assms(3) show ?thesis by blast
qed

lemma consume_permit_run:
  assumes "at_rest v w" and "consume_permit rq permit w = (r, w')"
  shows "at_rest v w'" and "r = Inr (Inr ()) \<Longrightarrow> admitted_by v rq permit w'"
    and "r \<noteq> Inr (Inr ()) \<Longrightarrow> ledger_is d w \<Longrightarrow> ledger_is d w'"
proof -
  let ?pg = "vs_permit_verifier v"
  obtain now w2 where w2: "read_clock w = (Inr now, w2)" by (auto simp: read_clock_def Let_def)
  obtain q w3 where w3: "gateway_consume ?pg permit rq now (Some (vs_name v)) w2 = (q, w3)" by (cases "gateway_consume ?pg permit rq now (Some (vs_name v)) w2")
  have rest: "at_rest v w2" "at_rest v w3"
    using preservesD [OF read_clock_venue assms(1) w2] preservesD [OF gateway_consume_venue _ w3] by auto
  have run: "w' = w3" "r = Inr (Inr ()) \<longleftrightarrow> (\<exists>rs. q = Inr (True, rs))"
    using assms w2 w3 by (auto simp: consume_permit_def at_rest_def bindE_def gets_def ret_def split: sum.splits if_splits)
  show "at_rest v w'" using rest run by simp
  show "ledger_is d w'" if "r \<noteq> Inr (Inr ())" "ledger_is d w"
  proof -
    have "ledger_is d w2" using that(2) w2 by (auto simp: read_clock_def Let_def disturb_def ledger_is_def)
    from gateway_consume_quiet [OF this w3] show ?thesis using run that(1) by blast
  qed
  show "admitted_by v rq permit w'" if "r = Inr (Inr ())"
    using consumption_binds [of ?pg permit rq now "vs_name v" w2] w3 run that by (auto simp: admitted_by_def)
qed

section \<open>A whole submission\<close>

lemma wp_on_venue [wp_simps]: "wp (on_venue m) Q w = wp m (\<lambda>r v. Q r (w\<lparr>w_venue := v\<rparr>)) (w_venue w)"
  by (auto simp: wp_def on_venue_def split: prod.splits)

text \<open>
  The two ways a submission ends: the venue is as before, and so is the ledger unless others act on it; or the request, new
  to the book and in scope, was admitted by a consumed permit and is recorded.
\<close>

definition refused :: "paper_service \<Rightarrow> paper_service world \<Rightarrow> paper_service world \<Rightarrow> bool" where
  "refused v w w' \<longleftrightarrow> w_venue w' = v \<and> (\<forall>d. ledger_is d w \<longrightarrow> ledger_is d w')"

definition admitted :: "paper_service \<Rightarrow> execution_request \<Rightarrow> signed_permit \<Rightarrow> paper_service world \<Rightarrow> bool" where
  "admitted v rq permit w' \<longleftrightarrow> require_request_scope v rq = Inr () \<and> admitted_by v rq permit w' \<and>
     (\<exists>key h. client_order_id (vs_crypto v) rq = Inr key \<and> map_of (bk_orders (vs_book v)) key = None
        \<and> canonical_hash (vs_crypto v) (pv_request rq) = Inr h \<and> recorded key h v (w_venue w'))"

lemma hash_any_crypto: "canonical_hash L x = Inr h \<Longrightarrow> \<exists>h'. canonical_hash L' x = Inr h'"
  by (cases "canonical_json x") (auto simp: canonical_hash_def)

lemma wp_after_permit:
  assumes "at_rest v w" and "require_request_scope v rq = Inr ()" and "client_order_id (vs_crypto v) rq = Inr key"
    and "map_of (bk_orders (vs_book v)) key = None"
    and "\<And>h Q. canonical_hash (vs_crypto v) (pv_request rq) = Inr h \<Longrightarrow> (\<And>r v'. recorded key h v v' \<Longrightarrow> Q r v') \<Longrightarrow> wp m Q v"
  shows "wp (unless_failed (consume_permit rq permit) (\<lambda>_. on_venue m)) (\<lambda>r w'. refused v w w' \<or> admitted v rq permit w') w"
proof -
  have "wp (consume_permit rq permit) (\<lambda>r t. if r = Inr (Inr ()) then wp (on_venue m) (\<lambda>r w'. admitted v rq permit w') t else refused v w t) w"
  proof (rule wpI)
    fix r t assume run: "consume_permit rq permit w = (r, t)"
    note c = consume_permit_run [OF assms(1) run]
    have "wp (on_venue m) (\<lambda>r w'. admitted v rq permit w') t" if "r = Inr (Inr ())"
    proof -
      have adm: "admitted_by v rq permit t" by (rule c(2) [OF that])
      then obtain h where h: "canonical_hash (vs_crypto v) (pv_request rq) = Inr h" using hash_any_crypto unfolding admitted_by_def by blast
      have "admitted v rq permit (t\<lparr>w_venue := v'\<rparr>)" if "recorded key h v v'" for v'
        using that adm h assms(2-4) by (auto simp: admitted_def admitted_by_def)
      with assms(5) [OF h] c(1) show ?thesis by (simp add: wp_on_venue at_rest_def)
    qed
    moreover have "refused v w t" if "r \<noteq> Inr (Inr ())"
      using c(1,3) that by (simp add: refused_def at_rest_def)
    ultimately show "if r = Inr (Inr ()) then wp (on_venue m) (\<lambda>r w'. admitted v rq permit w') t else refused v w t" by simp
  qed
  then show ?thesis unfolding wp_unless_failed
    by (rule wp_mono) (auto split: sum.splits if_splits elim: wp_mono)
qed

lemma wp_submit_locked:
  assumes "at_rest v w" and "book_ok (vs_book v)"
  shows "wp (submit_locked rq permit) (\<lambda>r w'. refused v w w' \<or> admitted v rq permit w') w"
proof -
  have here: "refused v w w" and venue: "w_venue w = v" using assms(1) by (simp_all add: refused_def at_rest_def)
  obtain key where key: "client_order_id (vs_crypto v) rq = Inr key" using client_order_id_total by blast
  note after = wp_after_permit [OF assms(1) _ key]
  have order: "wp (unless_failed (consume_permit rq permit) (\<lambda>_. on_venue (admit_order key rq pl))) (\<lambda>r w'. refused v w w' \<or> admitted v rq permit w') w"
    if "require_request_scope v rq = Inr ()" "map_of (bk_orders (vs_book v)) key = None" "plan_order (vs_book v) rq = Inr pl" for pl
    by (rule after [OF that(1,2)]) (rule wp_admit_order [OF assms(2) that(2,3)])
  have cancel: "wp (unless_failed (consume_permit rq permit) (\<lambda>_. on_venue (cancel_admitted k rq))) (\<lambda>r w'. refused v w w' \<or> admitted v rq permit w') w"
    if "require_request_scope v rq = Inr ()" "map_of (bk_orders (vs_book v)) key = None" "cancel_check (vs_book v) rq = Inr (Inr k)" for k
    by (rule after [OF that(1,2)]) (rule wp_cancel_admitted [OF key that(2) _ assms(2) that(3)])
  show ?thesis unfolding submit_locked_def cancel_locked_def
    using here key order cancel venue
    by (auto simp: wp_bindE wp_gets wp_unless_failed [of "ret x" for x] wp_unless_failed [of "lift_sum x" for x] wp_ret wp_lift_sum wp_option
        split: sum.splits option.splits)
qed

lemma wp_service_submit:
  assumes "at_rest v w" and "book_ok (vs_book v)"
  shows "wp (service_submit rq permit cred) (\<lambda>r w'. refused v w w' \<or> require_credential v cred ROLE_SUBMIT = Inr () \<and> admitted v rq permit w') w"
  using assms(1) wp_mono [OF wp_submit_locked [OF assms]]
  by (auto simp: service_submit_def wp_simps refused_def at_rest_def split: sum.splits)

text \<open>A request with an order on the book is never reported as absent.\<close>

lemma lookup_status:
  assumes "client_order_id (vs_crypto v) rq = Inr key" and "map_of (bk_orders (vs_book v)) key = Some od"
    and "canonical_hash (vs_crypto v) (pv_request rq) = Inr (od_request_hash od)" and "lookup_locked v rq = Inr s"
  shows "st_status s = receipt_status (od_state od)"
  using assms
  by (cases "od_state od") (auto simp: lookup_locked_def receipt_status_def no_record_def dest!: settlement_record_fields(1) split: sum.splits)

section \<open>Every book the service can reach\<close>

text \<open>The calls that change the book, each from any world: matching, a quote, a submission.\<close>

inductive book_move :: "paper_book \<Rightarrow> paper_book \<Rightarrow> bool" where
  matching: "match_pending b = (r, c) \<Longrightarrow> book_move b c"
| quoting: "service_set_quote asset price fill_price matching b = (r, c) \<Longrightarrow> book_move b c"
| submitting: "venue_untouched (w_env w) \<Longrightarrow> service_submit rq permit cred w = (r, w') \<Longrightarrow>
    book_move (vs_book (w_venue w)) (vs_book (w_venue w'))"

lemma service_submit_step:
  assumes "venue_untouched (w_env w)" and "service_submit rq permit cred w = (r, w')"
  shows "book_step (vs_book (w_venue w)) (vs_book (w_venue w'))"
proof (cases "book_ok (vs_book (w_venue w))")
  case True
  have "at_rest (w_venue w) w" using assms(1) by (simp add: at_rest_def)
  from wpD [OF wp_service_submit [OF this True] assms(2)] show ?thesis
    by (auto simp: refused_def admitted_def recorded_def book_step_refl)
qed (simp add: book_step_def)

lemma quote_step:
  assumes "book_ok b" and "book_set_quote asset price fill_price b = (r, c)"
  shows "book_ok c \<and> bk_orders c = bk_orders b"
proof -
  have "positive p" if "parse_bounded_decimal x = Some p" "\<not> dle p dzero" for x p
    using parse_bounded [OF that(1)] that(2) by (simp add: positive_def dle_def)
  then show ?thesis using assms
    by (auto simp: book_set_quote_def op_simps book_ok_def intro!: alist_all_update split: option.splits if_splits)
qed

lemma move_keeps:
  assumes "book_move b c" and "book_ok b"
  shows "book_ok c \<and> kept_orders b c \<and> fills_within_limit b c"
  using assms
proof (cases rule: book_move.cases)
  case (matching r)
  then show ?thesis using guaranteesD [OF match_pending_step] assms(2) by (auto simp: book_step_def)
next
  case (quoting asset price fill_price m r)
  obtain q d where d: "book_set_quote asset price fill_price b = (q, d)" by (cases "book_set_quote asset price fill_price b")
  have ok: "book_ok d" "bk_orders d = bk_orders b" using quote_step [OF assms(2) d] by auto
  have "guarantees book_step (if m then match_pending else ret (Inr []))"
    by (simp add: match_pending_step trading.guar_ret)
  then have "book_step d c" using quoting d
    by (auto simp: service_set_quote_def unless_failed_def bindE_def ret_def book_step_refl guarantees_def split: sum.splits if_splits)
      (metis snd_conv)+
  then show ?thesis using ok by (simp add: book_step_def kept_orders_def fills_within_limit_def)
next
  case (submitting w rq permit cred r w')
  then show ?thesis using service_submit_step assms(2) by (auto simp: book_step_def)
qed

lemma moves_keep:
  assumes "book_move\<^sup>*\<^sup>* b c" and "book_ok b"
  shows "book_ok c \<and> kept_orders b c"
  using assms
proof (induction rule: rtranclp_induct)
  case base
  then show ?case by (auto simp: kept_orders_def order_step_def)
next
  case (step c d)
  then show ?case using move_keeps kept_orders_trans by blast
qed

lemma validated_table_ok:
  "validated_table True xs = Inr t \<Longrightarrow> list_all (\<lambda>(asset, p). positive p) t"
  "validated_table False xs = Inr t \<Longrightarrow> list_all (\<lambda>(asset, x). nonneg x) t"
proof -
  have "positive p" if "parse_bounded_decimal x = Some p" "\<not> dle p dzero" for x p
    using parse_bounded [OF that(1)] that(2) by (simp add: positive_def dle_def)
  moreover have "nonneg p" if "parse_bounded_decimal x = Some p" "\<not> dlt p dzero" for x p
    using parse_bounded [OF that(1)] that(2) by (simp add: nonneg_def dlt_def)
  moreover have "list_all (\<lambda>(asset, p). if pos then positive p else nonneg p) t"
    if "\<And>x p. parse_bounded_decimal x = Some p \<Longrightarrow> \<not> dle p dzero \<Longrightarrow> positive p"
      "\<And>x p. parse_bounded_decimal x = Some p \<Longrightarrow> \<not> dlt p dzero \<Longrightarrow> nonneg p" "validated_table pos xs = Inr t" for pos
    using that(3)
  proof (induction pos xs arbitrary: t rule: validated_table.induct)
    case (3 positive asset raw rest)
    then show ?case using that(1,2) by (cases "validated_table positive rest") (fastforce split: if_splits option.splits)+
  qed auto
  ultimately show "validated_table True xs = Inr t \<Longrightarrow> list_all (\<lambda>(asset, p). positive p) t"
    "validated_table False xs = Inr t \<Longrightarrow> list_all (\<lambda>(asset, x). nonneg x) t" by force+
qed

lemma paper_book_init_ok: "paper_book_init prices balances fills = Inr b \<Longrightarrow> book_ok b"
  by (auto simp: paper_book_init_def book_ok_def dest: validated_table_ok split: sum.splits option.splits if_splits)

section \<open>Properties\<close>

text \<open>
  C14. The order book of the paper gateway is well formed in every state the service reaches: from a book its constructor
  accepted, over any sequence of submissions, quotes and matching rounds in any worlds, prices are positive, no balance is negative, every
  order is stored under its own key with its effect identity, sane terms and the amount its state implies, and
  every indexed order id leads to an order; and an order that the last call filled was inside its limit at the executable price.
\<close>

theorem paper_book_typed:
  assumes "paper_book_init prices balances fills = Inr b0" and "book_move\<^sup>*\<^sup>* b0 b" and "book_move b c"
  shows "book_ok b \<and> book_ok c \<and> fills_within_limit b c"
  using moves_keep [OF assms(2) paper_book_init_ok [OF assms(1)]] move_keeps [OF assms(3)] by blast

text \<open>
  C13. Orders are final and keep their identity. Over any sequence of submissions, quotes and matching rounds, an order on the book stays on
  it under its key with the same order and effect id, request, terms and owner; a filled or rejected order never changes
  again, and a cancelled one stays cancelled and never acquires a fill.
\<close>

theorem paper_orders_final:
  assumes "book_ok b" and "book_move\<^sup>*\<^sup>* b c" and "map_of (bk_orders b) k = Some od"
  shows "\<exists>od'. map_of (bk_orders c) k = Some od' \<and> terms_of od' = terms_of od
    \<and> (od_state od \<in> {OS_FILLED, OS_REJECTED} \<longrightarrow> od' = od)
    \<and> (od_state od = OS_CANCELLED \<longrightarrow> od_state od' = OS_CANCELLED \<and> od_amount_usd od' = Some dzero)"
proof -
  have c: "book_ok c" and kept: "kept_orders b c" using moves_keep [OF assms(2,1)] by auto
  obtain od' where od': "map_of (bk_orders c) k = Some od'" "order_step od od'" using kept assms(3) unfolding kept_orders_def by blast
  have "order_ok od'" by (rule book_okD [OF c od'(1)])
  then show ?thesis using od' by (auto simp: order_step_def order_ok_def split: if_splits option.splits)
qed

text \<open>
  C12. Admission at the paper gateway. A submission that changes anything at the venue presented the submit credential, was in
  scope, was new to the book, and a verified permit for exactly this request is consumed in the ledger with the amount
  inside the signed one; the book then holds its order under the request's hash. Conversely, where nobody else acts, a call that
  changes the ledger leaves an order for the request, and a settlement query reports that order's state and never absence: a
  consumed permit is never paired with an authoritative NONE.
\<close>

theorem gateway_admission:
  assumes "venue_untouched (w_env w)" and "book_ok (vs_book (w_venue w))" and "service_submit rq permit cred w = (r, w')"
  shows "(w_venue w' \<noteq> w_venue w \<longrightarrow>
      require_credential (w_venue w) cred ROLE_SUBMIT = Inr () \<and> require_request_scope (w_venue w) rq = Inr ()
      \<and> admitted_by (w_venue w) rq permit w'
      \<and> (\<exists>key h. client_order_id (vs_crypto (w_venue w)) rq = Inr key \<and> canonical_hash (vs_crypto (w_venue w)) (pv_request rq) = Inr h
           \<and> map_of (bk_orders (vs_book (w_venue w))) key = None \<and> recorded key h (w_venue w) (w_venue w')))
    \<and> (w_env w = [] \<longrightarrow> db (w_sys w') \<noteq> db (w_sys w) \<longrightarrow>
      (\<exists>key od. client_order_id (vs_crypto (w_venue w')) rq = Inr key \<and> map_of (bk_orders (vs_book (w_venue w'))) key = Some od
         \<and> (\<forall>s. lookup_locked (w_venue w') rq = Inr s \<longrightarrow> st_status s = receipt_status (od_state od) \<and> st_status s \<noteq> ST_NONE)))"
proof -
  let ?v = "w_venue w"
  have rest: "at_rest ?v w" using assms(1) by (simp add: at_rest_def)
  from wpD [OF wp_service_submit [OF rest assms(2)] assms(3)] show ?thesis
  proof
    assume "refused ?v w w'"
    then show ?thesis by (auto simp: refused_def ledger_is_def)
  next
    assume a: "require_credential ?v cred ROLE_SUBMIT = Inr () \<and> admitted ?v rq permit w'"
    then obtain key h where k: "client_order_id (vs_crypto ?v) rq = Inr key" "map_of (bk_orders (vs_book ?v)) key = None"
        "canonical_hash (vs_crypto ?v) (pv_request rq) = Inr h" "recorded key h ?v (w_venue w')" unfolding admitted_def by blast
    from k(4) obtain od where od: "map_of (bk_orders (vs_book (w_venue w'))) key = Some od" "od_request_hash od = h"
      "vs_crypto (w_venue w') = vs_crypto ?v" unfolding recorded_def by (metis paper_service.surjective paper_service.update_convs(4) paper_service.select_convs(3))
    have "st_status s = receipt_status (od_state od)" if "lookup_locked (w_venue w') rq = Inr s" for s
      using lookup_status [of "w_venue w'" rq key od s] k(1,3) od that by simp
    moreover have "receipt_status x \<noteq> ST_NONE" for x by (cases x) (simp_all add: receipt_status_def)
    ultimately show ?thesis using a k od unfolding admitted_def by auto
  qed
qed

section \<open>One order, from the permit to the book\<close>

definition demo_order_request :: execution_request where
  "demo_order_request =
     \<lparr>rq_principal_id = ''principal:alice'', rq_intent_id = ''intent-0000000001'', rq_primitive = BUY, rq_venue = ''paper'',
      rq_payload = [(''target'', PStr ''book''), (''order_type'', PStr ''limit''), (''amount_usd'', PStr ''10''), (''limit_price'', PStr ''5''),
        (''base_asset'', PStr ''GOLD''), (''quote_asset'', PStr ''USDC'')]\<rparr>"

definition demo_order_book :: paper_book where
  "demo_order_book =
     \<lparr>bk_prices_usd = [(''GOLD'', usd 4)], bk_fill_prices_usd = [(''GOLD'', usd 4)], bk_balances = [(''USDC'', usd 100)],
      bk_orders = [], bk_orders_by_id = []\<rparr>"

definition demo_service :: paper_service where
  "demo_service =
     \<lparr>vs_name = ''paper'', vs_permit_verifier = demo_order_gateway, vs_crypto = demo_order_crypto, vs_book = demo_order_book,
      vs_principal_id = ''principal:alice'', vs_target = ''book'', vs_submit_token = ''s'', vs_query_token = ''q''\<rparr>"

definition demo_order_world :: "paper_service world" where
  "demo_order_world =
     \<lparr>w_sys = demo_permit_sys, w_venue = demo_service, w_orphans = 0, w_active = [], w_env = [], w_late = [], w_calls = []\<rparr>"

lemma demo_order_book_made: "paper_book_init [(KStr ''GOLD'', PStr ''4'')] [(KStr ''USDC'', PStr ''100'')] None = Inr demo_order_book"
  by code_simp

lemma demo_order_encodable: "encodable (pv_request demo_order_request)"
  by code_simp

lemma demo_order_plan: "\<not> isl (plan_order demo_order_book demo_order_request)"
  by code_simp

lemma demo_order_accepted:
  "\<exists>t. gateway_consume demo_order_gateway demo_order_permit demo_order_request (secs 1006) (Some (rq_venue demo_order_request)) demo_order_world
     = (Inr (True, []), t) \<and> db (w_sys t) \<noteq> db (w_sys demo_order_world) \<and> w_venue t = w_venue demo_order_world"
proof (rule demo_permit_accepted [OF demo_order_encodable])
  show "envelope_reasons (sp_permit demo_order_permit) (request_amount demo_order_request) = []" by code_simp
  show "static_reasons demo_order_gateway (HMACPermitSignature ''issuer-1'' ''k'') demo_order_permit demo_order_request True demo_digest (secs 1006) = []"
    by code_simp
qed (simp_all add: demo_order_world_def)

lemma demo_order_submitted:
  "\<exists>r w'. service_submit demo_order_request demo_order_permit \<lparr>vc_role = ROLE_SUBMIT, vc_token = ''s''\<rparr> demo_order_world = (r, w')
     \<and> db (w_sys w') \<noteq> db (w_sys demo_order_world)"
proof -
  let ?rq = "demo_order_request" and ?w = demo_order_world
  obtain t where t: "gateway_consume demo_order_gateway demo_order_permit ?rq (secs 1006) (Some ''paper'') ?w = (Inr (True, []), t)"
    and changed: "db (w_sys t) \<noteq> db (w_sys ?w)"
    using demo_order_accepted by (auto simp: demo_order_request_def)
  obtain key where key: "client_order_id (vs_crypto demo_service) ?rq = Inr key" using client_order_id_total by blast
  obtain pl where pl: "plan_order demo_order_book ?rq = Inr pl" using demo_order_plan by (cases "plan_order demo_order_book ?rq") auto
  have ok: "require_request_scope demo_service ?rq = Inr ()" "require_credential demo_service \<lparr>vc_role = ROLE_SUBMIT, vc_token = ''s''\<rparr> ROLE_SUBMIT = Inr ()"
    "rq_primitive ?rq = BUY" "vs_book demo_service = demo_order_book" "bk_orders demo_order_book = []"
    "vs_permit_verifier demo_service = demo_order_gateway" "vs_name demo_service = ''paper''" "w_venue ?w = demo_service"
    by (simp_all add: require_request_scope_def require_credential_def demo_service_def demo_order_request_def demo_order_book_def pget_def demo_order_world_def)
  have clock: "read_clock ?w = (Inr (secs 1006), ?w)" by (simp add: read_clock_def disturb_def demo_order_world_def demo_permit_sys_def demo_sys_def)
  obtain r w' where "service_submit ?rq demo_order_permit \<lparr>vc_role = ROLE_SUBMIT, vc_token = ''s''\<rparr> ?w = (r, w')" "w_sys w' = w_sys t"
    using t ok clock pl key
    by (cases "admit_order key ?rq pl (w_venue t)")
      (simp add: service_submit_def submit_locked_def consume_permit_def unless_failed_def op_simps ORDER_PRIMITIVES_def on_venue_def)
  with changed show ?thesis by auto
qed

theorem gateway_admission_witness:
  "\<exists>r w'. service_submit demo_order_request demo_order_permit \<lparr>vc_role = ROLE_SUBMIT, vc_token = ''s''\<rparr> demo_order_world = (r, w')
     \<and> (\<exists>key od. client_order_id (vs_crypto (w_venue w')) demo_order_request = Inr key \<and> map_of (bk_orders (vs_book (w_venue w'))) key = Some od)"
proof -
  obtain r w' where run: "service_submit demo_order_request demo_order_permit \<lparr>vc_role = ROLE_SUBMIT, vc_token = ''s''\<rparr> demo_order_world = (r, w')"
    and "db (w_sys w') \<noteq> db (w_sys demo_order_world)"
    using demo_order_submitted by blast
  moreover have "venue_untouched (w_env demo_order_world)" "w_env demo_order_world = []" "book_ok (vs_book (w_venue demo_order_world))"
    using paper_book_init_ok [OF demo_order_book_made] by (simp_all add: demo_order_world_def venue_untouched_def demo_service_def)
  ultimately show ?thesis using gateway_admission [OF _ _ run] by blast
qed

text \<open>A cancelled order, and a quote inside its limit.\<close>

definition demo_resting :: order where
  "demo_resting = (new_order ''k'' ''o'' ''h'' demo_order_request
     \<lparr>pl_notional = usd 10, pl_limit_price = usd 5, pl_side = ''BUY'', pl_base_asset = ''GOLD'', pl_quote_asset = ''USDC'', pl_time_in_force = ''GTC''\<rparr>)"

definition demo_cancelled_book :: paper_book where
  "demo_cancelled_book = demo_order_book\<lparr>bk_orders := [(''k'', cancelled demo_resting)], bk_orders_by_id := [(''o'', ''k'')]\<rparr>"

definition demo_quoted :: "paper_book \<Rightarrow> paper_book" where
  "demo_quoted b = exec (service_set_quote (PStr ''GOLD'') (PStr ''4'') PNone True) b"

lemma demo_quote_moves: "book_move b (demo_quoted b)"
  unfolding demo_quoted_def exec_def by (rule quoting [OF surjective_pairing])

lemma demo_cancelled_ok: "book_ok demo_cancelled_book"
  by (simp add: book_ok_def demo_cancelled_book_def demo_order_book_def demo_resting_def new_order_def cancelled_def order_ok_def
      demo_order_request_def ORDER_PRIMITIVES_def PAPER_QUOTE_ASSET_def positive_def nonneg_def usd_def)

theorem paper_orders_final_witness:
  "\<exists>od. map_of (bk_orders (demo_quoted demo_cancelled_book)) ''k'' = Some od \<and> od_state od = OS_CANCELLED
     \<and> od_effect_id od = Some ''o''"
proof -
  have "terms_of od = terms_of (cancelled demo_resting) \<Longrightarrow> od_effect_id od = Some ''o''" for od
    by (cases od) (simp add: terms_of_def cancelled_def demo_resting_def new_order_def)
  moreover have "map_of (bk_orders demo_cancelled_book) ''k'' = Some (cancelled demo_resting)" "od_state (cancelled demo_resting) = OS_CANCELLED"
    by (simp_all add: demo_cancelled_book_def cancelled_def)
  ultimately show ?thesis
    using paper_orders_final [OF demo_cancelled_ok r_into_rtranclp [of book_move, OF demo_quote_moves], of "''k''" "cancelled demo_resting"] by auto
qed

theorem paper_book_typed_witness:
  "book_ok (demo_quoted (demo_quoted demo_order_book))"
  using paper_book_typed [OF demo_order_book_made r_into_rtranclp [of book_move, OF demo_quote_moves] demo_quote_moves] by blast

end
