(* ===== verification/Hyperliquid.thy ===== *)
theory Hyperliquid
  imports Settlement Paper_Gateway
begin

text \<open>
  \<open>faar/hyperliquid.py\<close>, the adapter: how a request becomes the one order the signer may authorize, the submission under a
  consumed permit, and the reading of the venue's answer. The exchange is outside the sources: \<open>ha_transport\<close> is a step of the
  venue's state with any effect and any answer. The HTTP client classes are left out.
\<close>

section \<open>Decimal arithmetic\<close>

text \<open>Multiplication in the default context; the sources multiply finite numbers only.\<close>

fun dec_mul :: "decimal \<Rightarrow> decimal \<Rightarrow> decimal" where
  "dec_mul (DFin s c e) (DFin s' c' e') = (case round_coeff (c * c') (e + e') of (q, f) \<Rightarrow> DFin (s \<noteq> s') q f)"
| "dec_mul x y = DNaN"

datatype rounding = ROUND_DOWN | ROUND_CEILING

text \<open>\<open>quantize\<close> to the exponent \<open>g\<close>; more than 28 digits raise \<open>InvalidOperation\<close>, as anything but a finite number does.\<close>

fun quantize_coeff :: "rounding \<Rightarrow> bool \<Rightarrow> nat \<Rightarrow> int \<Rightarrow> int \<Rightarrow> nat" where
  "quantize_coeff mode s c e g =
     (if g \<le> e then c * 10 ^ nat (e - g)
      else let d = 10 ^ nat (g - e) in
        (if mode = ROUND_CEILING \<and> \<not> s \<and> c mod d \<noteq> 0 then c div d + 1 else c div d))"

declare quantize_coeff.simps [simp del]

fun quantize :: "rounding \<Rightarrow> int \<Rightarrow> decimal \<Rightarrow> decimal option" where
  "quantize mode g (DFin s c e) =
     (let q = quantize_coeff mode s c e g in if ndigits q > DECIMAL_PREC then None else Some (DFin s q g))"
| "quantize mode g x = None"

section \<open>Constants\<close>

definition HYPERLIQUID_TESTNET_URL :: string where
  "HYPERLIQUID_TESTNET_URL = ''https://api.hyperliquid-testnet.xyz''"

definition HYPERLIQUID_TESTNET_VENUE :: string where
  "HYPERLIQUID_TESTNET_VENUE = ''hyperliquid-testnet''"

definition CANCELLED_STATUSES :: "string list" where
  "CANCELLED_STATUSES = [''canceled'', ''marginCanceled'', ''vaultWithdrawalCanceled'', ''openInterestCapCanceled'', ''selfTradeCanceled'',
     ''reduceOnlyCanceled'', ''siblingFilledCanceled'', ''delistedCanceled'', ''liquidatedCanceled'', ''scheduledCancel'']"

definition REJECTED_STATUSES :: "string list" where
  "REJECTED_STATUSES = [''rejected'', ''tickRejected'', ''minTradeNtlRejected'', ''perpMarginRejected'', ''reduceOnlyRejected'',
     ''badAloPxRejected'', ''iocCancelRejected'', ''badTriggerPxRejected'', ''marketOrderNoLiquidityRejected'',
     ''positionIncreaseAtOpenInterestCapRejected'', ''positionFlipAtOpenInterestCapRejected'', ''tooAggressiveAtOpenInterestCapRejected'',
     ''openInterestIncreaseRejected'', ''insufficientSpotBalanceRejected'', ''oracleRejected'', ''perpMaxPositionRejected'']"

text \<open>The patterns \<open>0x[0-9a-f]{32}\<close>, and with capitals \<open>{40}\<close> and \<open>{64}\<close>.\<close>

definition hex_text :: "bool \<Rightarrow> nat \<Rightarrow> string \<Rightarrow> bool" where
  "hex_text capitals n s \<longleftrightarrow> take 2 s = ''0x'' \<and> length s = n + 2
     \<and> list_all (\<lambda>c. c \<in> set ''0123456789abcdef'' \<or> capitals \<and> c \<in> set ''ABCDEF'') (drop 2 s)"

section \<open>Markets and orders\<close>

record hl_market =
  mk_base_asset :: string
  mk_quote_asset :: string
  mk_coin :: string
  mk_asset_id :: int
  mk_sz_decimals :: int
  mk_min_notional_usd :: decimal

definition spot_asset_id :: "int \<Rightarrow> bool" where
  "spot_asset_id n \<longleftrightarrow> 10000 \<le> n \<and> n < 100000000"

definition hl_market_init :: "hl_market \<Rightarrow> exn + hl_market" where
  "hl_market_init m =
     require (list_all (\<lambda>v. 0 < length v \<and> length v \<le> 128) [mk_base_asset m, mk_quote_asset m, mk_coin m])
     (require (mk_quote_asset m = ''USDC'')
     (require (spot_asset_id (mk_asset_id m))
     (require (0 \<le> mk_sz_decimals m \<and> mk_sz_decimals m \<le> 8)
     (case parse_bounded_decimal (PDec (mk_min_notional_usd m)) of
        None \<Rightarrow> Inl ValueError
      | Some minimum \<Rightarrow> require (\<not> dle minimum dzero) (Inr (m\<lparr>mk_min_notional_usd := minimum\<rparr>))))))"

record ioc_order =
  io_cloid :: string
  io_coin :: string
  io_asset_id :: int
  io_limit_price :: decimal
  io_size :: decimal
  io_authorized_notional_usd :: decimal

definition quote_amount_ceiling :: "decimal \<Rightarrow> exn + decimal" where
  "quote_amount_ceiling value =
     (if \<not> is_finite value \<or> dlt value dzero then Inl ValueError
      else case quantize ROUND_CEILING (- 8) value of
        None \<Rightarrow> Inl ValueError
      | Some rounded \<Rightarrow> (case parse_bounded_decimal (PDec rounded) of None \<Rightarrow> Inl ValueError | Some bounded \<Rightarrow> Inr bounded))"

definition positive_finite :: "decimal \<Rightarrow> bool" where
  "positive_finite d \<longleftrightarrow> is_finite d \<and> \<not> dle d dzero"

definition ioc_order_init :: "ioc_order \<Rightarrow> exn + ioc_order" where
  "ioc_order_init od =
     require (hex_text False 32 (io_cloid od))
     (require (0 < length (io_coin od) \<and> length (io_coin od) \<le> 128)
     (require (spot_asset_id (io_asset_id od))
     (require (list_all positive_finite [io_limit_price od, io_size od, io_authorized_notional_usd od])
     (case parse_bounded_decimal (PDec (io_authorized_notional_usd od)) of
        None \<Rightarrow> Inl ValueError
      | Some authorized \<Rightarrow> (case quote_amount_ceiling (dec_mul (io_size od) (io_limit_price od)) of
          Inl e \<Rightarrow> Inl e
        | Inr worst \<Rightarrow> require (\<not> dlt authorized worst) (Inr (od\<lparr>io_authorized_notional_usd := authorized\<rparr>)))))))"

definition wire_decimal :: "decimal \<Rightarrow> string" where
  "wire_decimal value = (let normalized = dec_normalize value in if deq normalized dzero then ''0'' else format_f normalized)"

definition hyperliquid_cloid :: "crypto \<Rightarrow> execution_request \<Rightarrow> exn + string" where
  "hyperliquid_cloid L rq =
     map_sum id (\<lambda>seed. ''0x'' @ take 32 (sha256 L seed))
       (canonical_json (dict_of [(''domain'', PStr ''faar:hyperliquid-testnet:cloid:v1''),
          (''principal_id'', PStr (rq_principal_id rq)), (''intent_id'', PStr (rq_intent_id rq))]))"

text \<open>Milliseconds of an instant, rounded down.\<close>

definition epoch_millis :: "time \<Rightarrow> int" where
  "epoch_millis t = t div 1000"

fun is_integral :: "decimal \<Rightarrow> bool" where
  "is_integral (DFin s c e) = (0 \<le> e \<or> c mod 10 ^ nat (- e) = 0)"
| "is_integral x = False"

fun significant_figures :: "decimal \<Rightarrow> nat" where
  "significant_figures (DFin s c e) = ndigits c"
| "significant_figures x = 0"

fun decimal_places :: "decimal \<Rightarrow> int" where
  "decimal_places (DFin s c e) = max 0 (- e)"
| "decimal_places x = 0"

definition valid_spot_price :: "decimal \<Rightarrow> int \<Rightarrow> bool" where
  "valid_spot_price price sz_decimals =
     (let normalized = dec_normalize price in
      if is_integral normalized then True
      else significant_figures normalized \<le> 5 \<and> decimal_places normalized \<le> 8 - sz_decimals)"

section \<open>From the request to the order\<close>

text \<open>The size: the notional over the limit, rounded down to lots, one lot less if that still exceeds the notional.\<close>

definition order_size :: "decimal \<Rightarrow> decimal \<Rightarrow> int \<Rightarrow> string + decimal \<times> decimal" where
  "order_size notional limit_price sz_decimals =
     (case dec_div notional limit_price of Inl e \<Rightarrow> Inl ''HL_SIZE_UNREPRESENTABLE'' | Inr ratio \<Rightarrow>
     (case quantize ROUND_DOWN (- sz_decimals) ratio of None \<Rightarrow> Inl ''HL_SIZE_UNREPRESENTABLE'' | Some lots \<Rightarrow>
     if dle lots dzero then Inl ''HL_SIZE_ROUNDS_TO_ZERO''
     else case quote_amount_ceiling (dec_mul lots limit_price) of Inl e \<Rightarrow> Inl ''HL_ORDER_NOTIONAL_INVALID'' | Inr worst \<Rightarrow>
     if \<not> dlt notional worst then Inr (lots, worst)
     else let smaller = dec_add lots (DFin True 1 (- sz_decimals)) in
       if dle smaller dzero then Inl ''HL_SIZE_ROUNDS_TO_ZERO''
       else case quote_amount_ceiling (dec_mul smaller limit_price) of Inl e \<Rightarrow> Inl ''HL_ORDER_NOTIONAL_INVALID'' | Inr worst' \<Rightarrow>
         if dlt notional worst' then Inl ''HL_ORDER_NOTIONAL_INVALID'' else Inr (smaller, worst')))"

definition pinned_order ::
    "crypto \<Rightarrow> execution_request \<Rightarrow> hl_market \<Rightarrow> decimal \<Rightarrow> decimal \<Rightarrow> exn + string + ioc_order" where
  "pinned_order L rq market notional limit_price =
     (if \<not> valid_spot_price limit_price (mk_sz_decimals market) then Inr (Inl ''HL_LIMIT_PRICE_PRECISION_INVALID'')
      else case order_size notional limit_price (mk_sz_decimals market) of Inl msg \<Rightarrow> Inr (Inl msg) | Inr (lots, worst) \<Rightarrow>
        if dlt worst (mk_min_notional_usd market) then Inr (Inl ''HL_ORDER_BELOW_VENUE_MINIMUM'')
        else case hyperliquid_cloid L rq of Inl e \<Rightarrow> Inl e | Inr cloid \<Rightarrow>
          map_sum id Inr (ioc_order_init
            \<lparr>io_cloid = cloid, io_coin = mk_coin market, io_asset_id = mk_asset_id market, io_limit_price = limit_price, io_size = lots,
             io_authorized_notional_usd = notional\<rparr>))"

definition request_terms ::
    "crypto \<Rightarrow> execution_request \<Rightarrow> ((string \<times> string) \<times> hl_market) list \<Rightarrow> string \<Rightarrow> exn + string + ioc_order" where
  "request_terms L rq markets amount_field =
     (let p = rq_payload rq in
      case parse_bounded_decimal (pget p amount_field) of None \<Rightarrow> Inr (Inl ''HL_NOTIONAL_INVALID'') | Some notional \<Rightarrow>
      if dle notional dzero then Inr (Inl ''HL_NOTIONAL_INVALID'')
      else case parse_bounded_decimal (pget p ''limit_price'') of None \<Rightarrow> Inr (Inl ''HL_LIMIT_PRICE_INVALID'') | Some limit_price \<Rightarrow>
      if dle limit_price dzero then Inr (Inl ''HL_LIMIT_PRICE_INVALID'')
      else case (py_text (pget p ''base_asset''), py_text (pget p ''quote_asset'')) of
        (Some base_asset, Some quote_asset) \<Rightarrow>
          (case map_of markets (base_asset, quote_asset) of
             None \<Rightarrow> Inr (Inl ''HL_MARKET_NOT_PINNED'')
           | Some market \<Rightarrow> pinned_order L rq market notional limit_price)
      | _ \<Rightarrow> Inr (Inl ''HL_MARKET_NOT_PINNED''))"

definition request_order ::
    "crypto \<Rightarrow> execution_request \<Rightarrow> string \<Rightarrow> string \<Rightarrow> ((string \<times> string) \<times> hl_market) list \<Rightarrow> exn + string + ioc_order" where
  "request_order L rq principal_id target markets =
     (let p = rq_payload rq in
      if rq_venue rq \<noteq> HYPERLIQUID_TESTNET_VENUE then Inr (Inl ''HL_VENUE_MISMATCH'')
      else if rq_principal_id rq \<noteq> principal_id then Inr (Inl ''HL_PRINCIPAL_MISMATCH'')
      else if rq_primitive rq \<noteq> BUY then Inr (Inl ''HL_BUY_ONLY'')
      else if py_text (pget p ''target'') \<noteq> Some target then Inr (Inl ''HL_TARGET_MISMATCH'')
      else if map_option py_lower (py_text (pget p ''order_type'')) \<noteq> Some ''limit'' then Inr (Inl ''HL_LIMIT_ORDER_REQUIRED'')
      else if map_option py_upper (py_text (pget p ''time_in_force'')) \<noteq> Some ''IOC'' then Inr (Inl ''HL_IOC_REQUIRED'')
      else if has_key p ''max_slippage_bps'' then Inr (Inl ''HL_ABSOLUTE_LIMIT_ONLY'')
      else case filter (has_key p) [''amount_usd'', ''notional_usd''] of
        [amount_field] \<Rightarrow> request_terms L rq markets amount_field
      | _ \<Rightarrow> Inr (Inl ''HL_ONE_NOTIONAL_REQUIRED''))"

section \<open>The adapter\<close>

text \<open>What a call to the exchange ends in: a document, or an exception by its class.\<close>

datatype client_answer =
    Answered pyval
  | AmbiguousAnswer string
  | DeterministicAnswer string
  | ErrorAnswer string
  | ExitAnswer string

record 'v hl_adapter =
  ha_principal_id :: string
  ha_target :: string
  ha_markets :: "((string \<times> string) \<times> hl_market) list"
  ha_permit_verifier :: permit_gateway
  ha_crypto :: crypto
  ha_transport :: "ioc_order \<Rightarrow> int \<Rightarrow> int \<Rightarrow> 'v \<Rightarrow> client_answer \<times> 'v"
  ha_minimum_submission_window_ms :: int

fun pin_markets :: "hl_market list \<Rightarrow> ((string \<times> string) \<times> hl_market) list \<Rightarrow> exn + ((string \<times> string) \<times> hl_market) list" where
  "pin_markets [] pinned = (if pinned = [] then Inl ValueError else Inr pinned)"
| "pin_markets (m # ms) pinned =
     (let key = (mk_base_asset m, mk_quote_asset m) in
      if map_of pinned key \<noteq> None then Inl ValueError else pin_markets ms (pinned @ [(key, m)]))"

definition hl_adapter_init :: "string option \<Rightarrow> hl_market list \<Rightarrow> 'v hl_adapter \<Rightarrow> exn + 'v hl_adapter" where
  "hl_adapter_init base_url markets a =
     require (ha_principal_id a \<noteq> [] \<and> ha_target a \<noteq> [])
     (require (base_url = Some HYPERLIQUID_TESTNET_URL)
     (require (0 \<le> ha_minimum_submission_window_ms a)
     (map_sum id (\<lambda>pinned. a\<lparr>ha_markets := pinned\<rparr>) (pin_markets markets []))))"

text \<open>Reading an answer: \<open>d.get(k)\<close> and \<open>d[k]\<close> on a JSON object, and the number checks.\<close>

type_synonym json_object = "(pykey \<times> pyval) list"

definition dget :: "json_object \<Rightarrow> string \<Rightarrow> pyval" where
  "dget d k = (case map_of d (KStr k) of None \<Rightarrow> PNone | Some v \<Rightarrow> v)"

definition dindex :: "json_object \<Rightarrow> string \<Rightarrow> exn + pyval" where
  "dindex d k = (case map_of d (KStr k) of None \<Rightarrow> Inl KeyError | Some v \<Rightarrow> Inr v)"

fun as_object :: "pyval \<Rightarrow> json_object option" where
  "as_object (PDict d) = Some d"
| "as_object v = None"

fun positive_int :: "pyval \<Rightarrow> exn + int" where
  "positive_int (PInt n) = (if n \<le> 0 then Inl ValueError else Inr n)"
| "positive_int v = Inl ValueError"

definition bounded_decimal :: "pyval \<Rightarrow> exn + decimal" where
  "bounded_decimal v = (case parse_bounded_decimal v of None \<Rightarrow> Inl ValueError | Some d \<Rightarrow> Inr d)"

definition positive_decimal :: "pyval \<Rightarrow> exn + decimal" where
  "positive_decimal v = (case bounded_decimal v of Inl e \<Rightarrow> Inl e | Inr d \<Rightarrow> if dle d dzero then Inl ValueError else Inr d)"

definition effect_id_of :: "string \<Rightarrow> int \<Rightarrow> string" where
  "effect_id_of venue oid = venue @ '':order:'' @ str_int oid"

text \<open>The one order status of a well-formed answer.\<close>

definition order_status :: "pyval \<Rightarrow> exn + json_object" where
  "order_status response =
     (case as_object response of None \<Rightarrow> Inl ValueError | Some d \<Rightarrow>
      if \<not> py_eq (dget d ''status'') (PStr ''ok'') then Inl ValueError
      else case dindex d ''response'' of Inl e \<Rightarrow> Inl e | Inr body_value \<Rightarrow>
      (case as_object body_value of None \<Rightarrow> Inl ValueError | Some body \<Rightarrow>
       if \<not> py_eq (dget body ''type'') (PStr ''order'') then Inl ValueError
       else case dindex body ''data'' of Inl e \<Rightarrow> Inl e | Inr data \<Rightarrow>
       (case (case as_object data of None \<Rightarrow> Inr PNone | Some holding \<Rightarrow> dindex holding ''statuses'') of
          Inl e \<Rightarrow> Inl e
        | Inr (PSeq [status]) \<Rightarrow> (case as_object status of None \<Rightarrow> Inl ValueError | Some st \<Rightarrow> Inr st)
        | Inr _ \<Rightarrow> Inl ValueError)))"

definition fill_receipt :: "crypto \<Rightarrow> execution_request \<Rightarrow> ioc_order \<Rightarrow> json_object \<Rightarrow> exn + execution_receipt" where
  "fill_receipt L rq od fill =
     (case positive_int (dget fill ''oid'') of Inl e \<Rightarrow> Inl e | Inr oid \<Rightarrow>
     (case positive_decimal (dget fill ''totalSz'') of Inl e \<Rightarrow> Inl e | Inr total_size \<Rightarrow>
     (case positive_decimal (dget fill ''avgPx'') of Inl e \<Rightarrow> Inl e | Inr average_price \<Rightarrow>
     (case quote_amount_ceiling (dec_mul total_size average_price) of Inl e \<Rightarrow> Inl e | Inr amount \<Rightarrow>
     (case canonical_hash L (pv_request rq) of Inl e \<Rightarrow> Inl e | Inr request_hash \<Rightarrow>
       execution_receipt_init
         \<lparr>rc_effect_id = effect_id_of HYPERLIQUID_TESTNET_VENUE oid, rc_status = ST_FINALIZED, rc_evidence = [], rc_amount_usd = Some amount\<rparr>
         (dict_of [(''venue'', PStr HYPERLIQUID_TESTNET_VENUE), (''network'', PStr ''testnet''), (''cloid'', PStr (io_cloid od)), (''oid'', PInt oid),
                   (''request_hash'', PStr request_hash), (''reported_total_size'', PStr (wire_decimal total_size)),
                   (''reported_average_price'', PStr (wire_decimal average_price))]))))))"

text \<open>\<open>_receipt\<close>: only a fill is a receipt; a resting order, an error and anything else are exceptions alike.\<close>

definition hl_receipt :: "crypto \<Rightarrow> execution_request \<Rightarrow> ioc_order \<Rightarrow> pyval \<Rightarrow> exn + execution_receipt" where
  "hl_receipt L rq od response =
     (case order_status response of Inl e \<Rightarrow> Inl e | Inr status \<Rightarrow>
      (case map_of status (KStr ''filled'') of
         None \<Rightarrow> Inl ValueError
       | Some v \<Rightarrow> (case as_object v of None \<Rightarrow> Inl ValueError | Some fill \<Rightarrow> fill_receipt L rq od fill)))"

fun exn_name :: "exn \<Rightarrow> string" where
  "exn_name ValueError = ''ValueError''"
| "exn_name KeyError = ''KeyError''"
| "exn_name TypeError = ''TypeError''"
| "exn_name e = ''Exception''"

definition submission_outcome :: "crypto \<Rightarrow> execution_request \<Rightarrow> ioc_order \<Rightarrow> client_answer \<Rightarrow> adapter_outcome" where
  "submission_outcome L rq od answer = (case answer of
     Answered response \<Rightarrow> (case hl_receipt L rq od response of
         Inr rc \<Rightarrow> Receipt rc
       | Inl e \<Rightarrow> RaisedAmbiguous (''HL_RESPONSE_REQUIRES_RECONCILIATION:'' @ exn_name e))
   | AmbiguousAnswer msg \<Rightarrow> RaisedAmbiguous msg
   | DeterministicAnswer msg \<Rightarrow> RaisedAmbiguous ''HL_SUBMISSION_AMBIGUOUS:DeterministicFailure''
   | ErrorAnswer ty \<Rightarrow> RaisedAmbiguous (''HL_SUBMISSION_AMBIGUOUS:'' @ ty)
   | ExitAnswer ty \<Rightarrow> RaisedOther ty [] True)"

definition hl_execute :: "'v hl_adapter \<Rightarrow> 'v adapter" where
  "hl_execute a rq permit =
     bindE (lift_sum (request_order (ha_crypto a) rq (ha_principal_id a) (ha_target a) (ha_markets a))) (\<lambda>r. case r of
       Inl msg \<Rightarrow> ret (RaisedDeterministic msg)
     | Inr od \<Rightarrow>
         bindE read_clock (\<lambda>now.
         let expires_after_ms = epoch_millis (pm_expires_at (sp_permit permit)) in
         if expires_after_ms - epoch_millis now < ha_minimum_submission_window_ms a
         then ret (RaisedDeterministic ''HL_PERMIT_WINDOW_TOO_SHORT'')
         else bindE (gateway_consume (ha_permit_verifier a) permit rq now (Some HYPERLIQUID_TESTNET_VENUE)) (\<lambda>(ok, reasons).
           if \<not> ok then ret (RaisedDeterministic (''HL_PERMIT_REJECTED:'' @ join_with '','' reasons))
           else bindE (on_venue (\<lambda>v. case ha_transport a od (epoch_millis (pm_issued_at (sp_permit permit))) expires_after_ms v of
                    (answer, v') \<Rightarrow> (Inr answer, v')))
                  (\<lambda>answer. ret (submission_outcome (ha_crypto a) rq od answer)))))"

end
