(* ===== verification/Hyperliquid_Order.thy ===== *)
theory Hyperliquid_Order
  imports Hyperliquid Permit_Demo
begin

text \<open>
  What the order of the Hyperliquid adapter may cost. A valid price has at most as many decimals as the lot size leaves of eight, so
  size times price is a whole number of the ledger's units of \<open>10^-8\<close>; the product in the decimal context and its ceiling are then either
  exact or refused, and the checks on the rounded amount are checks on the exact cost.
\<close>

section \<open>Exact products\<close>

lemma pow10_split: "e \<le> g \<Longrightarrow> pow10 g = 10 ^ nat (g - e) * pow10 e"
  using pow10_add [of "g - e" e] pow10_of_nat [of "nat (g - e)"] by simp

lemma units_of:
  assumes "of_nat c * pow10 e = (of_nat N * pow10 g :: rat)" and "e \<le> g"
  shows "c = N * 10 ^ nat (g - e)"
proof -
  have "(of_nat c :: rat) * pow10 e = of_nat (N * 10 ^ nat (g - e)) * pow10 e"
    using assms(1) pow10_split [OF assms(2)] by (simp add: mult.assoc)
  then have "(of_nat c :: rat) = of_nat (N * 10 ^ nat (g - e))" using pow10_pos [of e] by (metis mult_cancel_right less_irrefl)
  then show ?thesis by (simp only: of_nat_eq_iff)
qed

text \<open>Rounding a whole number of units keeps it, unless it leaves a coarser exponent.\<close>

lemma round_half_even_dvd: "10 ^ k dvd c \<Longrightarrow> round_half_even c k = c div 10 ^ k"
  by (simp add: round_half_even_def Let_def)

lemma round_coeff_units:
  assumes "of_nat c * pow10 e = (of_nat N * pow10 g :: rat)" and "round_coeff c e = (r, f)" and "f \<le> g \<or> ndigits c \<le> DECIMAL_PREC"
  shows "(of_nat r :: rat) * pow10 f = of_nat c * pow10 e"
proof (cases "ndigits c \<le> DECIMAL_PREC")
  case True
  then show ?thesis using assms(2) by (simp add: round_coeff_def)
next
  case False
  define k where "k = ndigits c - DECIMAL_PREC"
  have fk: "f = e + int k \<or> f = e + int k + 1" using assms(2) False by (auto simp: round_coeff_def Let_def k_def split: if_splits)
  then have le: "e + int k \<le> g" using assms(3) False by auto
  have "c = N * 10 ^ nat (g - e)" using units_of [OF assms(1)] le by simp
  moreover have "nat (g - e) = k + nat (g - e - int k)" using le by simp
  ultimately have c: "c = N * 10 ^ nat (g - e - int k) * 10 ^ k" by (simp add: power_add ac_simps)
  then have div: "round_half_even c k = c div 10 ^ k" by (intro round_half_even_dvd) simp
  have "c < 10 ^ (DECIMAL_PREC + k)" using ndigits_le_iff [of "ndigits c" c] False by (simp add: k_def)
  then have "ndigits (c div 10 ^ k) \<le> DECIMAL_PREC"
    by (subst ndigits_le_iff) (simp_all add: DECIMAL_PREC_def less_mult_imp_div_less power_add)
  then have "r = c div 10 ^ k" "f = e + int k" using assms(2) False div by (auto simp: round_coeff_def Let_def k_def)
  moreover have "(of_nat c :: rat) = of_nat (c div 10 ^ k) * 10 ^ k" using c by (metis dvd_div_mult_self dvd_triv_right of_nat_mult of_nat_power of_nat_numeral)
  ultimately show ?thesis using pow10_add [of "int k" e] pow10_of_nat [of k] by (simp add: ac_simps)
qed

lemma round_coeff_full:
  assumes "\<not> ndigits c \<le> DECIMAL_PREC" and "round_coeff c e = (r, f)"
  shows "10 ^ 27 \<le> r"
proof -
  have c: "10 ^ 28 \<le> c" using assms(1) ndigits_le_iff [of 28 c] by (simp add: DECIMAL_PREC_def)
  define k where "k = ndigits c - 28"
  have "28 < ndigits c" using assms(1) by (simp add: DECIMAL_PREC_def)
  then have k: "0 < 27 + k" "27 + k < ndigits c" by (auto simp: k_def)
  have "10 ^ (27 + k) \<le> c" by (rule ndigits_gt [OF k])
  then have "10 ^ 27 \<le> c div 10 ^ k" using div_le_mono [of "10 ^ (27 + k)" c "10 ^ k"] by (simp add: power_add)
  then have r: "10 ^ 27 \<le> round_half_even c k" by (simp add: round_half_even_def Let_def)
  show ?thesis
  proof (cases "ndigits (round_half_even c k) \<le> 28")
    case False
    then have "10 ^ 28 \<le> round_half_even c k" by (intro ndigits_gt) auto
    then have "10 ^ 27 \<le> round_half_even c k div 10" using div_le_mono [of "10 ^ 28" _ 10] by fastforce
    then show ?thesis using assms r by (auto simp: round_coeff_def Let_def k_def DECIMAL_PREC_def split: if_splits)
  qed (use assms r in \<open>auto simp: round_coeff_def Let_def k_def DECIMAL_PREC_def split: if_splits\<close>)
qed

lemma quantize_units:
  assumes "of_nat r * pow10 f = (of_nat N * pow10 g :: rat)"
  shows "quantize mode g (DFin s r f) = (if ndigits N > DECIMAL_PREC then None else Some (DFin s N g))"
proof -
  have "quantize_coeff mode s r f g = N"
  proof (cases "g \<le> f")
    case True
    then have "N = r * 10 ^ nat (f - g)" using units_of [OF assms [symmetric]] by simp
    with True show ?thesis by (simp add: quantize_coeff.simps)
  next
    case False
    then have "r = N * 10 ^ nat (g - f)" using units_of [OF assms] by simp
    with False show ?thesis by (simp add: quantize_coeff.simps Let_def)
  qed
  then show ?thesis by (simp add: Let_def)
qed

lemma quantize_coarse:
  assumes "g < f" and "10 ^ 27 \<le> r"
  shows "quantize mode g (DFin s r f) = None"
proof -
  define d where "d = r * 10 ^ nat (f - g)"
  have "(10::nat) ^ 1 \<le> 10 ^ nat (f - g)" by (rule power_increasing) (use assms(1) in simp_all)
  then have "10 ^ 27 * 10 ^ 1 \<le> d" unfolding d_def using assms(2) by (rule_tac mult_le_mono)
  then have "10 ^ 28 \<le> d" by (simp only: power_add [symmetric]) simp
  then have "28 < ndigits d" using ndigits_le_iff [of 28 d] by linarith
  then show ?thesis using assms(1) by (simp add: quantize_coeff.simps Let_def DECIMAL_PREC_def d_def)
qed

text \<open>The ceiling of a product that is a whole number of units is the product itself.\<close>

lemma product_ceiling:
  assumes "dval (DFin False q e) * dval (DFin False c e') = of_nat N * pow10 (- 8)"
    and "quote_amount_ceiling (dec_mul (DFin False q e) (DFin False c e')) = Inr worst"
  shows "dval worst = dval (DFin False q e) * dval (DFin False c e')"
proof -
  obtain r f where rf: "round_coeff (q * c) (e + e') = (r, f)" by (cases "round_coeff (q * c) (e + e')")
  have exact: "(of_nat (q * c) :: rat) * pow10 (e + e') = of_nat N * pow10 (- 8)"
    using assms(1) by (simp add: pow10_add ac_simps)
  obtain x where x: "quantize ROUND_CEILING (- 8) (DFin False r f) = Some x" and w: "worst = x"
    using assms(2) rf by (auto simp: quote_amount_ceiling_def dest: if_bounded_Some split: if_splits option.splits)
  have "f \<le> - 8 \<or> ndigits (q * c) \<le> DECIMAL_PREC"
  proof (rule ccontr)
    assume "\<not> ?thesis"
    then have "quantize ROUND_CEILING (- 8) (DFin False r f) = None"
      by (intro quantize_coarse round_coeff_full [OF _ rf]) auto
    with x show False by simp
  qed
  then have "(of_nat r :: rat) * pow10 f = of_nat N * pow10 (- 8)" using round_coeff_units [OF exact rf] exact by simp
  from quantize_units [OF this, of ROUND_CEILING False] x have "x = DFin False N (- 8)" by (simp split: if_splits)
  with w exact show ?thesis by (simp add: pow10_add ac_simps)
qed

section \<open>Prices and sizes\<close>

lemma strip_zeros_parts:
  "Settlement.strip_zeros c e = (c', e') \<Longrightarrow> c \<noteq> 0 \<Longrightarrow> c = c' * 10 ^ nat (e' - e) \<and> e \<le> e' \<and> c' mod 10 \<noteq> 0"
proof (induction c e arbitrary: c' e' rule: Settlement.strip_zeros.induct)
  case (1 c e)
  show ?case
  proof (cases "c mod 10 = 0")
    case True
    then have "c div 10 \<noteq> 0" using "1.prems"(2) by (metis mult_eq_0_iff mod_0_imp_dvd dvd_mult_div_cancel)
    moreover have "Settlement.strip_zeros (c div 10) (e + 1) = (c', e')"
      using "1.prems" True by (simp add: Settlement.strip_zeros.simps [of c e])
    ultimately have "c div 10 = c' * 10 ^ nat (e' - (e + 1)) \<and> e + 1 \<le> e' \<and> c' mod 10 \<noteq> 0"
      by (rule_tac "1.IH" [OF "1.prems"(2) True])
    then have ih: "c div 10 = c' * 10 ^ nat (e' - (e + 1))" "e + 1 \<le> e'" "c' mod 10 \<noteq> 0" by auto
    have "c = c div 10 * 10" using True by auto
    moreover have "nat (e' - e) = Suc (nat (e' - (e + 1)))" using ih(2) by simp
    ultimately have "c = c' * 10 ^ nat (e' - e)" using ih(1) by simp
    with ih(2,3) show ?thesis by simp
  next
    case False
    then show ?thesis using "1.prems" by (auto simp: Settlement.strip_zeros.simps [of c e])
  qed
qed

lemma price_units:
  assumes "valid_spot_price (DFin False c e) z" and "c \<noteq> 0" and "ndigits c \<le> DECIMAL_PREC" and "z \<le> 8"
  obtains M where "(of_nat c :: rat) * pow10 e = of_nat M * pow10 (z - 8)"
proof -
  obtain c' e' where n: "Settlement.strip_zeros c e = (c', e')" by (cases "Settlement.strip_zeros c e")
  note parts = strip_zeros_parts [OF n assms(2)]
  have norm: "dec_normalize (DFin False c e) = DFin False c' e'" using n assms(3) by (simp add: round_coeff_def)
  have "\<not> (e' < 0 \<and> c' mod 10 ^ nat (- e') = 0)"
  proof
    assume a: "e' < 0 \<and> c' mod 10 ^ nat (- e') = 0"
    then obtain k where "nat (- e') = Suc k" by (metis Suc_pred' neg_0_less_iff_less zero_less_nat_eq)
    then have "10 dvd c'" using a by (metis dvd_mult_left mod_0_imp_dvd power_Suc)
    with parts show False by auto
  qed
  then have "z - 8 \<le> e'" using assms(1,4) unfolding valid_spot_price_def norm Let_def by (auto split: if_splits)
  then have "pow10 e' = 10 ^ nat (e' - (z - 8)) * pow10 (z - 8)" by (rule pow10_split)
  moreover have "(of_nat c :: rat) * pow10 e = of_nat c' * pow10 e'"
    using parts pow10_split [of e e'] by (simp add: mult.assoc)
  ultimately show thesis using that [of "c' * 10 ^ nat (e' - (z - 8))"] by (simp add: mult.assoc)
qed

lemma positive_parts: "is_finite x \<Longrightarrow> \<not> dle x dzero \<Longrightarrow> \<exists>c e. x = DFin False c e \<and> c \<noteq> 0"
proof (cases x)
  case (DFin s c e)
  assume "\<not> dle x dzero"
  then have pos: "0 < dval (DFin s c e)" using DFin by (simp add: dle_def)
  have "dval (DFin s 0 e) = 0" by simp
  with pos have "c \<noteq> 0" by (metis less_irrefl)
  moreover have "0 \<le> dval (DFin s c e)" using pos by (rule less_imp_le)
  ultimately have "c \<noteq> 0" "0 \<le> dval (DFin s c e)" by blast+
  then show ?thesis using DFin nonneg_sign [of c s e] by simp
qed auto

lemma one_lot_less:
  assumes "0 < q" and "ndigits q \<le> DECIMAL_PREC"
  shows "dec_add (DFin False q g) (DFin True 1 g) = DFin False (q - 1) g"
proof -
  have "q - 1 < 10 ^ 28" using assms(2) ndigits_le_iff [of 28 q] by (simp add: DECIMAL_PREC_def)
  then have "ndigits (q - 1) \<le> DECIMAL_PREC" by (simp add: DECIMAL_PREC_def ndigits_le_iff)
  moreover have "nat \<bar>int q - 1\<bar> = q - 1" using assms(1) by simp
  ultimately show ?thesis using assms(1) by (simp add: round_coeff_def)
qed

lemma order_size_parts:
  assumes "order_size n limit z = Inr (lots, worst)"
  shows "\<exists>q. lots = DFin False q (- z) \<and> q \<noteq> 0" and "quote_amount_ceiling (dec_mul lots limit) = Inr worst" and "\<not> dlt n worst"
proof -
  obtain ratio first w where first: "quantize ROUND_DOWN (- z) ratio = Some first" "\<not> dle first dzero"
      "quote_amount_ceiling (dec_mul first limit) = Inr w"
    and rest: "if \<not> dlt n w then (lots, worst) = (first, w)
      else lots = dec_add first (DFin True 1 (- z)) \<and> \<not> dle lots dzero \<and> quote_amount_ceiling (dec_mul lots limit) = Inr worst \<and> \<not> dlt n worst"
    using assms by (auto simp: order_size_def Let_def split: sum.splits option.splits if_splits)
  obtain s q0 where q0: "first = DFin s q0 (- z)" "ndigits q0 \<le> DECIMAL_PREC"
    using first(1) by (cases ratio) (auto simp: Let_def split: if_splits)
  obtain q where q: "first = DFin False q (- z)" "q \<noteq> 0" using positive_parts [of first] first(2) q0(1) by auto
  have "lots = DFin False (q - 1) (- z)" if "dlt n w"
    using rest that q one_lot_less [of q "- z"] q0 by auto
  moreover have "q - 1 \<noteq> 0" if "dlt n w" using rest that calculation [OF that] by (auto simp: dle_def)
  ultimately show "\<exists>q. lots = DFin False q (- z) \<and> q \<noteq> 0" using rest q by (cases "dlt n w") auto
  show "quote_amount_ceiling (dec_mul lots limit) = Inr worst" "\<not> dlt n worst" using rest first(3) by (auto split: if_splits)
qed

lemma order_cost:
  assumes "order_size n limit z = Inr (lots, worst)" and "valid_spot_price limit z" and "is_finite limit" and "\<not> dle limit dzero"
    and "significant_figures limit \<le> DECIMAL_PREC" and "z \<le> 8"
  shows "dval worst = dval lots * dval limit" and "dval lots * dval limit \<le> dval n" and "0 < dval lots"
proof -
  obtain q where q: "lots = DFin False q (- z)" "q \<noteq> 0" using order_size_parts(1) [OF assms(1)] by blast
  obtain c e where c: "limit = DFin False c e" "c \<noteq> 0" using positive_parts assms(3,4) by blast
  obtain M where M: "(of_nat c :: rat) * pow10 e = of_nat M * pow10 (z - 8)"
    using price_units [of c e z] assms(2,5,6) c by auto
  have "dval lots * dval limit = of_nat (q * M) * pow10 (- 8)"
    using M q(1) c(1) pow10_add [of "- z" "z - 8"] by (simp add: ac_simps)
  then show "dval worst = dval lots * dval limit"
    using product_ceiling [of q "- z" c e "q * M" worst] order_size_parts(2) [OF assms(1)] q(1) c(1) by simp
  with order_size_parts(3) [OF assms(1)] show "dval lots * dval limit \<le> dval n" by (simp add: dlt_def)
  show "0 < dval lots" using q by simp
qed

section \<open>Properties\<close>

lemma map_sum_Inr_iff: "map_sum id f r = Inr x \<longleftrightarrow> (\<exists>y. r = Inr y \<and> x = f y)"
  by (cases r) auto

lemma has_key_map_of: "has_key p k \<longleftrightarrow> map_of p k \<noteq> None"
  by (simp add: has_key_def map_of_eq_None_iff)

lemma request_orderE:
  assumes "request_order L rq who target markets = Inr (Inr od)"
  obtains n limit lots worst m key where "authorized_amount rq = Some n" and "map_of markets key = Some m"
    and "rq_primitive rq = BUY" and "rq_venue rq = HYPERLIQUID_TESTNET_VENUE" and "rq_principal_id rq = who"
    and "parse_bounded_decimal (pget (rq_payload rq) ''limit_price'') = Some limit" and "\<not> dle limit dzero"
    and "valid_spot_price limit (mk_sz_decimals m)" and "order_size n limit (mk_sz_decimals m) = Inr (lots, worst)"
    and "\<not> dlt worst (mk_min_notional_usd m)"
    and "io_limit_price od = limit" "io_size od = lots" "io_authorized_notional_usd od = n" "io_coin od = mk_coin m" "io_asset_id od = mk_asset_id m"
proof -
  let ?p = "rq_payload rq"
  obtain f where f: "filter (has_key ?p) [''amount_usd'', ''notional_usd''] = [f]" and t: "request_terms L rq markets f = Inr (Inr od)"
    and base: "rq_primitive rq = BUY" "rq_venue rq = HYPERLIQUID_TESTNET_VENUE" "rq_principal_id rq = who"
    using assms unfolding request_order_def Let_def by (auto simp del: filter.simps split: if_splits list.splits)
  have "pget ?p f = amount_raw ?p"
    using f by (auto simp: amount_raw_def pget_def pget_default_def has_key_map_of split: if_splits option.splits)
  with t obtain n limit key m where n: "authorized_amount rq = Some n"
      "parse_bounded_decimal (pget ?p ''limit_price'') = Some limit" "\<not> dle limit dzero" "map_of markets key = Some m"
      "pinned_order L rq m n limit = Inr (Inr od)"
    by (auto simp: request_terms_def authorized_amount_def Let_def split: option.splits if_splits)
  obtain lots worst cloid where o: "valid_spot_price limit (mk_sz_decimals m)" "order_size n limit (mk_sz_decimals m) = Inr (lots, worst)"
      "\<not> dlt worst (mk_min_notional_usd m)" and i: "ioc_order_init \<lparr>io_cloid = cloid, io_coin = mk_coin m, io_asset_id = mk_asset_id m,
        io_limit_price = limit, io_size = lots, io_authorized_notional_usd = n\<rparr> = Inr od"
    using n(5) by (auto simp: pinned_order_def map_sum_Inr_iff split: if_splits sum.splits)
  have "io_limit_price od = limit" "io_size od = lots" "io_authorized_notional_usd od = n" "io_coin od = mk_coin m" "io_asset_id od = mk_asset_id m"
    using i by (auto simp: ioc_order_init_def dest: if_bounded_Some split: option.splits sum.splits)
  with that n(1-4) o base show thesis by blast
qed

text \<open>
  C15. The exchange order can never cost more than the signed amount. If a request becomes an order at all, on markets the operator pinned,
  it is a purchase for the configured principal on the test network, and its size times its limit price, computed exactly and not in the
  28 digits of the decimal context, is positive, at least the minimum of the market and at most the amount the request
  authorizes; lots are rounded down, never up to reach a minimum. The price may have up to 28 significant digits, more than any text,
  integer or float of the money grammar has.
\<close>

theorem hl_order_within_authority:
  assumes "request_order L rq who target markets = Inr (Inr od)" and "list_all (\<lambda>(k, m). hl_market_init m = Inr m) markets"
    and "significant_figures (io_limit_price od) \<le> DECIMAL_PREC"
  shows "rq_primitive rq = BUY \<and> rq_venue rq = HYPERLIQUID_TESTNET_VENUE \<and> rq_principal_id rq = who
    \<and> (\<exists>n. authorized_amount rq = Some n \<and> io_authorized_notional_usd od = n \<and> dval (io_size od) * dval (io_limit_price od) \<le> dval n)
    \<and> (\<exists>key m. map_of markets key = Some m \<and> io_coin od = mk_coin m \<and> io_asset_id od = mk_asset_id m
         \<and> dval (mk_min_notional_usd m) \<le> dval (io_size od) * dval (io_limit_price od))
    \<and> 0 < dval (io_size od) \<and> 0 < dval (io_limit_price od)"
  using assms(1)
proof (rule request_orderE)
  fix n limit lots worst m key
  assume a: "authorized_amount rq = Some n" "map_of markets key = Some m" "rq_primitive rq = BUY" "rq_venue rq = HYPERLIQUID_TESTNET_VENUE"
    "rq_principal_id rq = who" "parse_bounded_decimal (pget (rq_payload rq) ''limit_price'') = Some limit" "\<not> dle limit dzero"
    "valid_spot_price limit (mk_sz_decimals m)" "order_size n limit (mk_sz_decimals m) = Inr (lots, worst)"
    "\<not> dlt worst (mk_min_notional_usd m)" "io_limit_price od = limit" "io_size od = lots" "io_authorized_notional_usd od = n"
    "io_coin od = mk_coin m" "io_asset_id od = mk_asset_id m"
  have "hl_market_init m = Inr m" using assms(2) map_of_SomeD [OF a(2)] by (auto simp: list_all_iff)
  then have "mk_sz_decimals m \<le> 8" by (simp add: hl_market_init_def)
  moreover have "is_finite limit" using parse_bounded [OF a(6)] by simp
  ultimately have cost: "dval worst = dval lots * dval limit" "dval lots * dval limit \<le> dval n" "0 < dval lots"
    using order_cost [OF a(9,8) _ a(7)] assms(3) a(11) by auto
  have "\<exists>key m. map_of markets key = Some m \<and> io_coin od = mk_coin m \<and> io_asset_id od = mk_asset_id m
      \<and> dval (mk_min_notional_usd m) \<le> dval (io_size od) * dval (io_limit_price od)"
    using a(2,10-12,14,15) cost(1) by (intro exI [of _ key] exI [of _ m]) (simp add: dlt_def)
  moreover have "0 < dval limit" using a(7) by (simp add: dle_def)
  ultimately show ?thesis using a(1,3-5,11-13) cost by blast
qed

text \<open>
  C16. Nothing reaches the exchange without a consumed permit, and nothing after it is called certain. Whatever the transport does, the
  venue changes only by its one submission of the order of this request, with the permit's own issue time as nonce and its expiry,
  after a verified permit for exactly this request was consumed while at least the configured window was left; a deterministic
  failure means that nothing was sent, and every outcome of a submission is a receipt, an ambiguity or a process exit.
\<close>

theorem hl_submission_licensed:
  assumes "venue_untouched (w_env w)" and "hl_execute a rq permit w = (r, w')"
  shows "(r = Inr (RaisedDeterministic msg) \<longrightarrow> w_venue w' = w_venue w)
    \<and> (w_venue w' \<noteq> w_venue w \<longrightarrow> (\<exists>od answer now.
        request_order (ha_crypto a) rq (ha_principal_id a) (ha_target a) (ha_markets a) = Inr (Inr od)
        \<and> ha_transport a od (epoch_millis (pm_issued_at (sp_permit permit))) (epoch_millis (pm_expires_at (sp_permit permit))) (w_venue w)
            = (answer, w_venue w')
        \<and> r = Inr (submission_outcome (ha_crypto a) rq od answer)
        \<and> epoch_millis (pm_expires_at (sp_permit permit)) - epoch_millis now \<ge> ha_minimum_submission_window_ms a
        \<and> (\<exists>row. permit_of (db (w_sys w')) (pm_permit_id (sp_permit permit)) = Some row \<and> pr_consumed_at row \<noteq> None)
        \<and> canonical_hash (c_crypto (pg_cfg (ha_permit_verifier a))) (pv_request rq) = Inr (pm_request_hash (sp_permit permit))
        \<and> (\<forall>m. pm_max_amount_usd (sp_permit permit) = Some m \<longrightarrow> (\<exists>x. authorized_amount rq = Some x \<and> \<not> dlt m x))))"
proof -
  let ?v = "w_venue w" and ?e = "epoch_millis (pm_expires_at (sp_permit permit))"
  let ?consume = "\<lambda>now. gateway_consume (ha_permit_verifier a) permit rq now (Some HYPERLIQUID_TESTNET_VENUE)"
  obtain now w2 where w2: "read_clock w = (Inr now, w2)" by (auto simp: read_clock_def Let_def)
  have "at_rest ?v w" using assms(1) by (simp add: at_rest_def)
  then have rest2: "at_rest ?v w2" by (rule preservesD [OF read_clock_venue _ w2])
  obtain q w3 where w3: "?consume now w2 = (q, w3)" by (cases "?consume now w2")
  have rest3: "w_venue w3 = ?v" and "w_venue w2 = ?v"
    using preservesD [OF gateway_consume_venue rest2 w3] rest2 by (auto simp: at_rest_def)
  consider (sent) od rs answer v' where "request_order (ha_crypto a) rq (ha_principal_id a) (ha_target a) (ha_markets a) = Inr (Inr od)"
      "ha_minimum_submission_window_ms a \<le> ?e - epoch_millis now" "q = Inr (True, rs)"
      "ha_transport a od (epoch_millis (pm_issued_at (sp_permit permit))) ?e ?v = (answer, v')"
      "w' = w3\<lparr>w_venue := v'\<rparr>" "r = Inr (submission_outcome (ha_crypto a) rq od answer)"
    | (not_sent) "w_venue w' = ?v"
    using assms(2) w2 w3 rest3 \<open>w_venue w2 = ?v\<close>
    by (auto simp: hl_execute_def Let_def op_simps on_venue_def split: sum.splits prod.splits if_splits)
  then show ?thesis
  proof cases
    case sent
    note bound = consumption_binds [OF w3 [unfolded sent(3)]]
    have "submission_outcome L rq od answer \<noteq> RaisedDeterministic msg" for L
      by (simp add: submission_outcome_def split: client_answer.split sum.split)
    then show ?thesis using sent bound(2-4) by auto
  qed simp
qed

section \<open>One order, from the request to the exchange\<close>

text \<open>Ten dollars at a limit of five: two lots of the market, and nothing to round.\<close>

definition demo_market :: hl_market where
  "demo_market = \<lparr>mk_base_asset = ''PURR'', mk_quote_asset = ''USDC'', mk_coin = ''PURR/USDC'', mk_asset_id = 10000, mk_sz_decimals = 2,
     mk_min_notional_usd = usd 1\<rparr>"

definition demo_hl_request :: execution_request where
  "demo_hl_request =
     \<lparr>rq_principal_id = ''principal:alice'', rq_intent_id = ''intent-0000000001'', rq_primitive = BUY, rq_venue = HYPERLIQUID_TESTNET_VENUE,
      rq_payload = [(''target'', PStr ''acct''), (''order_type'', PStr ''limit''), (''time_in_force'', PStr ''IOC''), (''amount_usd'', PStr ''10''),
        (''limit_price'', PStr ''5''), (''base_asset'', PStr ''PURR''), (''quote_asset'', PStr ''USDC'')]\<rparr>"

definition demo_ioc :: ioc_order where
  "demo_ioc = \<lparr>io_cloid = ''0x'' @ demo_digest, io_coin = ''PURR/USDC'', io_asset_id = 10000, io_limit_price = usd 5, io_size = DFin False 200 (- 2),
     io_authorized_notional_usd = usd 10\<rparr>"

definition demo_markets :: "((string \<times> string) \<times> hl_market) list" where
  "demo_markets = [((''PURR'', ''USDC''), demo_market)]"

lemma demo_market_ok: "hl_market_init demo_market = Inr demo_market"
  by code_simp

lemma demo_amounts: "dval (DFin False 1000000000 (- 8)) = 10" "dval (DFin False 200 (- 2)) = 2" "dval (usd n) = of_nat n"
  by (simp_all add: pow10_def usd_def)

lemma demo_bounded: "if_bounded (DFin False 1000000000 (- 8)) = Some (DFin False 1000000000 (- 8))"
  by (simp add: if_bounded_def canonically_bounded_def canonical_decimal_def adjusted_def MAX_DECIMAL_DIGITS_def MAX_DECIMAL_ABS_EXPONENT_def
      ndigits.simps)

lemma demo_worst: "quote_amount_ceiling (dec_mul (DFin False 200 (- 2)) (usd 5)) = Inr (DFin False 1000000000 (- 8))"
  using demo_bounded
  by (simp add: quote_amount_ceiling_def usd_def round_coeff_def quantize_coeff.simps ndigits.simps DECIMAL_PREC_def dlt_def pow10_def)

lemma demo_size: "order_size (usd 10) (usd 5) 2 = Inr (DFin False 200 (- 2), DFin False 1000000000 (- 8))"
proof -
  have "dec_div (usd 10) (usd 5) = Inr (DFin False 2 0)"
    by (simp add: usd_def divide_coeff_def ndigits.simps DECIMAL_PREC_def Let_def Paper.strip_zeros.simps round_coeff_def)
  moreover have "quantize ROUND_DOWN (- 2) (DFin False 2 0) = Some (DFin False 200 (- 2))"
    by (simp add: quantize_coeff.simps ndigits.simps DECIMAL_PREC_def)
  moreover have "\<not> dle (DFin False 200 (- 2)) dzero" "\<not> dlt (usd 10) (DFin False 1000000000 (- 8))"
    by (simp_all add: dle_def dlt_def demo_amounts del: dval.simps)
  ultimately show ?thesis using demo_worst by (simp add: order_size_def)
qed

lemma demo_price: "valid_spot_price (usd 5) 2"
  by code_simp

lemma demo_cloid: "hyperliquid_cloid demo_order_crypto demo_hl_request = Inr (''0x'' @ demo_digest)"
  using encodable_json [of "dict_of [(''domain'', PStr ''faar:hyperliquid-testnet:cloid:v1''),
          (''principal_id'', PStr (rq_principal_id demo_hl_request)), (''intent_id'', PStr (rq_intent_id demo_hl_request))]"]
  by (auto simp: hyperliquid_cloid_def demo_order_crypto_def demo_digest_def dict_of_def)

lemma demo_hl_order: "request_order demo_order_crypto demo_hl_request ''principal:alice'' ''acct'' demo_markets = Inr (Inr demo_ioc)"
proof -
  have "hex_text False 32 (''0x'' @ demo_digest)" "positive_finite (usd 5)" "positive_finite (usd 10)" "positive_finite (DFin False 200 (- 2))"
     "parse_bounded_decimal (PDec (usd 10)) = Some (usd 10)" "parse_bounded_decimal (PStr ''10'') = Some (usd 10)"
     "parse_bounded_decimal (PStr ''5'') = Some (usd 5)" "\<not> dle (usd 10) dzero" "\<not> dle (usd 5) dzero"
     "py_lower ''limit'' = ''limit''" "py_upper ''IOC'' = ''IOC''"
    by code_simp+
  moreover have "\<not> dlt (usd 10) (DFin False 1000000000 (- 8))" "\<not> dlt (DFin False 1000000000 (- 8)) (usd 1)"
    by (simp_all add: dlt_def demo_amounts del: dval.simps)
  note facts = calculation this demo_size demo_price demo_cloid demo_worst
  have "ioc_order_init demo_ioc = Inr demo_ioc"
    using facts by (simp add: ioc_order_init_def demo_ioc_def spot_asset_id_def)
  then have "pinned_order demo_order_crypto demo_hl_request demo_market (usd 10) (usd 5) = Inr (Inr demo_ioc)"
    using facts by (simp add: pinned_order_def demo_market_def demo_ioc_def)
  then show ?thesis using facts
    by (simp add: request_order_def request_terms_def demo_hl_request_def demo_markets_def has_key_def pget_def del: parse_bounded_decimal.simps)
qed

theorem hl_order_within_authority_witness:
  "dval (io_size demo_ioc) * dval (io_limit_price demo_ioc) \<le> 10 \<and> 0 < dval (io_size demo_ioc)"
proof -
  have "authorized_amount demo_hl_request = Some (usd 10)" by code_simp
  moreover have "significant_figures (io_limit_price demo_ioc) \<le> DECIMAL_PREC" by code_simp
  moreover have "list_all (\<lambda>(k, m). hl_market_init m = Inr m) demo_markets" using demo_market_ok by (simp add: demo_markets_def)
  ultimately show ?thesis using hl_order_within_authority [OF demo_hl_order] by (simp add: demo_amounts)
qed

text \<open>An exchange that takes the order and whose answer is lost.\<close>

definition demo_hl_adapter :: "nat hl_adapter" where
  "demo_hl_adapter =
     \<lparr>ha_principal_id = ''principal:alice'', ha_target = ''acct'', ha_markets = demo_markets, ha_permit_verifier = demo_order_gateway,
      ha_crypto = demo_order_crypto, ha_transport = (\<lambda>od issued expires v. (ErrorAnswer ''TimeoutError'', Suc v)),
      ha_minimum_submission_window_ms = 1000\<rparr>"

definition demo_hl_world :: "nat world" where
  "demo_hl_world = \<lparr>w_sys = demo_permit_sys, w_venue = 0, w_orphans = 0, w_active = [], w_env = [], w_late = [], w_calls = []\<rparr>"

lemma demo_hl_sent:
  "\<exists>w'. hl_execute demo_hl_adapter demo_hl_request demo_order_permit demo_hl_world
     = (Inr (RaisedAmbiguous ''HL_SUBMISSION_AMBIGUOUS:TimeoutError''), w') \<and> w_venue w' = Suc 0"
proof -
  let ?rq = demo_hl_request and ?w = demo_hl_world
  obtain t where t: "gateway_consume demo_order_gateway demo_order_permit ?rq (secs 1006) (Some (rq_venue ?rq)) ?w = (Inr (True, []), t)"
    "w_venue t = w_venue ?w"
  proof -
    have "encodable (pv_request ?rq)" "envelope_reasons (sp_permit demo_order_permit) (request_amount ?rq) = []"
      "static_reasons demo_order_gateway (HMACPermitSignature ''issuer-1'' ''k'') demo_order_permit ?rq True demo_digest (secs 1006) = []"
      by code_simp+
    then show thesis using demo_permit_accepted [of ?rq ?w] that by (auto simp: demo_hl_world_def)
  qed
  have clock: "read_clock ?w = (Inr (secs 1006), ?w)"
    by (simp add: read_clock_def disturb_def demo_hl_world_def demo_permit_sys_def demo_sys_def)
  have "rq_venue ?rq = HYPERLIQUID_TESTNET_VENUE" by (simp add: demo_hl_request_def)
  moreover have "\<not> epoch_millis (pm_expires_at (sp_permit demo_order_permit)) - epoch_millis (secs 1006) < 1000"
    by (simp add: epoch_millis_def demo_order_permit_def secs_def)
  ultimately show ?thesis using t clock demo_hl_order
    by (simp add: hl_execute_def demo_hl_adapter_def op_simps on_venue_def submission_outcome_def Let_def demo_hl_world_def)
qed

theorem hl_submission_licensed_witness:
  "\<exists>w' row. hl_execute demo_hl_adapter demo_hl_request demo_order_permit demo_hl_world
     = (Inr (RaisedAmbiguous ''HL_SUBMISSION_AMBIGUOUS:TimeoutError''), w')
     \<and> permit_of (db (w_sys w')) ''permit-1'' = Some row \<and> pr_consumed_at row \<noteq> None"
proof -
  obtain w' where w': "hl_execute demo_hl_adapter demo_hl_request demo_order_permit demo_hl_world
     = (Inr (RaisedAmbiguous ''HL_SUBMISSION_AMBIGUOUS:TimeoutError''), w')" "w_venue w' = Suc 0"
    using demo_hl_sent by blast
  moreover have "venue_untouched (w_env demo_hl_world)" "w_venue demo_hl_world = 0" by (simp_all add: demo_hl_world_def venue_untouched_def)
  moreover have "pm_permit_id (sp_permit demo_order_permit) = ''permit-1''" by (simp add: demo_order_permit_def)
  ultimately show ?thesis using hl_submission_licensed [OF _ w'(1)] by auto
qed

end
