(* ===== verification/Hyperliquid_Settlement.thy ===== *)
theory Hyperliquid_Settlement
  imports Hyperliquid_Order
begin

text \<open>
  \<open>faar/hyperliquid.py\<close>, the settlement verifier: it asks the exchange for the order by its client id and for the fills since, and
  gives weight only to records that repeat every term of the order the request determines. The exchange is outside the sources:
  \<open>hv_query_order\<close> and \<open>hv_user_fills\<close> are steps of the venue's state with any effect and any answer.
\<close>

section \<open>The verifier\<close>

record 'v hl_verifier =
  hv_principal_id :: string
  hv_account_address :: string
  hv_target :: string
  hv_markets :: "((string \<times> string) \<times> hl_market) list"
  hv_crypto :: crypto
  hv_query_order :: "string \<Rightarrow> string \<Rightarrow> 'v \<Rightarrow> client_answer \<times> 'v"
  hv_user_fills :: "string \<Rightarrow> int \<Rightarrow> 'v \<Rightarrow> client_answer \<times> 'v"
  hv_fill_page_limit :: int

definition MAX_FILL_PAGE_ITEMS :: int where
  "MAX_FILL_PAGE_ITEMS = 2000"

definition HL_VERIFIER_NAME :: string where
  "HL_VERIFIER_NAME = ''hyperliquid-testnet-info''"

definition hl_verifier_init :: "string option \<Rightarrow> hl_market list \<Rightarrow> 'v hl_verifier \<Rightarrow> exn + 'v hl_verifier" where
  "hl_verifier_init base_url markets v =
     require (hv_principal_id v \<noteq> [] \<and> hv_target v \<noteq> [])
     (require (hex_text True 40 (hv_account_address v))
     (require (base_url = Some HYPERLIQUID_TESTNET_URL)
     (require (1 \<le> hv_fill_page_limit v \<and> hv_fill_page_limit v \<le> MAX_FILL_PAGE_ITEMS)
     (map_sum id (\<lambda>pinned. v\<lparr>hv_markets := pinned, hv_account_address := py_lower (hv_account_address v)\<rparr>) (pin_markets markets [])))))"

section \<open>Records\<close>

text \<open>A record with no effect: without authority, or a contradiction with it.\<close>

definition hl_unknown :: "payload \<Rightarrow> exn + settlement_record" where
  "hl_unknown ev =
     settlement_record_init
       \<lparr>st_status = ST_UNKNOWN, st_effect_id = None, st_amount_usd = None, st_evidence = [], st_authoritative = False, st_verified_request_hash = None\<rparr>
       (dict_of ((''verifier'', PStr HL_VERIFIER_NAME) # ev))"

definition contradiction :: "string \<Rightarrow> ioc_order \<Rightarrow> string \<Rightarrow> exn + settlement_record" where
  "contradiction request_hash expected reason =
     settlement_record_init (no_record ST_CONTRADICTORY request_hash)
       (dict_of [(''verifier'', PStr HL_VERIFIER_NAME), (''reason'', PStr reason), (''cloid'', PStr (io_cloid expected))])"

definition binding_mismatch :: "ioc_order \<Rightarrow> json_object \<Rightarrow> string option" where
  "binding_mismatch expected details =
     (if map_option py_lower (py_text (dget details ''cloid'')) \<noteq> Some (io_cloid expected) then Some ''HL_CLOID_MISMATCH''
      else if \<not> py_eq (dget details ''coin'') (PStr (io_coin expected)) then Some ''HL_COIN_MISMATCH''
      else if \<not> py_eq (dget details ''side'') (PStr ''B'') then Some ''HL_SIDE_MISMATCH''
      else if \<not> py_eq (dget details ''orderType'') (PStr ''Limit'') then Some ''HL_ORDER_TYPE_MISMATCH''
      else if \<not> py_eq (dget details ''tif'') (PStr ''Ioc'') then Some ''HL_TIF_MISMATCH''
      else if dget details ''reduceOnly'' \<noteq> PBool False then Some ''HL_REDUCE_ONLY_MISMATCH''
      else if dget details ''isTrigger'' \<noteq> PBool False then Some ''HL_TRIGGER_MISMATCH''
      else case bounded_decimal (dget details ''limitPx'') of Inl e \<Rightarrow> Some ''HL_ORDER_DECIMAL_MALFORMED'' | Inr limit_px \<Rightarrow>
        if \<not> deq limit_px (io_limit_price expected) then Some ''HL_LIMIT_PRICE_MISMATCH''
        else case bounded_decimal (dget details ''origSz'') of Inl e \<Rightarrow> Some ''HL_ORDER_DECIMAL_MALFORMED'' | Inr orig_sz \<Rightarrow>
          if \<not> deq orig_sz (io_size expected) then Some ''HL_ORIGINAL_SIZE_MISMATCH'' else None)"

section \<open>Fills\<close>

text \<open>\<open>str(tid)\<close> of a trade id: an integer that is no bool, or a text that is not empty.\<close>

fun trade_id :: "pyval \<Rightarrow> string option" where
  "trade_id (PInt n) = Some (str_int n)"
| "trade_id (PStr s) = (if s = [] then None else Some s)"
| "trade_id (PEnum s) = (if s = [] then None else Some s)"
| "trade_id v = None"

record hl_fill =
  hf_size :: decimal
  hf_price :: decimal
  hf_fact :: "string \<times> string \<times> string"

text \<open>One fill of this order: its size, price and the fact that enters the evidence, or the contradiction it shows.\<close>

definition read_fill :: "ioc_order \<Rightarrow> json_object \<Rightarrow> string + string \<times> hl_fill" where
  "read_fill expected fill =
     (if \<not> py_eq (dget fill ''coin'') (PStr (io_coin expected)) then Inl ''HL_FILL_COIN_MISMATCH''
      else if \<not> py_eq (dget fill ''side'') (PStr ''B'') then Inl ''HL_FILL_SIDE_MISMATCH''
      else case (positive_decimal (dget fill ''sz''), positive_decimal (dget fill ''px'')) of
        (Inr sz, Inr price) \<Rightarrow>
          if dlt (io_limit_price expected) price then Inl ''HL_FILL_PRICE_EXCEEDS_LIMIT''
          else (case trade_id (dget fill ''tid'') of
             None \<Rightarrow> Inl ''HL_FILL_ID_MALFORMED''
           | Some tid \<Rightarrow> Inr (tid, \<lparr>hf_size = sz, hf_price = price, hf_fact = (tid, wire_decimal price, wire_decimal sz)\<rparr>))
      | _ \<Rightarrow> Inl ''HL_FILL_DECIMAL_MALFORMED'')"

fun collect_fills :: "ioc_order \<Rightarrow> int \<Rightarrow> pyval list \<Rightarrow> (string \<times> hl_fill) list \<Rightarrow> string + (string \<times> hl_fill) list" where
  "collect_fills expected oid [] by_tid = Inr by_tid"
| "collect_fills expected oid (v # fills) by_tid =
     (case as_object v of
        None \<Rightarrow> collect_fills expected oid fills by_tid
      | Some fill \<Rightarrow>
          if \<not> py_eq (dget fill ''oid'') (PInt oid) then collect_fills expected oid fills by_tid
          else (case read_fill expected fill of
             Inl reason \<Rightarrow> Inl reason
           | Inr (tid, f) \<Rightarrow>
               (case map_of by_tid tid of
                  Some existing \<Rightarrow>
                    if hf_fact existing \<noteq> hf_fact f then Inl ''HL_FILL_ID_CONTRADICTION''
                    else collect_fills expected oid fills (AList.update tid f by_tid)
                | None \<Rightarrow> collect_fills expected oid fills (AList.update tid f by_tid))))"

definition fact_value :: "string \<times> string \<times> string \<Rightarrow> pyval" where
  "fact_value f = (case f of (tid, price, sz) \<Rightarrow> dict_of [(''tid'', PStr tid), (''price'', PStr price), (''size'', PStr sz)])"

text \<open>\<open>_fills\<close>: the filled size, its cost rounded up to the ledger's units, and the facts in the order of their ids.\<close>

definition total_fills :: "ioc_order \<Rightarrow> int \<Rightarrow> pyval list \<Rightarrow> string + decimal \<times> decimal \<times> pyval list" where
  "total_fills expected oid fills =
     (case collect_fills expected oid fills [] of Inl reason \<Rightarrow> Inl reason | Inr by_tid \<Rightarrow>
        let observed_size = dec_sum (map (\<lambda>(k, f). hf_size f) by_tid);
            cost = dec_sum (map (\<lambda>(k, f). dec_mul (hf_size f) (hf_price f)) by_tid) in
        (case quote_amount_ceiling cost of
           Inl e \<Rightarrow> Inl ''HL_FILL_AMOUNT_UNBOUNDED''
         | Inr bounded \<Rightarrow> Inr (observed_size, bounded, map (\<lambda>(k, f). fact_value (hf_fact f)) (sort_by fst by_tid))))"

section \<open>From the answers to the record\<close>

record hl_lookup =
  lk_result :: json_object
  lk_status :: string
  lk_oid :: int
  lk_original :: decimal
  lk_remaining :: decimal

definition settled_record ::
    "crypto \<Rightarrow> string \<Rightarrow> string \<Rightarrow> ioc_order \<Rightarrow> hl_lookup \<Rightarrow> decimal \<Rightarrow> decimal \<Rightarrow> pyval list \<Rightarrow> settlement_status \<Rightarrow> exn + settlement_record" where
  "settled_record L address request_hash expected lk observed_size cost facts status =
     (case canonical_hash L (PSeq facts) of Inl e \<Rightarrow> Inl e | Inr fills_hash \<Rightarrow>
       settlement_record_init
         ((no_record status request_hash)\<lparr>st_effect_id := Some (effect_id_of HYPERLIQUID_TESTNET_VENUE (lk_oid lk)), st_amount_usd := Some cost\<rparr>)
         (dict_of [(''verifier'', PStr HL_VERIFIER_NAME), (''venue'', PStr HYPERLIQUID_TESTNET_VENUE), (''network'', PStr ''testnet''),
            (''account_address'', PStr address), (''cloid'', PStr (io_cloid expected)), (''oid'', PInt (lk_oid lk)),
            (''venue_status'', PStr (lk_status lk)), (''status_timestamp'', dget (lk_result lk) ''statusTimestamp''), (''coin'', PStr (io_coin expected)),
            (''side'', PStr ''B''), (''time_in_force'', PStr ''Ioc''), (''limit_price'', PStr (wire_decimal (io_limit_price expected))),
            (''order_size'', PStr (wire_decimal (io_size expected))), (''filled_size'', PStr (wire_decimal observed_size)),
            (''fill_count'', PInt (int (length facts))), (''fills_hash'', PStr fills_hash)]))"

text \<open>The fills against the order: too much, too little, too expensive, inconsistent, or settled.\<close>

definition judge_fills ::
    "'v hl_verifier \<Rightarrow> string \<Rightarrow> ioc_order \<Rightarrow> hl_lookup \<Rightarrow> pyval list \<Rightarrow> exn + settlement_record" where
  "judge_fills v request_hash expected lk fills =
     (if int (length fills) \<ge> hv_fill_page_limit v
      then hl_unknown [(''reason'', PStr ''HL_FILL_PAGE_MAY_BE_TRUNCATED''), (''cloid'', PStr (io_cloid expected)), (''oid'', PInt (lk_oid lk))]
      else case total_fills expected (lk_oid lk) fills of
        Inl reason \<Rightarrow> contradiction request_hash expected reason
      | Inr (observed_size, cost, facts) \<Rightarrow>
          let venue_filled_size = dec_add (lk_original lk) (dec_neg (lk_remaining lk)) in
          if dlt venue_filled_size observed_size then contradiction request_hash expected ''HL_FILL_TOTAL_EXCEEDS_ORDER''
          else if dlt observed_size venue_filled_size
          then hl_unknown [(''reason'', PStr ''HL_FILL_HISTORY_INCOMPLETE''), (''cloid'', PStr (io_cloid expected)), (''oid'', PInt (lk_oid lk)),
                 (''venue_filled_size'', PStr (wire_decimal venue_filled_size)), (''observed_filled_size'', PStr (wire_decimal observed_size))]
          else if dlt (io_authorized_notional_usd expected) cost
          then contradiction request_hash expected ''HL_FILL_EXCEEDS_AUTHORIZED_NOTIONAL''
          else if lk_status lk = ''filled'' then
            (if \<not> deq (lk_remaining lk) dzero \<or> \<not> deq observed_size (lk_original lk) \<or> dle cost dzero
             then contradiction request_hash expected ''HL_FILLED_STATUS_INCONSISTENT''
             else settled_record (hv_crypto v) (hv_account_address v) request_hash expected lk observed_size cost facts ST_FINALIZED)
          else if lk_status lk \<in> set REJECTED_STATUSES \<and> \<not> deq observed_size dzero
          then contradiction request_hash expected ''HL_REJECTION_HAS_FILL''
          else settled_record (hv_crypto v) (hv_account_address v) request_hash expected lk observed_size cost facts ST_CANCELLED)"

fun as_int :: "pyval \<Rightarrow> int option" where
  "as_int (PInt n) = Some n"
| "as_int v = None"

fun as_list :: "pyval \<Rightarrow> pyval list option" where
  "as_list (PSeq xs) = Some xs"
| "as_list v = None"

text \<open>What the order lookup alone decides: a record, or the lookup whose fills are to be read from its timestamp on.\<close>

definition judge_details ::
    "string \<Rightarrow> ioc_order \<Rightarrow> json_object \<Rightarrow> json_object \<Rightarrow> string \<Rightarrow> exn + settlement_record + int \<times> hl_lookup" where
  "judge_details request_hash expected found details status =
     (case binding_mismatch expected details of
        Some mismatch \<Rightarrow> map_sum id Inl (contradiction request_hash expected mismatch)
      | None \<Rightarrow>
          (case positive_int (dget details ''oid'') of Inl e \<Rightarrow> Inl e | Inr oid \<Rightarrow>
          (case bounded_decimal (dget details ''origSz'') of Inl e \<Rightarrow> Inl e | Inr original_size \<Rightarrow>
          (case bounded_decimal (dget details ''sz'') of Inl e \<Rightarrow> Inl e | Inr remaining_size \<Rightarrow>
           if dlt remaining_size dzero \<or> dlt original_size remaining_size
           then map_sum id Inl (contradiction request_hash expected ''HL_REMAINING_SIZE_INVALID'')
           else if status \<in> set [''open'', ''triggered''] then map_sum id Inl (contradiction request_hash expected ''HL_IOC_NONTERMINAL_STATUS'')
           else if status \<notin> set (''filled'' # CANCELLED_STATUSES @ REJECTED_STATUSES)
           then map_sum id Inl (hl_unknown [(''reason'', PStr ''HL_STATUS_UNRECOGNIZED''), (''cloid'', PStr (io_cloid expected)), (''oid'', PInt oid)])
           else case as_int (dget details ''timestamp'') of
             None \<Rightarrow> map_sum id Inl (contradiction request_hash expected ''HL_ORDER_TIMESTAMP_INVALID'')
           | Some timestamp \<Rightarrow>
               if timestamp < 0 then map_sum id Inl (contradiction request_hash expected ''HL_ORDER_TIMESTAMP_INVALID'')
               else Inr (Inr (timestamp, \<lparr>lk_result = found, lk_status = status, lk_oid = oid, lk_original = original_size, lk_remaining = remaining_size\<rparr>))))))"

definition judge_lookup :: "string \<Rightarrow> ioc_order \<Rightarrow> pyval \<Rightarrow> exn + settlement_record + int \<times> hl_lookup" where
  "judge_lookup request_hash expected response =
     (case as_object response of None \<Rightarrow> Inl ValueError | Some d \<Rightarrow>
      if py_eq (dget d ''status'') (PStr ''unknownOid'')
      then map_sum id Inl (hl_unknown [(''reason'', PStr ''HL_ORDER_NOT_FOUND''), (''cloid'', PStr (io_cloid expected))])
      else if \<not> py_eq (dget d ''status'') (PStr ''order'') then Inl ValueError
      else case as_object (dget d ''order'') of None \<Rightarrow> Inl ValueError | Some found \<Rightarrow>
      (case (as_object (dget found ''order''), py_text (dget found ''status'')) of
         (Some details, Some status) \<Rightarrow> judge_details request_hash expected found details status
       | _ \<Rightarrow> Inl ValueError))"

section \<open>Verification\<close>

text \<open>An exception of the exchange client or of the reading becomes a record without authority; only an exit passes.\<close>

datatype hl_failure = HL_Failed string | HL_Raised string | HL_Exit string

definition ask :: "('v \<Rightarrow> client_answer \<times> 'v) \<Rightarrow> (pyval \<Rightarrow> 'v \<Rightarrow> (hl_failure + 'a) \<times> 'v) \<Rightarrow> 'v \<Rightarrow> (hl_failure + 'a) \<times> 'v" where
  "ask client k s = (case client s of (answer, t) \<Rightarrow> (case answer of
     Answered response \<Rightarrow> k response t
   | DeterministicAnswer msg \<Rightarrow> (Inl (HL_Failed msg), t)
   | AmbiguousAnswer msg \<Rightarrow> (Inl (HL_Raised ''AmbiguousExecution''), t)
   | ErrorAnswer ty \<Rightarrow> (Inl (HL_Raised ty), t)
   | ExitAnswer ty \<Rightarrow> (Inl (HL_Exit ty), t)))"

definition raised :: "exn + 'a \<Rightarrow> hl_failure + 'a" where
  "raised r = map_sum (\<lambda>e. HL_Raised (exn_name e)) id r"

definition hl_record :: "'v hl_verifier \<Rightarrow> string \<Rightarrow> string \<Rightarrow> ioc_order \<Rightarrow> 'v \<Rightarrow> (hl_failure + settlement_record) \<times> 'v" where
  "hl_record v request_hash cloid expected =
     ask (hv_query_order v (hv_account_address v) cloid) (\<lambda>response s.
       case raised (judge_lookup request_hash expected response) of
         Inl e \<Rightarrow> (Inl e, s)
       | Inr (Inl record) \<Rightarrow> (Inr record, s)
       | Inr (Inr (timestamp, lk)) \<Rightarrow>
           ask (hv_user_fills v (hv_account_address v) timestamp) (\<lambda>answer t.
             (case as_list answer of
                Some fills \<Rightarrow> raised (judge_fills v request_hash expected lk fills)
              | None \<Rightarrow> Inl (HL_Raised ''ValueError''), t)) s)"

definition hl_verify_record :: "'v hl_verifier \<Rightarrow> execution_request \<Rightarrow> 'v \<Rightarrow> (exn + settlement_record) \<times> 'v" where
  "hl_verify_record v rq s =
     (case canonical_hash (hv_crypto v) (pv_request rq) of Inl e \<Rightarrow> (Inl e, s) | Inr request_hash \<Rightarrow>
     (case hyperliquid_cloid (hv_crypto v) rq of Inl e \<Rightarrow> (Inl e, s) | Inr cloid \<Rightarrow>
     (case (case request_order (hv_crypto v) rq (hv_principal_id v) (hv_target v) (hv_markets v) of
              Inl e \<Rightarrow> (Inl (HL_Raised (exn_name e)), s)
            | Inr (Inl msg) \<Rightarrow> (Inl (HL_Failed msg), s)
            | Inr (Inr order) \<Rightarrow> hl_record v request_hash cloid order s) of
        (Inr record, t) \<Rightarrow> (Inr record, t)
      | (Inl (HL_Failed msg), t) \<Rightarrow> (hl_unknown [(''reason'', PStr (take 256 msg))], t)
      | (Inl (HL_Raised ty), t) \<Rightarrow> (hl_unknown [(''reason'', PStr ''HL_INFO_UNAVAILABLE''), (''type'', PStr ty)], t)
      | (Inl (HL_Exit ty), t) \<Rightarrow> (Inl OtherError, t))))"

definition hl_verify :: "'v hl_verifier \<Rightarrow> 'v settlement_source" where
  "hl_verify v rq = bindE (on_venue (hl_verify_record v rq)) (\<lambda>s. ret (SettlementAnswer s))"

section \<open>What an authoritative answer says\<close>

lemma raised_Inr [simp]: "raised r = Inr x \<longleftrightarrow> r = Inr x"
  by (cases r) (auto simp: raised_def)

lemma raised_of_Inr [simp]: "raised (Inr x) = Inr x"
  by (simp add: raised_def)

lemma as_list_Some [simp]: "as_list v = Some xs \<longleftrightarrow> v = PSeq xs"
  by (cases v) auto

lemma unknown_record: "hl_unknown ev = Inr t \<Longrightarrow> \<not> st_authoritative t"
  by (auto simp: hl_unknown_def dest: settlement_record_fields)

text \<open>A record that claims nothing settled: no authority, or a contradiction bound to the request.\<close>

definition unsettled :: "string \<Rightarrow> settlement_record \<Rightarrow> bool" where
  "unsettled h t \<longleftrightarrow> \<not> st_authoritative t \<or> st_status t = ST_CONTRADICTORY \<and> st_verified_request_hash t = Some h"

lemma unsettled_records: "hl_unknown ev = Inr t \<Longrightarrow> unsettled h t" "contradiction h od reason = Inr t \<Longrightarrow> unsettled h t"
  by (auto simp: unsettled_def contradiction_def no_record_def dest: unknown_record settlement_record_fields)

lemma details_decided: "judge_details h od found details status = Inr (Inl t) \<Longrightarrow> unsettled h t"
  unfolding judge_details_def
  by (auto simp del: list.set simp: map_sum_Inr_iff dest: unsettled_records split: option.splits if_splits sum.splits)

lemma lookup_decided: "judge_lookup h od response = Inr (Inl t) \<Longrightarrow> unsettled h t"
  unfolding judge_lookup_def
  by (auto simp: map_sum_Inr_iff dest: unsettled_records details_decided split: option.splits if_splits)

lemma details_bound:
  assumes "judge_details h od found details status = Inr (Inr (ts, lk))"
  shows "deq (lk_original lk) (io_size od)"
proof -
  have "binding_mismatch od details = None" "bounded_decimal (dget details ''origSz'') = Inr (lk_original lk)"
    using assms unfolding judge_details_def
    by (auto simp del: list.set simp: map_sum_Inr_iff split: option.splits if_splits sum.splits)
  then show ?thesis by (simp add: binding_mismatch_def split: if_splits sum.splits)
qed

lemma lookup_bound: "judge_lookup h od response = Inr (Inr (ts, lk)) \<Longrightarrow> deq (lk_original lk) (io_size od)"
  unfolding judge_lookup_def by (auto simp: map_sum_Inr_iff dest: details_bound split: option.splits if_splits)

definition fill_ok :: "ioc_order \<Rightarrow> hl_fill \<Rightarrow> bool" where
  "fill_ok od f \<longleftrightarrow> 0 < dval (hf_size f) \<and> 0 < dval (hf_price f) \<and> dval (hf_price f) \<le> dval (io_limit_price od)"

lemma collected_fills:
  "collect_fills od oid fills acc = Inr by_tid \<Longrightarrow> list_all (\<lambda>(tid, f). fill_ok od f) acc \<Longrightarrow> list_all (\<lambda>(tid, f). fill_ok od f) by_tid"
proof (induction od oid fills acc rule: collect_fills.induct)
  case (2 od oid v fills acc)
  have "fill_ok od f" if "read_fill od d = Inr (tid, f)" for d tid f
    using that by (auto simp: read_fill_def positive_decimal_def fill_ok_def dle_def dlt_def split: if_splits sum.splits option.splits)
  then have "list_all (\<lambda>(tid, f). fill_ok od f) (AList.update tid f acc)" if "read_fill od d = Inr (tid, f)" for d tid f
    using that "2.prems"(2) by (auto intro!: alist_all_update)
  then show ?case using 2 by (auto split: option.splits if_splits sum.splits)
qed simp

text \<open>A settled record: complete fills of exactly this order, each inside its limit, with a cost inside the authorized amount.\<close>

definition attested_fills :: "'v hl_verifier \<Rightarrow> ioc_order \<Rightarrow> hl_lookup \<Rightarrow> pyval list \<Rightarrow> settlement_record \<Rightarrow> bool" where
  "attested_fills v od lk fills t \<longleftrightarrow>
     int (length fills) < hv_fill_page_limit v \<and> st_effect_id t = Some (effect_id_of HYPERLIQUID_TESTNET_VENUE (lk_oid lk)) \<and>
     (case collect_fills od (lk_oid lk) fills [] of Inl reason \<Rightarrow> False | Inr by_tid \<Rightarrow>
        let observed = dval (dec_sum (map (\<lambda>(k, f). hf_size f) by_tid)) in
        list_all (\<lambda>(tid, f). fill_ok od f) by_tid
        \<and> observed = dval (dec_add (lk_original lk) (dec_neg (lk_remaining lk)))
        \<and> (case (st_amount_usd t, quote_amount_ceiling (dec_sum (map (\<lambda>(k, f). dec_mul (hf_size f) (hf_price f)) by_tid))) of
             (Some cost, Inr cost') \<Rightarrow> cost = cost' \<and> dval cost \<le> dval (io_authorized_notional_usd od) \<and> (st_status t = ST_FINALIZED \<longrightarrow> 0 < dval cost)
           | _ \<Rightarrow> False)
        \<and> (st_status t = ST_FINALIZED \<longrightarrow> observed = dval (io_size od) \<and> lk_status lk = ''filled'')
        \<and> (lk_status lk \<in> set REJECTED_STATUSES \<longrightarrow> observed = 0))"

lemma settled_record_fields:
  assumes "settled_record L address h od lk observed cost facts status = Inr t"
  shows "st_status t = status" and "st_effect_id t = Some (effect_id_of HYPERLIQUID_TESTNET_VENUE (lk_oid lk))"
    and "st_verified_request_hash t = Some h" and "st_amount_usd t = Some cost"
  using assms by (auto simp: settled_record_def no_record_def dest: settlement_record_fields split: sum.splits)

lemma judged_fills:
  assumes "judge_fills v h od lk fills = Inr t" and "deq (lk_original lk) (io_size od)"
  shows "unsettled h t \<or> st_status t \<in> {ST_FINALIZED, ST_CANCELLED} \<and> st_verified_request_hash t = Some h \<and> attested_fills v od lk fills t"
proof (cases "unsettled h t")
  case False
  let ?sizes = "\<lambda>by_tid. dec_sum (map (\<lambda>(k, f). hf_size f) by_tid)" and ?cost = "\<lambda>by_tid. dec_sum (map (\<lambda>(k, f). dec_mul (hf_size f) (hf_price f)) by_tid)"
  have no: "hl_unknown ev \<noteq> Inr t" "contradiction h od reason \<noteq> Inr t" for ev reason
    using False unsettled_records by blast+
  obtain observed cost facts where tf: "total_fills od (lk_oid lk) fills = Inr (observed, cost, facts)"
    and page: "int (length fills) < hv_fill_page_limit v"
    using assms(1) no unfolding judge_fills_def by (auto split: if_splits sum.splits)
  define filled where "filled = (lk_status lk = ''filled'')"
  have judged: "dval observed = dval (dec_add (lk_original lk) (dec_neg (lk_remaining lk)))" "dval cost \<le> dval (io_authorized_notional_usd od)"
    "filled \<longrightarrow> dval observed = dval (lk_original lk) \<and> 0 < dval cost"
    "\<not> filled \<and> lk_status lk \<in> set REJECTED_STATUSES \<longrightarrow> dval observed = 0"
    "settled_record (hv_crypto v) (hv_account_address v) h od lk observed cost facts (if filled then ST_FINALIZED else ST_CANCELLED) = Inr t"
    using assms(1) no tf page unfolding judge_fills_def filled_def
    by (auto simp del: dec_add.simps simp: Let_def dlt_def dle_def deq_def split: if_splits)
  note rec = settled_record_fields [OF judged(5)]
  obtain by_tid where b: "collect_fills od (lk_oid lk) fills [] = Inr by_tid" "observed = ?sizes by_tid" "quote_amount_ceiling (?cost by_tid) = Inr cost"
    using tf by (auto simp: total_fills_def Let_def split: sum.splits)
  have "list_all (\<lambda>(tid, f). fill_ok od f) by_tid" by (rule collected_fills [OF b(1)]) simp
  moreover have "\<not> (filled \<and> lk_status lk \<in> set REJECTED_STATUSES)" by (simp add: filled_def REJECTED_STATUSES_def)
  ultimately have "attested_fills v od lk fills t"
    using b judged rec page assms(2) by (auto simp: attested_fills_def Let_def deq_def filled_def)
  then show ?thesis using rec by simp
qed simp


section \<open>One order, found filled\<close>

definition demo_lookup :: "json_object" where
  "demo_lookup = [(KStr ''cloid'', PStr (io_cloid demo_ioc)), (KStr ''coin'', PStr ''PURR/USDC''), (KStr ''side'', PStr ''B''), (KStr ''orderType'', PStr ''Limit''),
     (KStr ''tif'', PStr ''Ioc''), (KStr ''reduceOnly'', PBool False), (KStr ''isTrigger'', PBool False), (KStr ''limitPx'', PStr ''5''),
     (KStr ''origSz'', PStr ''2''), (KStr ''sz'', PStr ''0''), (KStr ''oid'', PInt 7), (KStr ''timestamp'', PInt 1000)]"

definition demo_found :: json_object where
  "demo_found = [(KStr ''order'', PDict demo_lookup), (KStr ''status'', PStr ''filled''), (KStr ''statusTimestamp'', PInt 1001)]"

definition demo_fill :: pyval where
  "demo_fill = PDict [(KStr ''coin'', PStr ''PURR/USDC''), (KStr ''side'', PStr ''B''), (KStr ''sz'', PStr ''2''), (KStr ''px'', PStr ''5''), (KStr ''tid'', PInt 9),
     (KStr ''oid'', PInt 7)]"

definition demo_hl_verifier :: "unit hl_verifier" where
  "demo_hl_verifier =
     \<lparr>hv_principal_id = ''principal:alice'', hv_account_address = ''0xa'', hv_target = ''acct'', hv_markets = demo_markets, hv_crypto = demo_order_crypto,
      hv_query_order = (\<lambda>account cloid s. (Answered (PDict [(KStr ''status'', PStr ''order''), (KStr ''order'', PDict demo_found)]), s)),
      hv_user_fills = (\<lambda>account since s. (Answered (PSeq [demo_fill]), s)), hv_fill_page_limit = 2000\<rparr>"

definition demo_state :: hl_lookup where
  "demo_state = \<lparr>lk_result = demo_found, lk_status = ''filled'', lk_oid = 7, lk_original = usd 2, lk_remaining = usd 0\<rparr>"

lemma demo_lookup_judged:
  "judge_lookup demo_digest demo_ioc (PDict [(KStr ''status'', PStr ''order''), (KStr ''order'', PDict demo_found)]) = Inr (Inr (1000, demo_state))"
  by code_simp

lemma demo_fills_read:
  "collect_fills demo_ioc 7 [demo_fill] [] = Inr [(''9'', \<lparr>hf_size = usd 2, hf_price = usd 5, hf_fact = (''9'', ''5'', ''2'')\<rparr>)]"
  by code_simp

lemma demo_fills_total:
  "total_fills demo_ioc 7 [demo_fill] = Inr (usd 2, DFin False 1000000000 (- 8), [fact_value (''9'', ''5'', ''2'')])"
proof -
  have "dec_sum [usd 2] = usd 2" "dec_sum [dec_mul (usd 2) (usd 5)] = usd 10" by code_simp+
  moreover have "quote_amount_ceiling (usd 10) = Inr (DFin False 1000000000 (- 8))"
    using demo_bounded by (simp add: quote_amount_ceiling_def usd_def quantize_coeff.simps ndigits.simps DECIMAL_PREC_def dlt_def)
  ultimately show ?thesis using demo_fills_read by (simp add: total_fills_def sort_by_def)
qed

definition demo_hl_evidence :: pyval where
  "demo_hl_evidence = dict_of [(''verifier'', PStr HL_VERIFIER_NAME), (''venue'', PStr HYPERLIQUID_TESTNET_VENUE), (''network'', PStr ''testnet''),
     (''account_address'', PStr ''0xa''), (''cloid'', PStr (io_cloid demo_ioc)), (''oid'', PInt 7), (''venue_status'', PStr ''filled''),
     (''status_timestamp'', PInt 1001), (''coin'', PStr ''PURR/USDC''), (''side'', PStr ''B''), (''time_in_force'', PStr ''Ioc''), (''limit_price'', PStr ''5''),
     (''order_size'', PStr ''2''), (''filled_size'', PStr ''2''), (''fill_count'', PInt 1), (''fills_hash'', PStr demo_digest)]"

lemma demo_hl_record:
  "\<exists>t. settled_record demo_order_crypto ''0xa'' demo_digest demo_ioc demo_state (usd 2) (DFin False 1000000000 (- 8)) [fact_value (''9'', ''5'', ''2'')]
     ST_FINALIZED = Inr t \<and> st_authoritative t"
proof -
  have "encodable (PSeq [fact_value (''9'', ''5'', ''2'')])" by code_simp
  then have hashed: "canonical_hash demo_order_crypto (PSeq [fact_value (''9'', ''5'', ''2'')]) = Inr demo_digest"
    using encodable_json by (fastforce simp: canonical_hash_def demo_order_crypto_def)
  have ev: "case freeze_mapping demo_hl_evidence of Inl e \<Rightarrow> False | Inr ev \<Rightarrow> require_bounded_evidence ev" by code_simp
  have wired: "wire_decimal (usd 5) = ''5''" "wire_decimal (usd 2) = ''2''" "wire_decimal (io_size demo_ioc) = ''2''" "io_limit_price demo_ioc = usd 5"
    "dget (lk_result demo_state) ''statusTimestamp'' = PInt 1001" "io_coin demo_ioc = ''PURR/USDC''" "lk_oid demo_state = 7" "lk_status demo_state = ''filled''"
    "length (effect_id_of HYPERLIQUID_TESTNET_VENUE 7) \<le> 100" "length demo_digest = 32" "demo_digest \<noteq> []" by code_simp+
  have "settlement_record_init ((no_record ST_FINALIZED demo_digest)\<lparr>st_effect_id := Some (effect_id_of HYPERLIQUID_TESTNET_VENUE 7),
      st_amount_usd := Some (DFin False 1000000000 (- 8))\<rparr>) demo_hl_evidence \<noteq> Inl e" for e
    using ev wired(9-11) demo_bounded by (auto simp: require_def settlement_record_init_def no_record_def MAX_CANONICAL_STRING_CHARS_def bounded_amount_def split: sum.splits)
  then obtain t where t: "settlement_record_init ((no_record ST_FINALIZED demo_digest)\<lparr>st_effect_id := Some (effect_id_of HYPERLIQUID_TESTNET_VENUE 7),
      st_amount_usd := Some (DFin False 1000000000 (- 8))\<rparr>) demo_hl_evidence = Inr t"
    by (metis sum.exhaust)
  moreover have "st_authoritative t" using settlement_record_fields(3) [OF t] by (simp add: no_record_def)
  ultimately show ?thesis using hashed wired by (simp add: settled_record_def demo_hl_evidence_def)
qed

lemma demo_hl_verified: "\<exists>t. hl_verify_record demo_hl_verifier demo_hl_request () = (Inr t, ()) \<and> st_authoritative t"
proof -
  have "encodable (pv_request demo_hl_request)" by code_simp
  then have hashed: "canonical_hash demo_order_crypto (pv_request demo_hl_request) = Inr demo_digest"
    using encodable_json by (fastforce simp: canonical_hash_def demo_order_crypto_def)
  obtain t where t: "settled_record demo_order_crypto ''0xa'' demo_digest demo_ioc demo_state (usd 2) (DFin False 1000000000 (- 8))
     [fact_value (''9'', ''5'', ''2'')] ST_FINALIZED = Inr t" "st_authoritative t" using demo_hl_record by blast
  have "dec_add (lk_original demo_state) (dec_neg (lk_remaining demo_state)) = usd 2" "lk_oid demo_state = 7" "lk_status demo_state = ''filled''"
    "deq (lk_remaining demo_state) dzero" "deq (usd 2) (lk_original demo_state)" "io_authorized_notional_usd demo_ioc = usd 10" by code_simp+
  moreover have "\<not> dlt (usd 10) (DFin False 1000000000 (- 8))" "\<not> dle (DFin False 1000000000 (- 8)) dzero" "\<not> dlt x x" for x
    by (simp_all add: dlt_def dle_def demo_amounts del: dval.simps)
  ultimately have "judge_fills demo_hl_verifier demo_digest demo_ioc demo_state [demo_fill] = Inr t"
    using t demo_fills_total by (simp add: judge_fills_def demo_hl_verifier_def)
  with t(2) hashed demo_hl_order demo_cloid demo_lookup_judged show ?thesis
    by (simp add: hl_verify_record_def hl_record_def ask_def demo_hl_verifier_def)
qed


end
