(* ===== verification/Spec2Isabelle.thy ===== *)
theory Spec2Isabelle
  imports Gates Store_Budget Store_Audit Scenarios Anchor_Refine Protocol Outcomes Paper_Admission Hyperliquid_Settlement
begin

text \<open>
  FAAR is a runtime between an agent that proposes economic actions and the venues that execute them. An intent names a
  payment, a trade or a cancellation; a capability grant bounds what its agent may do; an authority decision and a risk
  snapshot are attested by keys the runtime trusts. If the gates allow the intent, the runtime reserves its budget, obtains a
  signed, single-use permit, and hands request and permit to an adapter. What happened is decided by an independent settlement
  verifier, never by the adapter's word, and everything is recorded in a hash-chained ledger. The promise of the program is
  that no effect happens without authority and none twice, through crashes, retries, timeouts, concurrent workers and an
  operator who may stop it at any moment. This development models the program's own logic and proves that promise.

  \<^bold>\<open>Values and documents.\<close> \<open>FAAR_Prelude\<close> has the exceptions of the program, the operations over a state that return a value
  or raise (\<open>op\<close>, with two-state guarantees as the locale \<open>step_preorder\<close> and weakest preconditions), tables as lists of rows
  and time in microseconds. \<open>Py_Decimal\<close> is Python's decimal arithmetic where the sources use it; \<open>Canonical\<close> is
  \<open>faar/canonical.py\<close>: untrusted values, the amount parser, canonical JSON and its hash; \<open>Models\<close> is \<open>faar/models.py\<close>, one record
  per artifact with the checks of its constructor, and the bounded deep copy of payloads. \<open>Money_Text\<close> shows that amounts and
  their texts determine each other, \<open>Encodable\<close> on which values the encoder answers and on which it raises. The hash and MAC
  functions are parameters (\<open>crypto\<close>); theorems that need more of them say so.

  \<^bold>\<open>Policy.\<close> \<open>Gates\<close> is \<open>faar/gates.py\<close>, every reason code in the order of the code; an allowed intent is inside its grant, and
  an allowed snapshot inside its limits.

  \<^bold>\<open>Authority anchor.\<close> \<open>Anchor\<close> is \<open>faar/anchor.py\<close>: the in-memory anchor and the file anchor, as the parsed content of its file
  with its lock and writability. \<open>Anchor_Refine\<close> shows by simulation that a healthy file anchor answers every sequence of
  calls as the in-memory one.

  \<^bold>\<open>Intent store.\<close> \<open>faar/store.py\<close> is a database of tables (the record \<open>db\<close>) with the anchor and a clock (\<open>sys\<close>).
  \<open>Store_Base\<close> has the tables, transactions that roll back on an exception, and the relation \<open>keeps\<close> that every operation
  satisfies: keys stay unique, rows are never lost, epochs, fences and counters only grow, states move along the allowed
  transitions, consumed and voided permits stay so. \<open>Store_Grants\<close> (grants, halts, fences, opening), \<open>Store_Usage\<close>
  (reservations, turnover, velocity, caps), \<open>Store_Permits\<close> (the permit ledger), \<open>Store_Evidence\<close> (the chains and their heads) and
  \<open>Store_Intents\<close> (registration, transitions, submissions, leases) model the transactions, each with its proof of \<open>keeps\<close>.
  \<open>Store_System\<close> runs any interleaving of them (\<open>store_action\<close>, \<open>perform\<close>, \<open>run_actions\<close>) and has the theorems over all
  reachable states; \<open>Store_Frames\<close> says which tables an operation leaves alone, \<open>Store_Budget\<close> bounds turnover and velocity,
  \<open>Store_Audit\<close> is about the evidence chains.

  \<^bold>\<open>Signatures.\<close> \<open>Base64url\<close> is the text form of signatures, \<open>Attestation\<close> is \<open>faar/attestation.py\<close>, \<open>Permits\<close> is
  \<open>faar/permits.py\<close>: issuing and verifying permits, with the Ed25519 primitive as a parameter and its correctness
  (\<open>ed_correct\<close>) as a hypothesis where a signature must verify. \<open>Permit_Delivery\<close> shows that what is issued is accepted.

  \<^bold>\<open>Runtime.\<close> A worker runs in a \<open>world\<close> (theory \<open>World\<close>): the shared store, a venue of any type, and a script of what everybody
  else does between any two of its calls, refusals of the datastore included; a theorem for every script is one for every
  interleaving. \<open>Runtime\<close> and \<open>Reconcile\<close> are \<open>faar/runtime.py\<close> with \<open>process\<close>, \<open>reconcile\<close> and all their helpers. Adapters and
  verifiers are operations on the world, with any answer and any effect the hypotheses of a theorem allow. \<open>Runtime_Steps\<close>
  proves once, as locales over any invariant (\<open>store_step\<close>, \<open>issuer_step\<close>, \<open>worker_step\<close>, \<open>worker\<close>), what the operations of a worker
  preserve; \<open>Runtime_Safety\<close> interprets them for least privilege and for the licence of every adapter call, \<open>Exactly_Once\<close> for the
  single consumption per intent, \<open>Runtime_Progress\<close> (locale \<open>bounded_runtime\<close>) for termination.

  \<^bold>\<open>Venues and settlement.\<close> \<open>Adapters\<close> is the reference venue of \<open>faar/adapters.py\<close>, \<open>Paper\<close> the paper venue of \<open>faar/paper.py\<close>,
  \<open>Settlement\<close> the verifiers of \<open>faar/settlement.py\<close> with the quorum, \<open>Outcomes\<close> the decision of \<open>faar/outcomes.py\<close> whether a task is
  done. \<open>Paper_Gateway\<close> is the venue process of \<open>faar/paper_gateway.py\<close>: the order book, the service that admits orders under a
  consumed permit, fills, cancels and reports them, and its two roles. \<open>Paper_Orders\<close> shows that every operation keeps the book
  well formed, orders final and fills inside their limits (\<open>book_step\<close>), \<open>Paper_Admission\<close> that a submission needs its credential and
  its permit and that a consumed permit always has a record. \<open>Hyperliquid\<close> is the adapter of \<open>faar/hyperliquid.py\<close>, from the request to
  the one order it may become and the submission under a consumed permit; \<open>Hyperliquid_Order\<close> shows that the exact cost of that order
  stays inside the signed amount and that nothing is sent without the permit. \<open>Hyperliquid_Settlement\<close> is its verifier, with what an
  authoritative answer proves about the fills. The exchange is a parameter with any effect and any answer. \<open>Permit_Demo\<close> has the
  accepted permit the witnesses of both venues use. \<open>Scenarios\<close> puts one deployment together (issuer, gateway, venue, verifier) and holds the witnesses that need it.

  \<^bold>\<open>Protocol model.\<close> \<open>Protocol\<close> is \<open>evals/model_check_permit_protocol.py\<close>: the abstract permit protocol and the bounded search
  over it. The protocol is proved safe without bound, and the search is proved to decide the invariant up to its depth.

  \<^bold>\<open>Recursion and fuel.\<close> \<open>_submit\<close> and \<open>reconcile\<close> call each other in the code. The model counts these calls with a fuel;
  \<open>reconcile_terminates\<close> and \<open>process_fuel_enough\<close> show that a fuel above the attempts the grant still allows plus the length of
  the script is never used up. All other recursion is structural or has its own termination proof. Text is a list of
  characters below 256, and a float is its shortest decimal text.

  \<^bold>\<open>Not modelled.\<close> Migration of older databases, connection handling, file locking and fsync, threads and in-process locks (the
  interference script allows every interleaving they forbid), logging and the read-only reporting queries of the store;
  \<open>parsing.py\<close> and \<open>cli.py\<close> (documents and commands around the modelled operations); \<open>postgres_store.py\<close> (the same transactions in
  another SQL dialect over a third-party driver); the wire format and the loopback HTTP server
  and clients of \<open>paper_gateway.py\<close>;
  the HTTP client classes of \<open>hyperliquid.py\<close> and the exchange behind them; the other evaluation scripts, which drive the modelled components.
\<close>

end
